theory Spec2Isabelle
  imports Main "HOL-Library.AList" "HOL-Library.Sublist"
begin

section \<open>Paths\<close>

text \<open>
  The tool calls \<open>path.resolve\<close>, \<open>path.join\<close>, \<open>path.basename\<close> and
  \<open>path.dirname\<close> of Node. They are modelled for POSIX. An absolute, normalised path is
  the list of its components from the root (\<open>[]\<close> is \<open>/\<close>); a raw path, as the caller
  types it, is a string.
\<close>

type_synonym path = "string list"

text \<open>The segments of a raw path between its slashes.\<close>

primrec segments :: "string \<Rightarrow> string list" where
  "segments [] = [[]]"
| "segments (c # cs) =
     (if c = CHR ''/'' then [] # segments cs
      else (case segments cs of [] \<Rightarrow> [[c]] | s # ss \<Rightarrow> (c # s) # ss))"

text \<open>
  Normalisation walks the segments: an empty segment and \<open>.\<close> are dropped, \<open>..\<close> goes to
  the parent (the root is its own parent), any other segment goes down.
\<close>

definition applySegment :: "path \<Rightarrow> string \<Rightarrow> path" where
  "applySegment p s =
     (if s = [] \<or> s = ''.'' then p else if s = ''..'' then butlast p else p @ [s])"

text \<open>\<open>path.join(base, raw)\<close> for an absolute normalised \<open>base\<close>.\<close>

definition path_join :: "path \<Rightarrow> string \<Rightarrow> path" where
  "path_join base raw = foldl applySegment base (segments raw)"

text \<open>\<open>path.resolve(raw)\<close> in a process whose working directory is \<open>wd\<close>.\<close>

definition path_resolve :: "path \<Rightarrow> string \<Rightarrow> path" where
  "path_resolve wd raw =
     (if raw \<noteq> [] \<and> hd raw = CHR ''/'' then path_join [] raw else path_join wd raw)"

text \<open>The text of an absolute path, as a template literal prints it.\<close>

definition path_string :: "path \<Rightarrow> string" where
  "path_string p = (if p = [] then ''/'' else concat (map (\<lambda>c. ''/'' @ c) p))"

text \<open>\<open>path.basename\<close> of an absolute normalised path; the base name of the root is empty.\<close>

definition path_basename :: "path \<Rightarrow> string" where
  "path_basename p = (if p = [] then [] else last p)"

text \<open>
  \<open>path.dirname\<close> of a raw path, after Node's POSIX implementation: trailing slashes
  are skipped, then the last segment, and what is left of the last slash is returned.
\<close>

definition path_dirname :: "string \<Rightarrow> string" where
  "path_dirname raw =
     (if raw = [] then ''.''
      else
        let hasRoot = (hd raw = CHR ''/'');
            r = dropWhile (\<lambda>c. c \<noteq> CHR ''/'') (dropWhile (\<lambda>c. c = CHR ''/'') (rev (tl raw)))
        in if r = [] then (if hasRoot then ''/'' else ''.'')
           else if hasRoot \<and> length r = 1 then ''//''
           else take (length r) raw)"

section \<open>The file system\<close>

text \<open>
  The file system is a tree: a regular file with its content, or a directory with its
  entries in the order they were created. Of an entry name listed twice only the first
  counts. Symbolic links, permissions and devices are not modelled.
\<close>

datatype node = File string | Dir "(string \<times> node) list"

datatype errno = ENOENT | ENOTDIR | EISDIR | EEXIST

fun isDirectory :: "node \<Rightarrow> bool" where
  "isDirectory (Dir es) = True"
| "isDirectory (File c) = False"

fun lookup :: "node \<Rightarrow> path \<Rightarrow> node option" where
  "lookup n [] = Some n"
| "lookup (File c) (x # xs) = None"
| "lookup (Dir es) (x # xs) = (case map_of es x of None \<Rightarrow> None | Some n \<Rightarrow> lookup n xs)"

definition existsSync :: "node \<Rightarrow> path \<Rightarrow> bool" where
  "existsSync root p = (lookup root p \<noteq> None)"

text \<open>\<open>fs.mkdirSync(p, {recursive: true})\<close>: every missing directory on the way is created.\<close>

fun mkdirSync :: "node \<Rightarrow> path \<Rightarrow> errno + node" where
  "mkdirSync (Dir es) [] = Inr (Dir es)"
| "mkdirSync (File c) [] = Inl EEXIST"
| "mkdirSync (File c) (x # xs) = Inl ENOTDIR"
| "mkdirSync (Dir es) (x # xs) =
     (case mkdirSync (case map_of es x of None \<Rightarrow> Dir [] | Some n \<Rightarrow> n) xs of
        Inl e \<Rightarrow> Inl e
      | Inr n' \<Rightarrow> Inr (Dir (AList.update x n' es)))"

text \<open>
  \<open>fs.writeFileSync(p, data)\<close>: the parent must be a directory and \<open>p\<close> must not be one;
  the file is created or overwritten.
\<close>

fun writeFileSync :: "node \<Rightarrow> path \<Rightarrow> string \<Rightarrow> errno + node" where
  "writeFileSync (File old) [] c = Inr (File c)"
| "writeFileSync (Dir es) [] c = Inl EISDIR"
| "writeFileSync (File old) (x # xs) c = Inl ENOTDIR"
| "writeFileSync (Dir es) (x # xs) c =
     (case map_of es x of
        None \<Rightarrow> (if xs = [] then Inr (Dir (AList.update x (File c) es)) else Inl ENOENT)
      | Some n \<Rightarrow>
          (case writeFileSync n xs c of
             Inl e \<Rightarrow> Inl e
           | Inr n' \<Rightarrow> Inr (Dir (AList.update x n' es))))"

definition readFileSync :: "node \<Rightarrow> path \<Rightarrow> errno + string" where
  "readFileSync root p =
     (case lookup root p of
        None \<Rightarrow> Inl ENOENT
      | Some (Dir es) \<Rightarrow> Inl EISDIR
      | Some (File c) \<Rightarrow> Inr c)"

text \<open>
  \<open>fs.readdirSync(p, {withFileTypes: true})\<close>: each entry with its name and whether it
  is a directory.
\<close>

definition readdirSync :: "node \<Rightarrow> path \<Rightarrow> errno + (string \<times> bool) list" where
  "readdirSync root p =
     (case lookup root p of
        None \<Rightarrow> Inl ENOENT
      | Some (File c) \<Rightarrow> Inl ENOTDIR
      | Some (Dir es) \<Rightarrow> Inr (map (\<lambda>e. (fst e, isDirectory (snd e))) (AList.clearjunk es)))"

text \<open>
  \<open>fs.rmSync(p, {recursive: true, force: true})\<close>: the tree at \<open>p\<close> is removed; with
  \<open>force\<close> a path that does not exist is no error. The root itself is never removed.
\<close>

fun rmSync :: "node \<Rightarrow> path \<Rightarrow> node" where
  "rmSync n [] = n"
| "rmSync (File c) (x # xs) = File c"
| "rmSync (Dir es) [x] = Dir (AList.delete x es)"
| "rmSync (Dir es) (x # y # ys) =
     (case map_of es x of
        None \<Rightarrow> Dir es
      | Some n \<Rightarrow> Dir (AList.update x (rmSync n (y # ys)) es))"

section \<open>Errors, console output and the two collaborators\<close>

text \<open>
  What \<open>throw\<close> carries: an \<open>Error\<close> with its message, a system error of \<open>fs\<close> with its
  code and path, the \<open>TypeError\<close> of a path function given \<open>undefined\<close>, and the
  \<open>RangeError\<close> of a call stack that is exhausted.
\<close>

datatype error =
    Error string
  | SystemError errno path
  | TypeError string
  | RangeError

text \<open>The options object handed to \<open>esbuild.build\<close>.\<close>

record build_options =
  entryPoints :: "path list"
  build_bundle :: bool
  build_platform :: string
  build_target :: "string list"
  outfile :: path
  minify :: bool
  sourcemap :: bool

text \<open>
  The trace records what an observer sees, in order: each console line (the pictograms
  that open some messages are left out) and each call of the bundler and of the packager.
\<close>

datatype event =
    ConsoleLog string
  | ConsoleWarn string
  | ConsoleError string
  | ConsoleErrorWith string error
  | EsbuildBuild build_options
  | ExecAsync string

record state =
  fs :: node
  trace :: "event list"

definition emit :: "event \<Rightarrow> state \<Rightarrow> state" where
  "emit e st = st\<lparr>trace := trace st @ [e]\<rparr>"

text \<open>
  The environment of a run: the working directory, \<open>process.platform\<close>, the depth of
  the call stack left to the recursive copy, and the bundler and the packager. The two
  collaborators are not part of the repository: each is an arbitrary function that
  changes the file system and either succeeds or rejects with an error.
\<close>

record env =
  cwd :: path
  process_platform :: string
  stackLimit :: nat
  esbuild_build :: "build_options \<Rightarrow> node \<Rightarrow> error option \<times> node"
  execAsync :: "string \<Rightarrow> node \<Rightarrow> error option \<times> node"

section \<open>Copying directories\<close>

text \<open>
  The \<open>for (const entry of entries)\<close> loop of both copy functions: it applies the body
  to each entry in turn and stops at the first one that throws.
\<close>

fun forEachEntry ::
  "(string \<times> bool \<Rightarrow> node \<Rightarrow> error option \<times> node) \<Rightarrow> (string \<times> bool) list \<Rightarrow> node
     \<Rightarrow> error option \<times> node" where
  "forEachEntry body [] root = (None, root)"
| "forEachEntry body (e # es) root =
     (case body e root of
        (Some err, root') \<Rightarrow> (Some err, root')
      | (None, root') \<Rightarrow> forEachEntry body es root')"

definition ensureDir :: "node \<Rightarrow> path \<Rightarrow> error + node" where
  "ensureDir root p =
     (if \<not> existsSync root p
      then (case mkdirSync root p of Inl e \<Rightarrow> Inl (SystemError e p) | Inr root' \<Rightarrow> Inr root')
      else Inr root)"

text \<open>
  \<open>fs.copyFileSync(src, dst)\<close>: the source is read and the destination written; an
  error names the path it arose at and leaves the file system as it was.
\<close>

definition copyFileSync :: "node \<Rightarrow> path \<Rightarrow> path \<Rightarrow> error option \<times> node" where
  "copyFileSync root src dst =
     (case readFileSync root src of
        Inl e \<Rightarrow> (Some (SystemError e src), root)
      | Inr c \<Rightarrow>
          (case writeFileSync root dst c of
             Inl e \<Rightarrow> (Some (SystemError e dst), root)
           | Inr root' \<Rightarrow> (None, root')))"

text \<open>
  \<open>copyDirectoryRecursive(source, target)\<close>. The first argument is the depth of call
  stack that is left: a call with none left throws \<open>RangeError\<close>, as Node does.
\<close>

fun copyDirectoryRecursive :: "nat \<Rightarrow> path \<Rightarrow> path \<Rightarrow> node \<Rightarrow> error option \<times> node" where
  "copyDirectoryRecursive 0 source target root = (Some RangeError, root)"
| "copyDirectoryRecursive (Suc d) source target root =
     (case ensureDir root target of
        Inl e \<Rightarrow> (Some e, root)
      | Inr root1 \<Rightarrow>
          (case readdirSync root1 source of
             Inl e \<Rightarrow> (Some (SystemError e source), root1)
           | Inr entries \<Rightarrow>
               forEachEntry
                 (\<lambda>entry r.
                    if snd entry
                    then copyDirectoryRecursive d (source @ [fst entry]) (target @ [fst entry]) r
                    else copyFileSync r (source @ [fst entry]) (target @ [fst entry]))
                 entries root1))"

text \<open>
  \<open>copyDirectoryContents(source, target)\<close>: the same body; only its caller differs,
  which passes the shared assets directory as the target.
\<close>

definition copyDirectoryContents :: "nat \<Rightarrow> path \<Rightarrow> path \<Rightarrow> node \<Rightarrow> error option \<times> node" where
  "copyDirectoryContents depth source target root =
     (case depth of
        0 \<Rightarrow> (Some RangeError, root)
      | Suc d \<Rightarrow>
          (case ensureDir root target of
             Inl e \<Rightarrow> (Some e, root)
           | Inr root1 \<Rightarrow>
               (case readdirSync root1 source of
                  Inl e \<Rightarrow> (Some (SystemError e source), root1)
                | Inr entries \<Rightarrow>
                    forEachEntry
                      (\<lambda>entry r.
                         if snd entry
                         then copyDirectoryRecursive d (source @ [fst entry]) (target @ [fst entry]) r
                         else copyFileSync r (source @ [fst entry]) (target @ [fst entry]))
                      entries root1)))"

section \<open>The compile operation\<close>

text \<open>
  The source file holds two revisions of \<open>compile\<close>. The later one is modelled: it
  copies the contents of an asset directory into the shared \<open>assets\<close> directory, keeps
  the flag \<open>hasAssets\<close>, writes the helper in front of the bundle and a README among
  the assets. The check of the entry point, the targets and the wrapping of a single
  asset string are the same lines in both revisions.
\<close>

text \<open>
  \<open>CompileOptions\<close>. An optional field that is left out is \<open>None\<close>, and so is a value
  that is \<open>undefined\<close> at run time: the command line passes \<open>args[++i]\<close> on, which is
  \<open>undefined\<close> when a flag is the last token. \<open>assets\<close> is one string or an array.
\<close>

datatype assets_option = AssetsString string | AssetsArray "string option list"

record compile_options =
  entryPoint :: string
  outFile :: "string option"
  target :: "string option"
  platform :: "string option"
  nodeVersion :: "string option"
  assets :: "assets_option option"

text \<open>How a template literal prints a value that may be \<open>undefined\<close>.\<close>

definition js_string :: "string option \<Rightarrow> string" where
  "js_string v = (case v of None \<Rightarrow> ''undefined'' | Some s \<Rightarrow> s)"

definition defaultPlatform :: "env \<Rightarrow> string" where
  "defaultPlatform env =
     (if process_platform env = ''win32'' then ''win''
      else if process_platform env = ''darwin'' then ''macos''
      else ''linux'')"

text \<open>\<open>Array.prototype.join(',')\<close>.\<close>

fun join_comma :: "string list \<Rightarrow> string" where
  "join_comma [] = []"
| "join_comma [x] = x"
| "join_comma (x # y # ys) = x @ '','' @ join_comma (y # ys)"

definition pkgTargets :: "string \<Rightarrow> string \<Rightarrow> string list" where
  "pkgTargets platformName version =
     (if platformName = ''all''
      then [''node'' @ version @ ''-win-x64'',
            ''node'' @ version @ ''-macos-x64'',
            ''node'' @ version @ ''-linux-x64'']
      else [''node'' @ version @ ''-'' @ platformName @ ''-x64''])"

definition dquote :: string where
  "dquote = [CHR 0x22]"

definition pkgAssetsOption :: "path \<Rightarrow> bool \<Rightarrow> string" where
  "pkgAssetsOption tempDir hasAssets =
     (if hasAssets
      then ''--assets '' @ dquote @ path_string tempDir @ ''/assets/**/*'' @ dquote
      else [])"

definition pkgCommand :: "path \<Rightarrow> string list \<Rightarrow> string \<Rightarrow> string option \<Rightarrow> string" where
  "pkgCommand bundleFile targets assetsOpt out =
     ''npx pkg '' @ path_string bundleFile @ '' --targets '' @ join_comma targets @ '' ''
       @ assetsOpt @ '' --output '' @ js_string out"

text \<open>
  The text of the helper that is written in front of the bundle. Its comments, which
  are not ASCII in the source, are left out; what the text does when it runs is
  \<open>readAsset\<close> below.
\<close>

definition assetHelperCode :: string where
  "assetHelperCode =
     ''\<newline>// Asset helper functions\<newline>'' @
     ''if (!global.__assetAccessInitialized) {\<newline>'' @
     ''  global.__assetAccessInitialized = true;\<newline>'' @
     ''  const fs = require('fs');\<newline>'' @
     ''  const path = require('path');\<newline>'' @
     ''  \<newline>'' @
     ''  global.__readAsset = function(filename) {\<newline>'' @
     ''    try {\<newline>'' @
     ''      const pkgPath = path.join(path.dirname(process.execPath), 'assets', filename);\<newline>'' @
     ''      if (fs.existsSync(pkgPath)) {\<newline>'' @
     ''        return fs.readFileSync(pkgPath, 'utf-8');\<newline>'' @
     ''      }\<newline>'' @
     ''      \<newline>'' @
     ''      const pkgPath2 = path.join(process.cwd(), 'assets', filename);\<newline>'' @
     ''      if (fs.existsSync(pkgPath2)) {\<newline>'' @
     ''        return fs.readFileSync(pkgPath2, 'utf-8');\<newline>'' @
     ''      }\<newline>'' @
     ''      \<newline>'' @
     ''      if (process.pkg) {\<newline>'' @
     ''        const snapshotPath = path.join('/snapshot/assets', filename);\<newline>'' @
     ''        if (fs.existsSync(snapshotPath)) {\<newline>'' @
     ''          return fs.readFileSync(snapshotPath, 'utf-8');\<newline>'' @
     ''        }\<newline>'' @
     ''      }\<newline>'' @
     ''      \<newline>'' @
     ''      const devPath = path.join(__dirname, 'assets', filename);\<newline>'' @
     ''      if (fs.existsSync(devPath)) {\<newline>'' @
     ''        return fs.readFileSync(devPath, 'utf-8');\<newline>'' @
     ''      }\<newline>'' @
     ''      \<newline>'' @
     ''      throw new Error('Asset file not found: ' + filename);\<newline>'' @
     ''    } catch (error) {\<newline>'' @
     ''      console.error('Error reading asset file ' + filename + ':', error);\<newline>'' @
     ''      throw error;\<newline>'' @
     ''    }\<newline>'' @
     ''  };\<newline>'' @
     ''}\<newline>''"

definition readmeText :: string where
  "readmeText = ''This directory contains assets for the application.''"

definition tempDirOf :: "env \<Rightarrow> path" where
  "tempDirOf env = cwd env @ [''.ts-compiler-bin-temp'']"

definition bundleFileOf :: "env \<Rightarrow> path" where
  "bundleFileOf env = tempDirOf env @ [''bundle.js'']"

definition tempAssetsDirOf :: "env \<Rightarrow> path" where
  "tempAssetsDirOf env = tempDirOf env @ [''assets'']"

text \<open>
  The loop \<open>for (const asset of assetsArray)\<close> with the flag \<open>hasAssets\<close>.
  \<open>existsSync\<close> and \<open>statSync\<close> read the same node: a path that is not there is
  skipped with a warning, a directory has its contents copied into the shared
  directory, a file is copied under its base name.
\<close>

fun copyAssets :: "env \<Rightarrow> path \<Rightarrow> string option list \<Rightarrow> bool \<Rightarrow> state \<Rightarrow> (error + bool) \<times> state" where
  "copyAssets env tempAssetsDir [] hasAssets st = (Inr hasAssets, st)"
| "copyAssets env tempAssetsDir (asset # rest) hasAssets st =
     (case asset of
        None \<Rightarrow> (Inl (TypeError ''The paths[0] argument must be of type string''), st)
      | Some a \<Rightarrow>
          let assetPath = path_resolve (cwd env) a;
              st1 = emit (ConsoleLog (''Copying asset: '' @ path_string assetPath)) st
          in (case lookup (fs st1) assetPath of
                None \<Rightarrow>
                  copyAssets env tempAssetsDir rest hasAssets
                    (emit (ConsoleWarn (''Warning: Asset not found: '' @ path_string assetPath)) st1)
              | Some assetStat \<Rightarrow>
                  if isDirectory assetStat
                  then (case copyDirectoryContents (stackLimit env) assetPath tempAssetsDir (fs st1) of
                          (Some e, root') \<Rightarrow> (Inl e, st1\<lparr>fs := root'\<rparr>)
                        | (None, root') \<Rightarrow>
                            copyAssets env tempAssetsDir rest True
                              (emit (ConsoleLog (''Directory contents copied: '' @ path_string assetPath
                                      @ '' -> '' @ path_string tempAssetsDir))
                                 (st1\<lparr>fs := root'\<rparr>)))
                  else
                    let targetFile =
                          (if assetPath = [] then tempAssetsDir
                           else tempAssetsDir @ [path_basename assetPath])
                    in (case copyFileSync (fs st1) assetPath targetFile of
                          (Some e, root') \<Rightarrow> (Inl e, st1\<lparr>fs := root'\<rparr>)
                        | (None, root') \<Rightarrow>
                            copyAssets env tempAssetsDir rest True
                              (emit (ConsoleLog (''File copied: '' @ path_string assetPath
                                      @ '' -> '' @ path_string targetFile))
                                 (st1\<lparr>fs := root'\<rparr>)))))"

text \<open>The helper is written in front of what the bundle file holds.\<close>

definition injectHelper :: "path \<Rightarrow> state \<Rightarrow> (error + unit) \<times> state" where
  "injectHelper bundleFile st =
     (let st1 = emit (ConsoleLog ''Adding asset helper code to bundle...'') st
      in case readFileSync (fs st1) bundleFile of
           Inl e \<Rightarrow> (Inl (SystemError e bundleFile), st1)
         | Inr bundleContent \<Rightarrow>
             (case writeFileSync (fs st1) bundleFile (assetHelperCode @ bundleContent) of
                Inl e \<Rightarrow> (Inl (SystemError e bundleFile), st1)
              | Inr root' \<Rightarrow>
                  (Inr (), emit (ConsoleLog ''Asset helper code added to bundle'') (st1\<lparr>fs := root'\<rparr>))))"

text \<open>Step 2 of \<open>compile\<close>: copy the assets, if any are listed. It returns \<open>hasAssets\<close>.\<close>

definition stageAssets :: "env \<Rightarrow> string option list \<Rightarrow> state \<Rightarrow> (error + bool) \<times> state" where
  "stageAssets env assetsArray st =
     (if assetsArray \<noteq> []
      then
        let st1 = emit (ConsoleLog ''Copying assets...'') st
        in (case ensureDir (fs st1) (tempAssetsDirOf env) of
              Inl e \<Rightarrow> (Inl e, st1)
            | Inr root1 \<Rightarrow>
                (case copyAssets env (tempAssetsDirOf env) assetsArray False (st1\<lparr>fs := root1\<rparr>) of
                   (Inl e, st2) \<Rightarrow> (Inl e, st2)
                 | (Inr hasAssets, st2) \<Rightarrow>
                     (case (if hasAssets then injectHelper (bundleFileOf env) st2 else (Inr (), st2)) of
                        (Inl e, st3) \<Rightarrow> (Inl e, st3)
                      | (Inr u, st3) \<Rightarrow>
                          (Inr hasAssets, emit (ConsoleLog ''Assets copying complete'') st3))))
      else (Inr False, st))"

text \<open>
  The directory beside the output binary: \<open>path.join(path.dirname(outFile), 'assets')\<close>,
  which \<open>fs\<close> then reads from the working directory. \<open>path.dirname(undefined)\<close> throws.
\<close>

definition exeAssetsDirOf :: "env \<Rightarrow> string option \<Rightarrow> error + path" where
  "exeAssetsDirOf env out =
     (case out of
        None \<Rightarrow> Inl (TypeError ''The path argument must be of type string'')
      | Some f \<Rightarrow> Inr (path_resolve (cwd env) (path_dirname f @ ''/assets'')))"

text \<open>
  The body of the \<open>try\<close> block of step 3: run the packager, then, when assets were
  staged, copy them beside the output binary.
\<close>

definition runPackager :: "env \<Rightarrow> string \<Rightarrow> string option \<Rightarrow> bool \<Rightarrow> state \<Rightarrow> (error + unit) \<times> state" where
  "runPackager env command out hasAssets st =
     (let st1 = emit (ExecAsync command) (emit (ConsoleLog (''Executing pkg command: '' @ command)) st)
      in case execAsync env command (fs st1) of
           (Some e, root') \<Rightarrow> (Inl e, st1\<lparr>fs := root'\<rparr>)
         | (None, root') \<Rightarrow>
             let st2 = emit (ConsoleLog (''Executable created successfully: '' @ js_string out))
                         (st1\<lparr>fs := root'\<rparr>)
             in if hasAssets
                then (case exeAssetsDirOf env out of
                        Inl e \<Rightarrow> (Inl e, st2)
                      | Inr exeAssetsDir \<Rightarrow>
                          (case ensureDir (fs st2) exeAssetsDir of
                             Inl e \<Rightarrow> (Inl e, st2)
                           | Inr root2 \<Rightarrow>
                               (case copyDirectoryContents (stackLimit env) (tempAssetsDirOf env)
                                       exeAssetsDir root2 of
                                  (Some e, root3) \<Rightarrow> (Inl e, st2\<lparr>fs := root3\<rparr>)
                                | (None, root3) \<Rightarrow>
                                    (Inr (), emit (ConsoleLog (''Assets copied to executable directory: ''
                                                     @ path_string exeAssetsDir))
                                               (st2\<lparr>fs := root3\<rparr>)))))
                else (Inr (), st2))"

text \<open>
  Step 3 of \<open>compile\<close>: the targets, the README of the staged assets, then
  \<open>try\<close> / \<open>catch\<close> / \<open>finally\<close> around the packager. The \<open>catch\<close> logs and rethrows,
  the \<open>finally\<close> removes the staging directory.
\<close>

definition readmePathOf :: "env \<Rightarrow> path" where
  "readmePathOf env = tempDirOf env @ [''assets'', ''README.md'']"

definition writeReadme :: "env \<Rightarrow> bool \<Rightarrow> state \<Rightarrow> error + state" where
  "writeReadme env hasAssets st =
     (if hasAssets
      then (case writeFileSync (fs st) (readmePathOf env) readmeText of
              Inl e \<Rightarrow> Inl (SystemError e (readmePathOf env))
            | Inr root' \<Rightarrow> Inr (st\<lparr>fs := root'\<rparr>))
      else Inr st)"

definition package :: "env \<Rightarrow> string \<Rightarrow> string \<Rightarrow> string option \<Rightarrow> bool \<Rightarrow> state \<Rightarrow> (error + unit) \<times> state" where
  "package env platformName version out hasAssets st =
     (let st0 = emit (ConsoleLog ''Creating executable binary...'') st;
          command = pkgCommand (bundleFileOf env) (pkgTargets platformName version)
                      (pkgAssetsOption (tempDirOf env) hasAssets) out
      in case writeReadme env hasAssets st0 of
           Inl e \<Rightarrow> (Inl e, st0)
         | Inr st1 \<Rightarrow>
             (case runPackager env command out hasAssets st1 of
                (Inl e, st2) \<Rightarrow>
                  let st3 = emit (ConsoleErrorWith ''Error creating executable:'' e) st2
                  in (Inl e, st3\<lparr>fs := rmSync (fs st3) (tempDirOf env)\<rparr>)
              | (Inr u, st2) \<Rightarrow> (Inr (), st2\<lparr>fs := rmSync (fs st2) (tempDirOf env)\<rparr>)))"

text \<open>Step 1 of \<open>compile\<close>: the staging directory and the bundler.\<close>

definition runBundler :: "env \<Rightarrow> path \<Rightarrow> string \<Rightarrow> state \<Rightarrow> (error + unit) \<times> state" where
  "runBundler env entryPointPath version st =
     (let st1 = emit (ConsoleLog (''Bundle file: '' @ path_string (bundleFileOf env)))
                  (emit (ConsoleLog (''Temp directory: '' @ path_string (tempDirOf env))) st)
      in case ensureDir (fs st1) (tempDirOf env) of
           Inl e \<Rightarrow> (Inl e, st1)
         | Inr root1 \<Rightarrow>
             let options = \<lparr>entryPoints = [entryPointPath], build_bundle = True,
                            build_platform = ''node'', build_target = [''node'' @ version],
                            outfile = bundleFileOf env, minify = True, sourcemap = False\<rparr>;
                 st2 = emit (EsbuildBuild options) (st1\<lparr>fs := root1\<rparr>)
             in (case esbuild_build env options (fs st2) of
                   (Some e, root2) \<Rightarrow>
                     (Inl e, emit (ConsoleErrorWith ''Error bundling with esbuild:'' e) (st2\<lparr>fs := root2\<rparr>))
                 | (None, root2) \<Rightarrow>
                     (Inr (), emit (ConsoleLog ''TypeScript bundling complete'') (st2\<lparr>fs := root2\<rparr>))))"

text \<open>
  The destructuring at the head of \<open>compile\<close>: \<open>platform\<close> defaults to the platform
  of the running process, \<open>nodeVersion\<close> to \<open>16\<close>, \<open>assets\<close> to the empty array; and
  \<open>assetsArray\<close> wraps a single string into an array.
\<close>

definition platformOf :: "env \<Rightarrow> compile_options \<Rightarrow> string" where
  "platformOf env options = (case platform options of None \<Rightarrow> defaultPlatform env | Some p \<Rightarrow> p)"

definition versionOf :: "compile_options \<Rightarrow> string" where
  "versionOf options = (case nodeVersion options of None \<Rightarrow> ''16'' | Some v \<Rightarrow> v)"

definition assetsArrayOf :: "compile_options \<Rightarrow> string option list" where
  "assetsArrayOf options =
     (case (case assets options of None \<Rightarrow> AssetsArray [] | Some a \<Rightarrow> a) of
        AssetsString s \<Rightarrow> [Some s]
      | AssetsArray xs \<Rightarrow> xs)"

definition entryPointPathOf :: "env \<Rightarrow> compile_options \<Rightarrow> path" where
  "entryPointPathOf env options = path_resolve (cwd env) (entryPoint options)"

definition logEntry :: "env \<Rightarrow> compile_options \<Rightarrow> state \<Rightarrow> state" where
  "logEntry env options st =
     emit (ConsoleLog (''Entry point (resolved): '' @ path_string (entryPointPathOf env options)))
       (emit (ConsoleLog (''Entry point (raw): '' @ entryPoint options))
          (emit (ConsoleLog (''Current working directory: '' @ path_string (cwd env)))
             (emit (ConsoleLog ''Bundling TypeScript code...'') st)))"

definition compile :: "env \<Rightarrow> compile_options \<Rightarrow> state \<Rightarrow> (error + unit) \<times> state" where
  "compile env options st =
     (let st1 = logEntry env options st
      in if \<not> existsSync (fs st1) (entryPointPathOf env options)
         then (Inl (Error (''File not found: '' @ path_string (entryPointPathOf env options))),
               emit (ConsoleError (''Error: File not found: '' @ path_string (entryPointPathOf env options))) st1)
         else
           (case runBundler env (entryPointPathOf env options) (versionOf options) st1 of
              (Inl e, st2) \<Rightarrow> (Inl e, st2)
            | (Inr u, st2) \<Rightarrow>
                (case stageAssets env (assetsArrayOf options) st2 of
                   (Inl e, st3) \<Rightarrow> (Inl e, st3)
                 | (Inr hasAssets, st3) \<Rightarrow>
                     package env (platformOf env options) (versionOf options) (outFile options)
                       hasAssets st3)))"

section \<open>The command line\<close>

definition usageText :: string where
  "usageText =
     ''\<newline>ts-compiler-bin - A lightweight tool that compiles TypeScript into a single executable binary\<newline>'' @
     ''\<newline>Usage:\<newline>'' @
     ''  ts-compiler-bin [options] <entry-file>\<newline>'' @
     ''\<newline>Options:\<newline>'' @
     ''  --out, -o     Output file name (default: '' @ dquote @ ''output'' @ dquote @ '')\<newline>'' @
     ''  --target, -t  Node.js target version (default: '' @ dquote @ ''16'' @ dquote @ '')\<newline>'' @
     ''  --platform, -p Target platform: win, macos, linux, alpine, all (default: current platform)\<newline>'' @
     ''  --assets, -a  Assets to include (can be specified multiple times)\<newline>'' @
     ''  --help, -h    Show this help message\<newline>'' @
     ''\<newline>Example:\<newline>'' @
     ''  ts-compiler-bin -o my-app -a assets src/index.ts\<newline>''"

text \<open>The variables that the argument loop of \<open>main\<close> assigns.\<close>

record cli =
  cli_entryPoint :: string
  cli_outFile :: "string option"
  cli_target :: "string option"
  cli_platform :: "string option"
  cli_assets :: "string option list"

text \<open>\<open>args[++i]\<close>: the next token, \<open>undefined\<close> past the end.\<close>

definition nextArg :: "string list \<Rightarrow> string option" where
  "nextArg rest = (case rest of [] \<Rightarrow> None | v # vs \<Rightarrow> Some v)"

definition startsWithDash :: "string \<Rightarrow> bool" where
  "startsWithDash arg = (arg \<noteq> [] \<and> hd arg = CHR ''-'')"

fun parseArgs :: "string list \<Rightarrow> cli \<Rightarrow> cli" where
  "parseArgs [] c = c"
| "parseArgs (arg # rest) c =
     (if arg = ''--out'' \<or> arg = ''-o''
      then parseArgs (tl rest) (c\<lparr>cli_outFile := nextArg rest\<rparr>)
      else if arg = ''--target'' \<or> arg = ''-t''
      then parseArgs (tl rest) (c\<lparr>cli_target := nextArg rest\<rparr>)
      else if arg = ''--platform'' \<or> arg = ''-p''
      then parseArgs (tl rest) (c\<lparr>cli_platform := nextArg rest\<rparr>)
      else if arg = ''--assets'' \<or> arg = ''-a''
      then parseArgs (tl rest) (c\<lparr>cli_assets := cli_assets c @ [nextArg rest]\<rparr>)
      else if \<not> startsWithDash arg
      then parseArgs rest (c\<lparr>cli_entryPoint := arg\<rparr>)
      else parseArgs rest c)"

definition initialCli :: "env \<Rightarrow> cli" where
  "initialCli env =
     \<lparr>cli_entryPoint = [], cli_outFile = Some ''output'', cli_target = Some ''16'',
      cli_platform = Some (defaultPlatform env), cli_assets = []\<rparr>"

text \<open>The options that \<open>main\<close> hands to \<open>compile\<close>.\<close>

definition cliOptions :: "env \<Rightarrow> cli \<Rightarrow> compile_options" where
  "cliOptions env c =
     \<lparr>entryPoint = path_string (path_resolve (cwd env) (cli_entryPoint c)),
      outFile = cli_outFile c,
      target = Some (''node'' @ js_string (cli_target c)),
      platform = cli_platform c,
      nodeVersion = cli_target c,
      assets = Some (AssetsArray (cli_assets c))\<rparr>"

definition logStart :: "string list \<Rightarrow> state \<Rightarrow> state" where
  "logStart args st =
     emit (ConsoleLog (''Arguments: '' @ join_comma args))
       (emit (ConsoleLog ''Starting main function...'') st)"

definition logParsed :: "cli \<Rightarrow> state \<Rightarrow> state" where
  "logParsed c st =
     emit (ConsoleLog (''- assets: '' @ join_comma (map js_string (cli_assets c))))
       (emit (ConsoleLog (''- platform: '' @ js_string (cli_platform c)))
         (emit (ConsoleLog (''- target: '' @ js_string (cli_target c)))
           (emit (ConsoleLog (''- outFile: '' @ js_string (cli_outFile c)))
             (emit (ConsoleLog (''- entryPoint: '' @ cli_entryPoint c))
               (emit (ConsoleLog ''Parsed arguments:'') st)))))"

text \<open>
  \<open>main\<close>, with the exit code of the process: \<open>process.exit(1)\<close> ends it with 1, and a
  \<open>main\<close> that returns lets it end with 0.
\<close>

definition main :: "env \<Rightarrow> string list \<Rightarrow> state \<Rightarrow> nat \<times> state" where
  "main env args st =
     (let st1 = logStart args st
      in if args = [] \<or> ''--help'' \<in> set args \<or> ''-h'' \<in> set args
         then (0, emit (ConsoleLog usageText) st1)
         else
           let c = parseArgs args (initialCli env);
               st2 = logParsed c st1
           in if cli_entryPoint c = []
              then (1, emit (ConsoleError ''Error: Entry point is required'') st2)
              else
                let st3 = emit (ConsoleLog (''Absolute entry point: ''
                                  @ path_string (path_resolve (cwd env) (cli_entryPoint c)))) st2
                in (case compile env (cliOptions env c) st3 of
                      (Inl e, st4) \<Rightarrow> (1, emit (ConsoleErrorWith ''Compilation failed:'' e) st4)
                    | (Inr u, st4) \<Rightarrow> (0, st4)))"

section \<open>The injected lookup helper\<close>

text \<open>
  What the program that runs the bundle gives the helper: \<open>process.execPath\<close>,
  \<open>process.cwd()\<close>, whether \<open>process.pkg\<close> is set, and \<open>__dirname\<close>.
\<close>

record runtime =
  execPath :: path
  rt_cwd :: path
  rt_pkg :: bool
  rt_dirname :: path

definition readUtf8 :: "node \<Rightarrow> path \<Rightarrow> error + string" where
  "readUtf8 root p =
     (case readFileSync root p of Inl e \<Rightarrow> Inl (SystemError e p) | Inr c \<Rightarrow> Inr c)"

text \<open>The body of the \<open>try\<close> block of \<open>__readAsset\<close>.\<close>

definition readAssetBody :: "runtime \<Rightarrow> node \<Rightarrow> string \<Rightarrow> error + string" where
  "readAssetBody rt root filename =
     (let pkgPath = path_join (butlast (execPath rt) @ [''assets'']) filename
      in if existsSync root pkgPath then readUtf8 root pkgPath
         else
           let pkgPath2 = path_join (rt_cwd rt @ [''assets'']) filename
           in if existsSync root pkgPath2 then readUtf8 root pkgPath2
              else if rt_pkg rt \<and> existsSync root (path_join [''snapshot'', ''assets''] filename)
              then readUtf8 root (path_join [''snapshot'', ''assets''] filename)
              else
                let devPath = path_join (rt_dirname rt @ [''assets'']) filename
                in if existsSync root devPath then readUtf8 root devPath
                   else Inl (Error (''Asset file not found: '' @ filename)))"

text \<open>\<open>__readAsset(filename)\<close>: the \<open>catch\<close> logs the error and throws it again.\<close>

definition readAsset :: "runtime \<Rightarrow> node \<Rightarrow> string \<Rightarrow> (error + string) \<times> event list" where
  "readAsset rt root filename =
     (case readAssetBody rt root filename of
        Inl e \<Rightarrow> (Inl e, [ConsoleErrorWith (''Error reading asset file '' @ filename @ '':'') e])
      | Inr c \<Rightarrow> (Inr c, []))"

section \<open>What a path shows\<close>

text \<open>
  What \<open>statSync\<close> and \<open>readFileSync\<close> can tell of a path: a file with its content,
  or a directory. It does not depend on the order of the entries.
\<close>

datatype kind = IsFile string | IsDir

fun kindOf :: "node \<Rightarrow> kind" where
  "kindOf (File c) = IsFile c"
| "kindOf (Dir es) = IsDir"

definition statAt :: "node \<Rightarrow> path \<Rightarrow> kind option" where
  "statAt root p = map_option kindOf (lookup root p)"

section \<open>Observations on a trace\<close>

text \<open>The commands handed to the packager, and the calls of either collaborator.\<close>

fun execCommands :: "event list \<Rightarrow> string list" where
  "execCommands [] = []"
| "execCommands (ExecAsync command # evs) = command # execCommands evs"
| "execCommands (e # evs) = execCommands evs"

fun isInvocation :: "event \<Rightarrow> bool" where
  "isInvocation (EsbuildBuild options) = True"
| "isInvocation (ExecAsync command) = True"
| "isInvocation e = False"

definition invocations :: "event list \<Rightarrow> nat" where
  "invocations evs = length (filter isInvocation evs)"

section \<open>A small project, for concrete runs\<close>

text \<open>
  A working directory \<open>/work\<close> with an entry file, one asset file and one asset
  directory; a bundler that writes the bundle, and a packager that leaves the file
  system alone and either succeeds or fails.
\<close>

definition exampleRoot :: node where
  "exampleRoot =
     Dir [(''work'',
           Dir [(''main.ts'', File ''console.log(1)''),
                (''config.json'', File ''{}''),
                (''images'', Dir [(''a.png'', File ''PNG'')])])]"

definition exampleState :: state where
  "exampleState = \<lparr>fs = exampleRoot, trace = []\<rparr>"

definition exampleBundler :: "build_options \<Rightarrow> node \<Rightarrow> error option \<times> node" where
  "exampleBundler options root =
     (case writeFileSync root (outfile options) ''main()'' of
        Inl e \<Rightarrow> (Some (SystemError e (outfile options)), root)
      | Inr root' \<Rightarrow> (None, root'))"

definition exampleEnv :: env where
  "exampleEnv =
     \<lparr>cwd = [''work''], process_platform = ''linux'', stackLimit = 16,
      esbuild_build = exampleBundler,
      execAsync = (\<lambda>command root. (None, root))\<rparr>"

definition failingEnv :: env where
  "failingEnv = exampleEnv\<lparr>execAsync := (\<lambda>command root. (Some (Error ''pkg failed''), root))\<rparr>"

definition exampleOptions :: compile_options where
  "exampleOptions =
     \<lparr>entryPoint = ''main.ts'', outFile = Some ''out'', target = None, platform = Some ''linux'',
      nodeVersion = None, assets = None\<rparr>"

text \<open>Options that list two assets, neither of which exists.\<close>

definition missingOptions :: compile_options where
  "missingOptions = exampleOptions\<lparr>assets := Some (AssetsArray [Some ''nothing'', Some ''none''])\<rparr>"

text \<open>The small project after the bundler has run.\<close>

definition bundledState :: state where
  "bundledState =
     \<lparr>fs = Dir [(''work'',
                 Dir [(''main.ts'', File ''console.log(1)''),
                      (''config.json'', File ''{}''),
                      (''images'', Dir [(''a.png'', File ''PNG'')]),
                      (''.ts-compiler-bin-temp'', Dir [(''bundle.js'', File ''main()'')])])],
      trace = []\<rparr>"

text \<open>
  A project in which the file \<open>data\<close> and a directory inside \<open>d\<close> share a name, with
  the bundle already written.
\<close>

definition collisionState :: state where
  "collisionState =
     \<lparr>fs = Dir [(''work'',
                 Dir [(''main.ts'', File ''console.log(1)''),
                      (''data'', File ''A''),
                      (''d'', Dir [(''data'', Dir [])]),
                      (''.ts-compiler-bin-temp'', Dir [(''bundle.js'', File ''main()'')])])],
      trace = []\<rparr>"

text \<open>
  A project whose directory \<open>docs\<close> holds a subdirectory named \<open>README.md\<close>.
\<close>

definition readmeDirState :: state where
  "readmeDirState =
     \<lparr>fs = Dir [(''work'',
                 Dir [(''main.ts'', File ''console.log(1)''),
                      (''docs'', Dir [(''guide.txt'', File ''read me''),
                                      (''README.md'', Dir [])])])],
      trace = []\<rparr>"

text \<open>The same project with a file of the user's under that name.\<close>

definition docsState :: state where
  "docsState =
     \<lparr>fs = Dir [(''work'',
                 Dir [(''main.ts'', File ''console.log(1)''),
                      (''docs'', Dir [(''guide.txt'', File ''read me''),
                                      (''README.md'', File ''my own notes'')])])],
      trace = []\<rparr>"

text \<open>Options that give the directory \<open>docs\<close> as the one asset.\<close>

definition docsOptions :: compile_options where
  "docsOptions = exampleOptions\<lparr>assets := Some (AssetsString ''docs'')\<rparr>"

section \<open>The lookup order of the helper, stated twice\<close>

text \<open>
  The candidates as the specification lists them: beside the executable, under the
  working directory, the snapshot path of the packaging runtime, beside the bundle
  source.
\<close>

definition specCandidates :: "runtime \<Rightarrow> string \<Rightarrow> path list" where
  "specCandidates rt filename =
     [path_join (butlast (execPath rt) @ [''assets'']) filename,
      path_join (rt_cwd rt @ [''assets'']) filename,
      path_join [''snapshot'', ''assets''] filename,
      path_join (rt_dirname rt @ [''assets'']) filename]"

text \<open>
  The candidates as the helper tries them: the snapshot path is one of them only when
  \<open>process.pkg\<close> is set.
\<close>

definition assetCandidates :: "runtime \<Rightarrow> string \<Rightarrow> path list" where
  "assetCandidates rt filename =
     [path_join (butlast (execPath rt) @ [''assets'']) filename,
      path_join (rt_cwd rt @ [''assets'']) filename]
     @ (if rt_pkg rt then [path_join [''snapshot'', ''assets''] filename] else [])
     @ [path_join (rt_dirname rt @ [''assets'']) filename]"

text \<open>
  The first candidate that exists is read; when none exists the lookup fails with an
  error that names the file.
\<close>

definition firstExisting :: "node \<Rightarrow> path list \<Rightarrow> string \<Rightarrow> error + string" where
  "firstExisting root candidates filename =
     (case find (existsSync root) candidates of
        None \<Rightarrow> Inl (Error (''Asset file not found: '' @ filename))
      | Some p \<Rightarrow> readUtf8 root p)"

text \<open>
  A program that runs outside the packaging runtime, on a file system where the file
  is both under the snapshot path and beside the bundle source.
\<close>

definition helperRuntime :: runtime where
  "helperRuntime =
     \<lparr>execPath = [''opt'', ''app'', ''tool''], rt_cwd = [''home''], rt_pkg = False,
      rt_dirname = [''src'']\<rparr>"

definition helperRoot :: node where
  "helperRoot =
     Dir [(''snapshot'', Dir [(''assets'', Dir [(''f.txt'', File ''from snapshot'')])]),
          (''src'', Dir [(''assets'', Dir [(''f.txt'', File ''from dev'')])])]"

section \<open>Basic facts\<close>

lemma fs_emit [simp]: "fs (emit e st) = fs st"
  by (simp add: emit_def)

lemma trace_emit [simp]: "trace (emit e st) = trace st @ [e]"
  by (simp add: emit_def)

lemma fs_logEntry [simp]: "fs (logEntry env options st) = fs st"
  by (simp add: logEntry_def)

lemma trace_logEntry:
  "trace (logEntry env options st)
     = trace st @ [ConsoleLog ''Bundling TypeScript code...'',
                   ConsoleLog (''Current working directory: '' @ path_string (cwd env)),
                   ConsoleLog (''Entry point (raw): '' @ entryPoint options),
                   ConsoleLog (''Entry point (resolved): '' @ path_string (entryPointPathOf env options))]"
  by (simp add: logEntry_def)

lemma execCommands_append [simp]: "execCommands (xs @ ys) = execCommands xs @ execCommands ys"
  by (induction xs rule: execCommands.induct) simp_all

lemma invocations_append [simp]: "invocations (xs @ ys) = invocations xs + invocations ys"
  by (simp add: invocations_def)

lemma invocations_Nil [simp]: "invocations [] = 0"
  by (simp add: invocations_def)

lemma invocations_Cons [simp]:
  "invocations (e # evs) = (if isInvocation e then 1 else 0) + invocations evs"
  by (simp add: invocations_def)

text \<open>The four ways through \<open>compile\<close>.\<close>

lemma compile_cases [case_names Missing BundlerFailed StagingFailed Packaged]:
  obtains
    (Missing) "\<not> existsSync (fs st) (entryPointPathOf env options)"
      "compile env options st
         = (Inl (Error (''File not found: '' @ path_string (entryPointPathOf env options))),
            emit (ConsoleError (''Error: File not found: '' @ path_string (entryPointPathOf env options)))
              (logEntry env options st))"
  | (BundlerFailed) e st2 where
      "existsSync (fs st) (entryPointPathOf env options)"
      "runBundler env (entryPointPathOf env options) (versionOf options) (logEntry env options st) = (Inl e, st2)"
      "compile env options st = (Inl e, st2)"
  | (StagingFailed) st2 e st3 where
      "existsSync (fs st) (entryPointPathOf env options)"
      "runBundler env (entryPointPathOf env options) (versionOf options) (logEntry env options st) = (Inr (), st2)"
      "stageAssets env (assetsArrayOf options) st2 = (Inl e, st3)"
      "compile env options st = (Inl e, st3)"
  | (Packaged) st2 hasAssets st3 where
      "existsSync (fs st) (entryPointPathOf env options)"
      "runBundler env (entryPointPathOf env options) (versionOf options) (logEntry env options st) = (Inr (), st2)"
      "stageAssets env (assetsArrayOf options) st2 = (Inr hasAssets, st3)"
      "compile env options st
         = package env (platformOf env options) (versionOf options) (outFile options) hasAssets st3"
proof (cases "existsSync (fs st) (entryPointPathOf env options)")
  case False
  then show ?thesis by (intro Missing) (simp_all add: compile_def Let_def)
next
  case True
  obtain r2 st2 where b:
    "runBundler env (entryPointPathOf env options) (versionOf options) (logEntry env options st) = (r2, st2)"
    by (cases "runBundler env (entryPointPathOf env options) (versionOf options) (logEntry env options st)")
  show ?thesis
  proof (cases r2)
    case (Inl e)
    with True b show ?thesis by (intro BundlerFailed [of e st2]) (simp_all add: compile_def Let_def)
  next
    case (Inr u)
    obtain r3 st3 where s: "stageAssets env (assetsArrayOf options) st2 = (r3, st3)"
      by (cases "stageAssets env (assetsArrayOf options) st2")
    show ?thesis
    proof (cases r3)
      case (Inl e)
      with True b Inr s show ?thesis
        by (intro StagingFailed [of st2 e st3]) (simp_all add: compile_def Let_def)
    next
      case (Inr h)
      with True b \<open>r2 = Inr u\<close> s show ?thesis
        by (intro Packaged [of st2 h st3]) (simp_all add: compile_def Let_def)
    qed
  qed
qed

section \<open>The file-system primitives, path by path\<close>

lemma statAt_Nil [simp]: "statAt root [] = Some (kindOf root)"
  by (simp add: statAt_def)

lemma statAt_File_Cons [simp]: "statAt (File c) (x # xs) = None"
  by (simp add: statAt_def)

lemma statAt_Dir_Cons:
  "statAt (Dir es) (x # xs) = (case map_of es x of None \<Rightarrow> None | Some n \<Rightarrow> statAt n xs)"
  by (simp add: statAt_def split: option.splits)

lemma statAt_update_Cons [simp]:
  "statAt (Dir (AList.update x n es)) (y # ys)
     = (if y = x then statAt n ys else statAt (Dir es) (y # ys))"
  by (simp add: statAt_Dir_Cons AList.update_conv')

lemma statAt_Dir_Nil_Cons [simp]: "statAt (Dir []) (x # xs) = None"
  by (simp add: statAt_Dir_Cons)

lemma lookup_append:
  "lookup root (p @ q) = (case lookup root p of None \<Rightarrow> None | Some n \<Rightarrow> lookup n q)"
  by (induction root p rule: lookup.induct) (simp_all split: option.splits)

lemma statAt_append:
  "statAt root (p @ q) = (case lookup root p of None \<Rightarrow> None | Some n \<Rightarrow> statAt n q)"
  by (simp add: statAt_def lookup_append split: option.splits)

lemma existsSync_statAt: "existsSync root p \<longleftrightarrow> statAt root p \<noteq> None"
  by (simp add: existsSync_def statAt_def)

lemma readFileSync_statAt:
  "readFileSync root p
     = (case statAt root p of None \<Rightarrow> Inl ENOENT | Some IsDir \<Rightarrow> Inl EISDIR | Some (IsFile c) \<Rightarrow> Inr c)"
  by (simp add: readFileSync_def statAt_def split: option.splits node.splits)

text \<open>A path below a file, or below nothing, is nothing.\<close>

lemma statAt_below:
  assumes "statAt root p \<noteq> Some IsDir" and "q \<noteq> []"
  shows "statAt root (p @ q) = None"
proof (cases "lookup root p")
  case None
  then show ?thesis by (simp add: statAt_append)
next
  case (Some n)
  with assms(1) obtain c where "n = File c"
    by (cases n) (simp_all add: statAt_def)
  with Some assms(2) show ?thesis
    by (cases q) (simp_all add: statAt_append)
qed

lemma statAt_prefix_dir:
  assumes "statAt root (p @ q) \<noteq> None" and "q \<noteq> []"
  shows "statAt root p = Some IsDir"
proof (rule ccontr)
  assume "statAt root p \<noteq> Some IsDir"
  from statAt_below [OF this assms(2)] assms(1) show False by simp
qed

lemma writeFileSync_statAt:
  "writeFileSync root q c = Inr root'
     \<Longrightarrow> statAt root' p = (if p = q then Some (IsFile c) else statAt root p)"
proof (induction root q c arbitrary: root' p rule: writeFileSync.induct)
  case (1 old c)
  then show ?case by (cases p) auto
next
  case (2 es c)
  then show ?case by simp
next
  case (3 old x xs c)
  then show ?case by simp
next
  case (4 es x xs c)
  show ?case
  proof (cases "map_of es x")
    case None
    with "4.prems" have xs: "xs = []" and r: "root' = Dir (AList.update x (File c) es)"
      by (auto split: if_splits)
    show ?thesis
    proof (cases p)
      case Nil
      then show ?thesis using r by simp
    next
      case (Cons y ys)
      then show ?thesis using r xs None
        by (cases ys) (auto simp: statAt_Dir_Cons AList.update_conv')
    qed
  next
    case (Some n)
    with "4.prems" obtain n' where w: "writeFileSync n xs c = Inr n'"
      and r: "root' = Dir (AList.update x n' es)"
      by (auto split: sum.splits)
    show ?thesis
    proof (cases p)
      case Nil
      then show ?thesis using r by simp
    next
      case (Cons y ys)
      then show ?thesis using r Some "4.IH" [OF Some w, of ys]
        by (auto simp: statAt_Dir_Cons AList.update_conv')
    qed
  qed
qed

lemma writeFileSync_succeeds:
  assumes "q \<noteq> []" and "statAt root (butlast q) = Some IsDir" and "statAt root q \<noteq> Some IsDir"
  shows "\<exists>root'. writeFileSync root q c = Inr root'"
  using assms
proof (induction root q c rule: writeFileSync.induct)
  case (4 es x xs c)
  show ?case
  proof (cases "map_of es x")
    case None
    with "4.prems" show ?thesis
      by (cases xs) (auto simp: statAt_Dir_Cons)
  next
    case (Some n)
    show ?thesis
    proof (cases xs)
      case Nil
      with "4.prems" Some obtain old where "n = File old"
        by (cases n) (auto simp: statAt_Dir_Cons)
      with Some Nil show ?thesis by simp
    next
      case (Cons y ys)
      with "4.prems" Some have "\<exists>n'. writeFileSync n xs c = Inr n'"
        by (intro "4.IH") (auto simp: statAt_Dir_Cons)
      with Some show ?thesis by auto
    qed
  qed
qed (auto split: if_splits)

lemma mkdirSync_statAt:
  "mkdirSync root q = Inr root'
     \<Longrightarrow> statAt root' p = (if prefix p q then Some IsDir else statAt root p)"
proof (induction root q arbitrary: root' p rule: mkdirSync.induct)
  case (1 es)
  then show ?case by (cases p) auto
next
  case (2 c)
  then show ?case by simp
next
  case (3 c x xs)
  then show ?case by simp
next
  case (4 es x xs)
  let ?n = "case map_of es x of None \<Rightarrow> Dir [] | Some n \<Rightarrow> n"
  from "4.prems" obtain n' where m: "mkdirSync ?n xs = Inr n'"
    and r: "root' = Dir (AList.update x n' es)"
    by (auto split: sum.splits)
  show ?case
  proof (cases p)
    case Nil
    then show ?thesis using r by simp
  next
    case (Cons y ys)
    show ?thesis
    proof (cases "y = x")
      case True
      have "statAt n' ys = (if prefix ys xs then Some IsDir else statAt ?n ys)"
        by (rule "4.IH" [OF m])
      moreover have "statAt ?n ys = statAt (Dir es) (x # ys)" if "\<not> prefix ys xs"
        using that by (cases ys) (auto simp: statAt_Dir_Cons split: option.splits)
      ultimately show ?thesis using Cons True r by simp
    next
      case False
      then show ?thesis using Cons r by simp
    qed
  qed
qed

lemma mkdirSync_succeeds:
  assumes "\<forall>p c. prefix p q \<longrightarrow> statAt root p \<noteq> Some (IsFile c)"
  shows "\<exists>root'. mkdirSync root q = Inr root'"
  using assms
proof (induction root q rule: mkdirSync.induct)
  case (1 es)
  then show ?case by simp
next
  case (2 c)
  then show ?case by simp
next
  case (3 c x xs)
  then show ?case by (auto dest: spec [of _ "[]"])
next
  case (4 es x xs)
  let ?n = "case map_of es x of None \<Rightarrow> Dir [] | Some n \<Rightarrow> n"
  have "\<forall>p c. prefix p xs \<longrightarrow> statAt ?n p \<noteq> Some (IsFile c)"
  proof (intro allI impI)
    fix p c assume p: "prefix p xs"
    show "statAt ?n p \<noteq> Some (IsFile c)"
    proof (cases "map_of es x")
      case None
      then show ?thesis by (cases p) simp_all
    next
      case (Some n)
      from "4.prems" p have "statAt (Dir es) (x # p) \<noteq> Some (IsFile c)" by simp
      with Some show ?thesis by (simp add: statAt_Dir_Cons)
    qed
  qed
  from "4.IH" [OF this] show ?case by auto
qed

lemma rmSync_statAt:
  "q \<noteq> [] \<Longrightarrow> statAt (rmSync root q) p = (if prefix q p then None else statAt root p)"
proof (induction root q arbitrary: p rule: rmSync.induct)
  case (1 n)
  then show ?case by simp
next
  case (2 c x xs)
  then show ?case by (cases p) auto
next
  case (3 es x)
  then show ?case
    by (cases p) (auto simp: statAt_Dir_Cons AList.delete_conv')
next
  case (4 es x y ys)
  show ?case
  proof (cases "map_of es x")
    case None
    then show ?thesis by (cases p) (auto simp: statAt_Dir_Cons)
  next
    case (Some n)
    then show ?thesis using "4.IH" [OF Some]
      by (cases p) (auto simp: statAt_Dir_Cons AList.update_conv')
  qed
qed

section \<open>The entry point that does not exist\<close>

text \<open>
  Claim C1. When the resolved entry point is not on disk, \<open>compile\<close> fails with the
  error \<open>File not found: <resolved path>\<close>, leaves the file system as it was, and
  calls neither the bundler nor the packager: the trace gains no invocation.
\<close>

theorem compile_missing_entry_point:
  assumes "\<not> existsSync (fs st) (path_resolve (cwd env) (entryPoint options))"
  shows "fst (compile env options st)
           = Inl (Error (''File not found: '' @ path_string (path_resolve (cwd env) (entryPoint options))))
         \<and> fs (snd (compile env options st)) = fs st
         \<and> invocations (trace (snd (compile env options st))) = invocations (trace st)"
  using assms by (simp add: compile_def Let_def entryPointPathOf_def trace_logEntry)

theorem compile_missing_entry_point_witness:
  "\<not> existsSync (fs exampleState) (path_resolve (cwd exampleEnv) ''missing.ts'')
   \<and> fst (compile exampleEnv (exampleOptions\<lparr>entryPoint := ''missing.ts''\<rparr>) exampleState)
       = Inl (Error ''File not found: /work/missing.ts'')
   \<and> invocations (trace (snd (compile exampleEnv (exampleOptions\<lparr>entryPoint := ''missing.ts''\<rparr>) exampleState))) = 0"
proof -
  have resolved: "path_resolve (cwd exampleEnv) ''missing.ts'' = [''work'', ''missing.ts'']"
    by (simp add: exampleEnv_def path_resolve_def path_join_def applySegment_def)
  have missing: "\<not> existsSync (fs exampleState) (path_resolve (cwd exampleEnv) ''missing.ts'')"
    by (simp add: resolved exampleState_def exampleRoot_def existsSync_def)
  have "\<not> existsSync (fs exampleState)
           (path_resolve (cwd exampleEnv) (entryPoint (exampleOptions\<lparr>entryPoint := ''missing.ts''\<rparr>)))"
    using missing by simp
  from compile_missing_entry_point [OF this] missing show ?thesis
    by (simp add: resolved path_string_def exampleState_def)
qed

section \<open>The command of the packaging step\<close>

lemma trace_writeReadme: "writeReadme env h st = Inr st1 \<Longrightarrow> trace st1 = trace st"
  by (auto simp: writeReadme_def split: if_splits sum.splits)

lemma execCommands_runPackager:
  "execCommands (trace (snd (runPackager env command out h st))) = execCommands (trace st) @ [command]"
  by (simp add: runPackager_def Let_def split: sum.splits prod.splits option.splits)

lemma execCommands_package:
  "execCommands (trace (snd (package env p v out h st)))
     = execCommands (trace st)
       @ (case writeReadme env h (emit (ConsoleLog ''Creating executable binary...'') st) of
            Inl e \<Rightarrow> []
          | Inr st1 \<Rightarrow> [pkgCommand (bundleFileOf env) (pkgTargets p v) (pkgAssetsOption (tempDirOf env) h) out])"
proof (cases "writeReadme env h (emit (ConsoleLog ''Creating executable binary...'') st)")
  case (Inl e)
  then show ?thesis by (simp add: package_def Let_def)
next
  case (Inr st1)
  let ?c = "pkgCommand (bundleFileOf env) (pkgTargets p v) (pkgAssetsOption (tempDirOf env) h) out"
  have "execCommands (trace (snd (runPackager env ?c out h st1))) = execCommands (trace st) @ [?c]"
    using trace_writeReadme [OF Inr] by (simp add: execCommands_runPackager)
  then show ?thesis using Inr
    by (auto simp: package_def Let_def split: prod.splits sum.splits)
qed

section \<open>One asset given as a string\<close>

text \<open>
  Claim C10. \<open>compile\<close> with \<open>assets\<close> given as the single string \<open>s\<close> is
  \<open>compile\<close> with \<open>assets\<close> given as the one-element array \<open>[s]\<close>: the same result,
  the same file system and the same trace, whatever the other options are.
\<close>

theorem string_assets_is_singleton:
  "compile env (options\<lparr>assets := Some (AssetsString s)\<rparr>) st
     = compile env (options\<lparr>assets := Some (AssetsArray [Some s])\<rparr>) st"
proof -
  let ?a = "options\<lparr>assets := Some (AssetsString s)\<rparr>"
  let ?b = "options\<lparr>assets := Some (AssetsArray [Some s])\<rparr>"
  have array: "assetsArrayOf ?a = assetsArrayOf ?b"
    by (simp add: assetsArrayOf_def)
  have entry: "entryPointPathOf env ?a = entryPointPathOf env ?b"
    by (simp add: entryPointPathOf_def)
  have logged: "logEntry env ?a st = logEntry env ?b st"
    by (simp add: logEntry_def entryPointPathOf_def)
  have rest: "versionOf ?a = versionOf ?b" "platformOf env ?a = platformOf env ?b"
    "outFile ?a = outFile ?b"
    by (simp_all add: versionOf_def platformOf_def)
  show ?thesis
    unfolding compile_def array entry logged rest by (rule refl)
qed

section \<open>The exit codes of the command line\<close>

lemma parseArgs_no_bare_token:
  "\<forall>a\<in>set args. startsWithDash a \<Longrightarrow> cli_entryPoint (parseArgs args c) = cli_entryPoint c"
proof (induction args c rule: parseArgs.induct)
  case (1 c)
  then show ?case by simp
next
  case (2 arg rest c)
  have tl: "\<forall>a\<in>set (tl rest). startsWithDash a"
    using "2.prems" by (cases rest) auto
  have rest: "\<forall>a\<in>set rest. startsWithDash a"
    using "2.prems" by simp
  have dash: "startsWithDash arg"
    using "2.prems" by simp
  show ?case
    using "2.IH" tl rest dash by (simp del: parseArgs.simps add: parseArgs.simps(2) [of arg rest c])
qed

lemma fs_logStart [simp]: "fs (logStart args st) = fs st"
  by (simp add: logStart_def)

lemma fs_logParsed [simp]: "fs (logParsed c st) = fs st"
  by (simp add: logParsed_def)

lemma invocations_logStart [simp]: "invocations (trace (logStart args st)) = invocations (trace st)"
  by (simp add: logStart_def)

lemma invocations_logParsed [simp]: "invocations (trace (logParsed c st)) = invocations (trace st)"
  by (simp add: logParsed_def)

text \<open>
Claim C8. For every argument list: when it is empty or holds \<open>--help\<close> or \<open>-h\<close>,
  \<open>main\<close> prints the usage text and ends with code 0, the file system untouched and
  neither collaborator called. Otherwise, when the loop finds no entry point (as it
  must when every token starts with a dash), \<open>main\<close> reports that the entry point is
  required and ends with code 1, again without a build. Otherwise the exit code is 0
  when \<open>compile\<close> succeeds and 1 when it fails, at whatever stage.
\<close>

theorem main_exit_codes:
  "(args = [] \<or> ''--help'' \<in> set args \<or> ''-h'' \<in> set args \<longrightarrow>
      main env args st = (0, emit (ConsoleLog usageText) (logStart args st))
      \<and> fs (snd (main env args st)) = fs st
      \<and> invocations (trace (snd (main env args st))) = invocations (trace st))
   \<and> ((\<forall>a\<in>set args. startsWithDash a) \<longrightarrow> cli_entryPoint (parseArgs args (initialCli env)) = [])
   \<and> (args \<noteq> [] \<and> ''--help'' \<notin> set args \<and> ''-h'' \<notin> set args
        \<and> cli_entryPoint (parseArgs args (initialCli env)) = [] \<longrightarrow>
      main env args st
        = (1, emit (ConsoleError ''Error: Entry point is required'')
                (logParsed (parseArgs args (initialCli env)) (logStart args st)))
      \<and> fs (snd (main env args st)) = fs st
      \<and> invocations (trace (snd (main env args st))) = invocations (trace st))
   \<and> (args \<noteq> [] \<and> ''--help'' \<notin> set args \<and> ''-h'' \<notin> set args
        \<and> cli_entryPoint (parseArgs args (initialCli env)) \<noteq> [] \<longrightarrow>
      fst (main env args st)
        = (case fst (compile env (cliOptions env (parseArgs args (initialCli env)))
                       (emit (ConsoleLog (''Absolute entry point: ''
                                @ path_string (path_resolve (cwd env)
                                     (cli_entryPoint (parseArgs args (initialCli env))))))
                          (logParsed (parseArgs args (initialCli env)) (logStart args st)))) of
             Inl e \<Rightarrow> 1
           | Inr u \<Rightarrow> 0))"
proof (intro conjI impI)
  assume h: "args = [] \<or> ''--help'' \<in> set args \<or> ''-h'' \<in> set args"
  then show "main env args st = (0, emit (ConsoleLog usageText) (logStart args st))"
    by (simp add: main_def Let_def)
  then show "fs (snd (main env args st)) = fs st"
    and "invocations (trace (snd (main env args st))) = invocations (trace st)"
    by simp_all
next
  assume "\<forall>a\<in>set args. startsWithDash a"
  then show "cli_entryPoint (parseArgs args (initialCli env)) = []"
    by (simp add: parseArgs_no_bare_token initialCli_def)
next
  assume h: "args \<noteq> [] \<and> ''--help'' \<notin> set args \<and> ''-h'' \<notin> set args
        \<and> cli_entryPoint (parseArgs args (initialCli env)) = []"
  then show "main env args st
        = (1, emit (ConsoleError ''Error: Entry point is required'')
                (logParsed (parseArgs args (initialCli env)) (logStart args st)))"
    by (simp add: main_def Let_def)
  then show "fs (snd (main env args st)) = fs st"
    and "invocations (trace (snd (main env args st))) = invocations (trace st)"
    by simp_all
next
  assume h: "args \<noteq> [] \<and> ''--help'' \<notin> set args \<and> ''-h'' \<notin> set args
        \<and> cli_entryPoint (parseArgs args (initialCli env)) \<noteq> []"
  then show "fst (main env args st)
        = (case fst (compile env (cliOptions env (parseArgs args (initialCli env)))
                       (emit (ConsoleLog (''Absolute entry point: ''
                                @ path_string (path_resolve (cwd env)
                                     (cli_entryPoint (parseArgs args (initialCli env))))))
                          (logParsed (parseArgs args (initialCli env)) (logStart args st)))) of
             Inl e \<Rightarrow> 1
           | Inr u \<Rightarrow> 0)"
    by (simp add: main_def Let_def split: prod.splits sum.splits)
qed

theorem main_exit_codes_witness:
  "main exampleEnv [] exampleState
     = (0, emit (ConsoleLog usageText) (logStart [] exampleState))
   \<and> fst (main exampleEnv [''-o'', ''app'', ''--help''] exampleState) = 0
   \<and> startsWithDash ''-o'' \<and> startsWithDash ''-v''
   \<and> fst (main exampleEnv [''-o'', ''-v''] exampleState) = 1
   \<and> fs (snd (main exampleEnv [''-o'', ''-v''] exampleState)) = exampleRoot
   \<and> fst (main exampleEnv [''-o'', ''app'', ''main.ts''] exampleState) = 0
   \<and> fst (main failingEnv [''-o'', ''app'', ''main.ts''] exampleState) = 1
   \<and> fst (main exampleEnv [''-o'', ''app'', ''missing.ts''] exampleState) = 1"
proof -
  note m = main_exit_codes
  note m3 = main_exit_codes [THEN conjunct2, THEN conjunct2, THEN conjunct2, rule_format]
  have a: "main exampleEnv [] exampleState
     = (0, emit (ConsoleLog usageText) (logStart [] exampleState))"
    using m [of "[]" exampleEnv exampleState] by simp
  have b: "fst (main exampleEnv [''-o'', ''app'', ''--help''] exampleState) = 0"
    using m [of "[''-o'', ''app'', ''--help'']" exampleEnv exampleState] by simp
  have c: "startsWithDash ''-o'' \<and> startsWithDash ''-v''
     \<and> fst (main exampleEnv [''-o'', ''-v''] exampleState) = 1
     \<and> fs (snd (main exampleEnv [''-o'', ''-v''] exampleState)) = exampleRoot"
    using m [of "[''-o'', ''-v'']" exampleEnv exampleState]
    by (simp add: startsWithDash_def exampleState_def)
  have parsed: "cli_entryPoint (parseArgs [''-o'', ''app'', f] (initialCli env)) = f"
    if "\<not> startsWithDash f" and "f \<notin> {''--out'', ''-o'', ''--target'', ''-t'', ''--platform'', ''-p'', ''--assets'', ''-a''}"
    for env f
    using that by (simp add: nextArg_def)
  have d: "fst (main exampleEnv [''-o'', ''app'', ''main.ts''] exampleState) = 0"
  proof -
    have "fst (main exampleEnv [''-o'', ''app'', ''main.ts''] exampleState)
        = (case fst (compile exampleEnv (cliOptions exampleEnv (parseArgs [''-o'', ''app'', ''main.ts''] (initialCli exampleEnv)))
                       (emit (ConsoleLog (''Absolute entry point: ''
                                @ path_string (path_resolve (cwd exampleEnv)
                                     (cli_entryPoint (parseArgs [''-o'', ''app'', ''main.ts''] (initialCli exampleEnv))))))
                          (logParsed (parseArgs [''-o'', ''app'', ''main.ts''] (initialCli exampleEnv))
                             (logStart [''-o'', ''app'', ''main.ts''] exampleState)))) of
             Inl e \<Rightarrow> 1
           | Inr u \<Rightarrow> 0)"
      by (rule m3) (simp add: parsed startsWithDash_def)
    also have "\<dots> = 0" by code_simp
    finally show ?thesis .
  qed
  have e: "fst (main failingEnv [''-o'', ''app'', ''main.ts''] exampleState) = 1"
  proof -
    have "fst (main failingEnv [''-o'', ''app'', ''main.ts''] exampleState)
        = (case fst (compile failingEnv (cliOptions failingEnv (parseArgs [''-o'', ''app'', ''main.ts''] (initialCli failingEnv)))
                       (emit (ConsoleLog (''Absolute entry point: ''
                                @ path_string (path_resolve (cwd failingEnv)
                                     (cli_entryPoint (parseArgs [''-o'', ''app'', ''main.ts''] (initialCli failingEnv))))))
                          (logParsed (parseArgs [''-o'', ''app'', ''main.ts''] (initialCli failingEnv))
                             (logStart [''-o'', ''app'', ''main.ts''] exampleState)))) of
             Inl e \<Rightarrow> 1
           | Inr u \<Rightarrow> 0)"
      by (rule m3) (simp add: parsed startsWithDash_def)
    also have "\<dots> = 1" by code_simp
    finally show ?thesis .
  qed
  have f: "fst (main exampleEnv [''-o'', ''app'', ''missing.ts''] exampleState) = 1"
  proof -
    have "fst (main exampleEnv [''-o'', ''app'', ''missing.ts''] exampleState)
        = (case fst (compile exampleEnv (cliOptions exampleEnv (parseArgs [''-o'', ''app'', ''missing.ts''] (initialCli exampleEnv)))
                       (emit (ConsoleLog (''Absolute entry point: ''
                                @ path_string (path_resolve (cwd exampleEnv)
                                     (cli_entryPoint (parseArgs [''-o'', ''app'', ''missing.ts''] (initialCli exampleEnv))))))
                          (logParsed (parseArgs [''-o'', ''app'', ''missing.ts''] (initialCli exampleEnv))
                             (logStart [''-o'', ''app'', ''missing.ts''] exampleState)))) of
             Inl e \<Rightarrow> 1
           | Inr u \<Rightarrow> 0)"
      by (rule m3) (simp add: parsed startsWithDash_def)
    also have "\<dots> = 1" by code_simp
    finally show ?thesis .
  qed
  show ?thesis using a b c d e f by blast
qed

section \<open>Cleaning up after the packager\<close>

lemma lookup_rmSync_self: "p \<noteq> [] \<Longrightarrow> lookup (rmSync root p) p = None"
  by (induction root p rule: rmSync.induct)
     (simp_all add: AList.delete_conv' AList.update_conv' split: option.splits)

lemma tempDirOf_nonempty [simp]: "tempDirOf env \<noteq> []"
  by (simp add: tempDirOf_def)

lemma execCommands_copyAssets:
  "copyAssets env dir xs h st = (r, st') \<Longrightarrow> execCommands (trace st') = execCommands (trace st)"
proof (induction xs arbitrary: h st)
  case Nil
  then show ?case by simp
next
  case (Cons a xs)
  show ?case
  proof (cases a)
    case None
    with Cons.prems show ?thesis by simp
  next
    case (Some x)
    with Cons.prems show ?thesis
      by (auto simp: Let_def split: option.splits prod.splits if_splits dest!: Cons.IH)
  qed
qed

lemma execCommands_injectHelper:
  "injectHelper b st = (r, st') \<Longrightarrow> execCommands (trace st') = execCommands (trace st)"
  by (auto simp: injectHelper_def Let_def split: sum.splits)

lemma execCommands_stageAssets:
  "stageAssets env xs st = (r, st') \<Longrightarrow> execCommands (trace st') = execCommands (trace st)"
  by (auto simp: stageAssets_def Let_def split: sum.splits prod.splits if_splits
           dest!: execCommands_injectHelper execCommands_copyAssets)

lemma execCommands_runBundler:
  "runBundler env p v st = (r, st') \<Longrightarrow> execCommands (trace st') = execCommands (trace st)"
  by (auto simp: runBundler_def Let_def split: sum.splits prod.splits option.splits)

lemma execCommands_logEntry [simp]:
  "execCommands (trace (logEntry env options st)) = execCommands (trace st)"
  by (simp add: trace_logEntry)

lemma package_cleanup:
  assumes "writeReadme env hasAssets (emit (ConsoleLog ''Creating executable binary...'') st) = Inr st1"
  shows "lookup (fs (snd (package env p v out hasAssets st))) (tempDirOf env) = None"
  using assms by (auto simp: package_def Let_def lookup_rmSync_self split: prod.splits sum.splits)

lemma package_not_reached:
  assumes "writeReadme env hasAssets (emit (ConsoleLog ''Creating executable binary...'') st) = Inl e"
  shows "execCommands (trace (snd (package env p v out hasAssets st))) = execCommands (trace st)"
  using assms by (simp add: package_def Let_def)

lemma package_reached_cleanup:
  assumes "execCommands (trace (snd (package env p v out hasAssets st))) \<noteq> execCommands (trace st)"
  shows "lookup (fs (snd (package env p v out hasAssets st))) (tempDirOf env) = None"
proof (cases "writeReadme env hasAssets (emit (ConsoleLog ''Creating executable binary...'') st)")
  case (Inl e)
  then show ?thesis using assms package_not_reached by blast
next
  case (Inr st1)
  then show ?thesis by (rule package_cleanup)
qed

lemma compile_reached_cleanup:
  assumes "execCommands (trace (snd (compile env options st))) \<noteq> execCommands (trace st)"
  shows "lookup (fs (snd (compile env options st))) (tempDirOf env) = None"
proof (cases env options st rule: compile_cases)
  case Missing
  with assms show ?thesis by (simp add: trace_logEntry)
next
  case (BundlerFailed e st2)
  with assms show ?thesis by (auto dest!: execCommands_runBundler)
next
  case (StagingFailed st2 e st3)
  with assms show ?thesis by (auto dest!: execCommands_runBundler execCommands_stageAssets)
next
  case (Packaged st2 hasAssets st3)
  have "execCommands (trace st3) = execCommands (trace st)"
    using Packaged(2,3) by (auto dest!: execCommands_runBundler execCommands_stageAssets)
  with assms show ?thesis
    unfolding Packaged(4) by (intro package_reached_cleanup) simp
qed

lemma package_failure:
  assumes "writeReadme env hasAssets (emit (ConsoleLog ''Creating executable binary...'') st) = Inr st1"
    and "execAsync env (pkgCommand (bundleFileOf env) (pkgTargets p v) (pkgAssetsOption (tempDirOf env) hasAssets) out)
           (fs st1) = (Some e, root')"
  shows "package env p v out hasAssets st
     = (Inl e,
        \<lparr>fs = rmSync root' (tempDirOf env),
         trace = trace st
           @ [ConsoleLog ''Creating executable binary...'',
              ConsoleLog (''Executing pkg command: ''
                 @ pkgCommand (bundleFileOf env) (pkgTargets p v) (pkgAssetsOption (tempDirOf env) hasAssets) out),
              ExecAsync (pkgCommand (bundleFileOf env) (pkgTargets p v) (pkgAssetsOption (tempDirOf env) hasAssets) out),
              ConsoleErrorWith ''Error creating executable:'' e]\<rparr>)"
proof -
  have t: "trace st1 = trace st @ [ConsoleLog ''Creating executable binary...'']"
    using assms(1) by (auto simp: writeReadme_def split: if_splits sum.splits)
  show ?thesis
    using assms t by (simp add: package_def Let_def runPackager_def emit_def)
qed


text \<open>
Claim C4. Whenever \<open>compile\<close> hands a command to the packager, the staging directory
  does not exist once \<open>compile\<close> has settled, whether the packager succeeded or failed.
  In terms of the packaging step: once the \<open>try\<close> block is entered, the staging
  directory is gone when the step returns; and when the packager rejects with an error,
  the step logs that error, removes the staging directory and rejects with the same
  error.
\<close>

theorem staging_removed_after_packaging:
  "(execCommands (trace (snd (compile env options st))) \<noteq> execCommands (trace st) \<longrightarrow>
      \<not> existsSync (fs (snd (compile env options st))) (tempDirOf env))
   \<and> (writeReadme env hasAssets (emit (ConsoleLog ''Creating executable binary...'') st3) = Inr st4 \<longrightarrow>
      \<not> existsSync (fs (snd (package env p v out hasAssets st3))) (tempDirOf env)
      \<and> (\<forall>e root'.
            execAsync env
              (pkgCommand (bundleFileOf env) (pkgTargets p v) (pkgAssetsOption (tempDirOf env) hasAssets) out)
              (fs st4) = (Some e, root') \<longrightarrow>
            package env p v out hasAssets st3
              = (Inl e,
                 \<lparr>fs = rmSync root' (tempDirOf env),
                  trace = trace st3
                    @ [ConsoleLog ''Creating executable binary...'',
                       ConsoleLog (''Executing pkg command: ''
                          @ pkgCommand (bundleFileOf env) (pkgTargets p v)
                              (pkgAssetsOption (tempDirOf env) hasAssets) out),
                       ExecAsync (pkgCommand (bundleFileOf env) (pkgTargets p v)
                                    (pkgAssetsOption (tempDirOf env) hasAssets) out),
                       ConsoleErrorWith ''Error creating executable:'' e]\<rparr>)))"
  using compile_reached_cleanup [of env options st]
    package_cleanup [of env hasAssets st3 st4 p v out]
    package_failure [of env hasAssets st3 st4 p v out]
  by (simp add: existsSync_def)

theorem staging_removed_after_packaging_witness:
  "execCommands (trace (snd (compile failingEnv exampleOptions exampleState))) \<noteq> execCommands (trace exampleState)
   \<and> \<not> existsSync (fs (snd (compile failingEnv exampleOptions exampleState))) (tempDirOf failingEnv)
   \<and> execCommands (trace (snd (compile exampleEnv exampleOptions exampleState))) \<noteq> execCommands (trace exampleState)
   \<and> \<not> existsSync (fs (snd (compile exampleEnv exampleOptions exampleState))) (tempDirOf exampleEnv)
   \<and> fst (package failingEnv ''linux'' ''16'' (Some ''out'') False exampleState) = Inl (Error ''pkg failed'')
   \<and> last (trace (snd (package failingEnv ''linux'' ''16'' (Some ''out'') False exampleState)))
       = ConsoleErrorWith ''Error creating executable:'' (Error ''pkg failed'')"
proof -
  have a: "execCommands (trace (snd (compile failingEnv exampleOptions exampleState))) \<noteq> execCommands (trace exampleState)"
    by code_simp
  have b: "execCommands (trace (snd (compile exampleEnv exampleOptions exampleState))) \<noteq> execCommands (trace exampleState)"
    by code_simp
  have w: "writeReadme failingEnv False (emit (ConsoleLog ''Creating executable binary...'') exampleState)
             = Inr (emit (ConsoleLog ''Creating executable binary...'') exampleState)"
    by (simp add: writeReadme_def)
  have x: "execAsync failingEnv c r = (Some (Error ''pkg failed''), r)" for c r
    by (simp add: failingEnv_def)
  note t1 = staging_removed_after_packaging [of failingEnv exampleOptions exampleState, THEN conjunct1, rule_format, OF a]
  note t2 = staging_removed_after_packaging [of exampleEnv exampleOptions exampleState, THEN conjunct1, rule_format, OF b]
  note t3 = staging_removed_after_packaging [THEN conjunct2, rule_format, OF w, THEN conjunct2, rule_format, OF x]
  show ?thesis using a b t1 t2 by (simp add: t3 [of "''linux''" "''16''" "Some ''out''"])
qed

section \<open>The targets handed to the packager\<close>

lemma compile_packaged:
  assumes "existsSync (fs st) (entryPointPathOf env options)"
    and "runBundler env (entryPointPathOf env options) (versionOf options) (logEntry env options st) = (Inr (), st2)"
    and "stageAssets env (assetsArrayOf options) st2 = (Inr h, st3)"
  shows "compile env options st
           = package env (platformOf env options) (versionOf options) (outFile options) h st3"
    and "execCommands (trace st3) = execCommands (trace st)"
proof -
  show "compile env options st
           = package env (platformOf env options) (versionOf options) (outFile options) h st3"
    using assms by (simp add: compile_def Let_def)
  show "execCommands (trace st3) = execCommands (trace st)"
    using execCommands_runBundler [OF assms(2)] execCommands_stageAssets [OF assms(3)] by simp
qed

lemma execCommands_compile:
  "execCommands (trace (snd (compile env options st))) = execCommands (trace st)
   \<or> (\<exists>h. execCommands (trace (snd (compile env options st)))
            = execCommands (trace st)
              @ [pkgCommand (bundleFileOf env) (pkgTargets (platformOf env options) (versionOf options))
                   (pkgAssetsOption (tempDirOf env) h) (outFile options)])"
proof (cases env options st rule: compile_cases)
  case Missing
  then show ?thesis by (simp add: trace_logEntry)
next
  case (BundlerFailed e st2)
  then show ?thesis by (auto dest!: execCommands_runBundler)
next
  case (StagingFailed st2 e st3)
  then show ?thesis by (auto dest!: execCommands_runBundler execCommands_stageAssets)
next
  case (Packaged st2 hasAssets st3)
  have "execCommands (trace st3) = execCommands (trace st)"
    using Packaged(2,3) by (auto dest!: execCommands_runBundler execCommands_stageAssets)
  then show ?thesis
    unfolding Packaged(4) execCommands_package
    by (cases "writeReadme env hasAssets (emit (ConsoleLog ''Creating executable binary...'') st3)") auto
qed

lemma compile_hands_command:
  assumes "existsSync (fs st) (entryPointPathOf env options)"
    and "runBundler env (entryPointPathOf env options) (versionOf options) (logEntry env options st) = (Inr (), st2)"
    and "stageAssets env (assetsArrayOf options) st2 = (Inr h, st3)"
    and "writeReadme env h (emit (ConsoleLog ''Creating executable binary...'') st3) = Inr st4"
  shows "execCommands (trace (snd (compile env options st)))
           = execCommands (trace st)
             @ [pkgCommand (bundleFileOf env) (pkgTargets (platformOf env options) (versionOf options))
                  (pkgAssetsOption (tempDirOf env) h) (outFile options)]"
    and "execAsync env (pkgCommand (bundleFileOf env) (pkgTargets (platformOf env options) (versionOf options))
                  (pkgAssetsOption (tempDirOf env) h) (outFile options)) (fs st4) = (Some e, rootP)
         \<Longrightarrow> fst (compile env options st) = Inl e
             \<and> fs (snd (compile env options st)) = rmSync rootP (tempDirOf env)"
proof -
  note c = compile_packaged [OF assms(1-3)]
  show "execCommands (trace (snd (compile env options st)))
           = execCommands (trace st)
             @ [pkgCommand (bundleFileOf env) (pkgTargets (platformOf env options) (versionOf options))
                  (pkgAssetsOption (tempDirOf env) h) (outFile options)]"
    unfolding c(1) execCommands_package using assms(4) c(2) by simp
  show "fst (compile env options st) = Inl e
             \<and> fs (snd (compile env options st)) = rmSync rootP (tempDirOf env)"
    if "execAsync env (pkgCommand (bundleFileOf env) (pkgTargets (platformOf env options) (versionOf options))
                  (pkgAssetsOption (tempDirOf env) h) (outFile options)) (fs st4) = (Some e, rootP)"
    unfolding c(1) package_failure [OF assms(4) that] by simp
qed

text \<open>
  Claim C2. For every version string \<open>v\<close>: platform \<open>all\<close> gives the three targets
  \<open>node<v>-win-x64\<close>, \<open>node<v>-macos-x64\<close>, \<open>node<v>-linux-x64\<close> in this order; any
  other platform \<open>p\<close>, checked against nothing, gives the single target
  \<open>node<v>-<p>-x64\<close>. A run of \<open>compile\<close> with platform \<open>p\<close> and version \<open>v\<close> hands
  the packager no command at all or exactly one, and that one carries exactly these
  targets, joined by commas. When the entry point is there, the bundler and the staging
  succeed and the README can be written, the command is handed over, and it is this
  command the packager is run with: an error the packager answers it with is the error
  of \<open>compile\<close>.
\<close>

theorem pkg_targets_by_platform:
  "pkgTargets ''all'' v
     = [''node'' @ v @ ''-win-x64'', ''node'' @ v @ ''-macos-x64'', ''node'' @ v @ ''-linux-x64'']
   \<and> (p \<noteq> ''all'' \<longrightarrow> pkgTargets p v = [''node'' @ v @ ''-'' @ p @ ''-x64''])
   \<and> (platform options = Some p \<and> nodeVersion options = Some v \<longrightarrow>
        (execCommands (trace (snd (compile env options st))) = execCommands (trace st)
         \<or> (\<exists>h. execCommands (trace (snd (compile env options st)))
                  = execCommands (trace st)
                    @ [''npx pkg '' @ path_string (bundleFileOf env) @ '' --targets ''
                         @ join_comma (pkgTargets p v) @ '' '' @ pkgAssetsOption (tempDirOf env) h
                         @ '' --output '' @ js_string (outFile options)]))
        \<and> (existsSync (fs st) (entryPointPathOf env options)
             \<and> runBundler env (entryPointPathOf env options) v (logEntry env options st) = (Inr (), st2)
             \<and> stageAssets env (assetsArrayOf options) st2 = (Inr h, st3)
             \<and> writeReadme env h (emit (ConsoleLog ''Creating executable binary...'') st3) = Inr st4 \<longrightarrow>
           execCommands (trace (snd (compile env options st)))
             = execCommands (trace st)
               @ [''npx pkg '' @ path_string (bundleFileOf env) @ '' --targets ''
                    @ join_comma (pkgTargets p v) @ '' '' @ pkgAssetsOption (tempDirOf env) h
                    @ '' --output '' @ js_string (outFile options)]
           \<and> (\<forall>e rootP.
                 execAsync env
                   (''npx pkg '' @ path_string (bundleFileOf env) @ '' --targets ''
                      @ join_comma (pkgTargets p v) @ '' '' @ pkgAssetsOption (tempDirOf env) h
                      @ '' --output '' @ js_string (outFile options))
                   (fs st4) = (Some e, rootP) \<longrightarrow>
                 fst (compile env options st) = Inl e)))"
proof -
  have a: "pkgTargets ''all'' v
     = [''node'' @ v @ ''-win-x64'', ''node'' @ v @ ''-macos-x64'', ''node'' @ v @ ''-linux-x64'']"
    by (simp add: pkgTargets_def)
  have b: "p \<noteq> ''all'' \<longrightarrow> pkgTargets p v = [''node'' @ v @ ''-'' @ p @ ''-x64'']"
    by (simp add: pkgTargets_def)
  have c: ?thesis if o: "platform options = Some p" "nodeVersion options = Some v"
  proof -
    have pv: "platformOf env options = p" "versionOf options = v"
      using o by (simp_all add: platformOf_def versionOf_def)
    note every = execCommands_compile [of env options st, unfolded pv pkgCommand_def]
    note reach = compile_hands_command [of st env options st2 h st3 st4, unfolded pv pkgCommand_def]
    show ?thesis
      using a b every reach by blast
  qed
  show ?thesis
  proof (cases "platform options = Some p \<and> nodeVersion options = Some v")
    case True
    then show ?thesis using c by blast
  next
    case False
    then show ?thesis using a b by blast
  qed
qed


theorem pkg_targets_by_platform_witness:
  "pkgTargets ''all'' ''18'' = [''node18-win-x64'', ''node18-macos-x64'', ''node18-linux-x64'']
   \<and> ''alpine'' \<noteq> ''all'' \<and> pkgTargets ''alpine'' ''18'' = [''node18-alpine-x64'']
   \<and> execCommands (trace (snd (compile exampleEnv
          (exampleOptions\<lparr>platform := Some ''all'', nodeVersion := Some ''18''\<rparr>) exampleState)))
       = [''npx pkg /work/.ts-compiler-bin-temp/bundle.js --targets node18-win-x64,node18-macos-x64,node18-linux-x64  --output out'']
   \<and> execCommands (trace (snd (compile failingEnv
          (exampleOptions\<lparr>platform := Some ''alpine'', nodeVersion := Some ''18''\<rparr>) exampleState)))
       = [''npx pkg /work/.ts-compiler-bin-temp/bundle.js --targets node18-alpine-x64  --output out'']
   \<and> fst (compile failingEnv
          (exampleOptions\<lparr>platform := Some ''alpine'', nodeVersion := Some ''18''\<rparr>) exampleState)
       = Inl (Error ''pkg failed'')"
proof -
  let ?all = "exampleOptions\<lparr>platform := Some ''all'', nodeVersion := Some ''18''\<rparr>"
  let ?alp = "exampleOptions\<lparr>platform := Some ''alpine'', nodeVersion := Some ''18''\<rparr>"
  let ?b1 = "runBundler exampleEnv (entryPointPathOf exampleEnv ?all) ''18'' (logEntry exampleEnv ?all exampleState)"
  let ?b2 = "runBundler failingEnv (entryPointPathOf failingEnv ?alp) ''18'' (logEntry failingEnv ?alp exampleState)"
  have o1: "platform ?all = Some ''all''" "nodeVersion ?all = Some ''18''"
    and o2: "platform ?alp = Some ''alpine''" "nodeVersion ?alp = Some ''18''"
    by simp_all
  have e1: "existsSync (fs exampleState) (entryPointPathOf exampleEnv ?all)"
    and e2: "existsSync (fs exampleState) (entryPointPathOf failingEnv ?alp)"
    by code_simp+
  have "fst ?b1 = Inr ()" and "fst ?b2 = Inr ()"
    by code_simp+
  then have b1: "?b1 = (Inr (), snd ?b1)" and b2: "?b2 = (Inr (), snd ?b2)"
    by (simp_all add: prod_eq_iff)
  have s1: "stageAssets exampleEnv (assetsArrayOf ?all) (snd ?b1) = (Inr False, snd ?b1)"
    and s2: "stageAssets failingEnv (assetsArrayOf ?alp) (snd ?b2) = (Inr False, snd ?b2)"
    by (simp_all add: stageAssets_def assetsArrayOf_def exampleOptions_def)
  have w: "writeReadme env False st = Inr st" for env st
    by (simp add: writeReadme_def)
  have x: "execAsync failingEnv c r = (Some (Error ''pkg failed''), r)" for c r
    by (simp add: failingEnv_def)
  have t: "path_string (bundleFileOf exampleEnv) = ''/work/.ts-compiler-bin-temp/bundle.js''"
    "path_string (bundleFileOf failingEnv) = ''/work/.ts-compiler-bin-temp/bundle.js''"
    "pkgAssetsOption d False = []" "js_string (outFile exampleOptions) = ''out''"
    "execCommands (trace exampleState) = []" for d
    by (simp_all add: bundleFileOf_def tempDirOf_def exampleEnv_def failingEnv_def path_string_def
          pkgAssetsOption_def js_string_def exampleOptions_def exampleState_def)
  note all = pkg_targets_by_platform [of "''18''" "''all''" ?all exampleEnv exampleState "snd ?b1" False "snd ?b1"
      "emit (ConsoleLog ''Creating executable binary...'') (snd ?b1)"]
  note alp = pkg_targets_by_platform [of "''18''" "''alpine''" ?alp failingEnv exampleState "snd ?b2" False "snd ?b2"
      "emit (ConsoleLog ''Creating executable binary...'') (snd ?b2)"]
  note r1 = all [THEN conjunct2, THEN conjunct2, rule_format, OF conjI [OF o1], THEN conjunct2,
      rule_format, OF conjI [OF e1 conjI [OF b1 conjI [OF s1 w]]]]
  note r2 = alp [THEN conjunct2, THEN conjunct2, rule_format, OF conjI [OF o2], THEN conjunct2,
      rule_format, OF conjI [OF e2 conjI [OF b2 conjI [OF s2 w]]]]
  have c1: "execCommands (trace (snd (compile exampleEnv ?all exampleState)))
       = [''npx pkg /work/.ts-compiler-bin-temp/bundle.js --targets node18-win-x64,node18-macos-x64,node18-linux-x64  --output out'']"
    using r1 [THEN conjunct1] by (simp add: t pkgTargets_def)
  have c2: "execCommands (trace (snd (compile failingEnv ?alp exampleState)))
       = [''npx pkg /work/.ts-compiler-bin-temp/bundle.js --targets node18-alpine-x64  --output out'']"
    using r2 [THEN conjunct1] by (simp add: t pkgTargets_def)
  have c3: "fst (compile failingEnv ?alp exampleState) = Inl (Error ''pkg failed'')"
    using r2 [THEN conjunct2, rule_format, OF x] .
  have c4: "pkgTargets ''all'' ''18'' = [''node18-win-x64'', ''node18-macos-x64'', ''node18-linux-x64'']"
    using all [THEN conjunct1] by simp
  have c5: "pkgTargets ''alpine'' ''18'' = [''node18-alpine-x64'']"
    using alp [THEN conjunct2, THEN conjunct1] by simp
  show ?thesis using c1 c2 c3 c4 c5 by simp
qed

section \<open>Assets that do not exist\<close>

lemma copyAssets_missing:
  assumes "\<not> existsSync (fs st) (path_resolve (cwd env) a)"
  shows "copyAssets env dir (Some a # rest) h st
     = copyAssets env dir rest h
         (emit (ConsoleWarn (''Warning: Asset not found: '' @ path_string (path_resolve (cwd env) a)))
            (emit (ConsoleLog (''Copying asset: '' @ path_string (path_resolve (cwd env) a))) st))"
  using assms by (simp add: existsSync_def Let_def)

lemma copyAssets_all_missing:
  assumes "\<forall>a\<in>set xs. \<not> existsSync (fs st) (path_resolve (cwd env) a)"
  shows "fst (copyAssets env dir (map Some xs) h st) = Inr h
         \<and> fs (snd (copyAssets env dir (map Some xs) h st)) = fs st
         \<and> filter (\<lambda>e. case e of ConsoleWarn m \<Rightarrow> True | _ \<Rightarrow> False)
              (trace (snd (copyAssets env dir (map Some xs) h st)))
           = filter (\<lambda>e. case e of ConsoleWarn m \<Rightarrow> True | _ \<Rightarrow> False) (trace st)
             @ map (\<lambda>a. ConsoleWarn (''Warning: Asset not found: '' @ path_string (path_resolve (cwd env) a))) xs"
  using assms
proof (induction xs arbitrary: st)
  case Nil
  then show ?case by simp
next
  case (Cons a xs)
  let ?st' = "emit (ConsoleWarn (''Warning: Asset not found: '' @ path_string (path_resolve (cwd env) a)))
            (emit (ConsoleLog (''Copying asset: '' @ path_string (path_resolve (cwd env) a))) st)"
  have step: "copyAssets env dir (map Some (a # xs)) h st = copyAssets env dir (map Some xs) h ?st'"
    using Cons.prems by (simp add: copyAssets_missing del: copyAssets.simps)
  have "\<forall>a\<in>set xs. \<not> existsSync (fs ?st') (path_resolve (cwd env) a)"
    using Cons.prems by simp
  from Cons.IH [OF this] show ?case
    unfolding step by simp
qed

lemma stageAssets_all_missing:
  assumes "xs \<noteq> []" and "ensureDir (fs st) (tempAssetsDirOf env) = Inr root1"
    and "\<forall>a\<in>set xs. \<not> existsSync root1 (path_resolve (cwd env) a)"
  shows "fst (stageAssets env (map Some xs) st) = Inr False
         \<and> fs (snd (stageAssets env (map Some xs) st)) = root1"
proof -
  let ?st1 = "(emit (ConsoleLog ''Copying assets...'') st)\<lparr>fs := root1\<rparr>"
  have "\<forall>a\<in>set xs. \<not> existsSync (fs ?st1) (path_resolve (cwd env) a)"
    using assms(3) by simp
  from copyAssets_all_missing [OF this, of "tempAssetsDirOf env" False]
  obtain st2 where c: "copyAssets env (tempAssetsDirOf env) (map Some xs) False ?st1 = (Inr False, st2)"
    and f: "fs st2 = root1"
    by (cases "copyAssets env (tempAssetsDirOf env) (map Some xs) False ?st1") auto
  show ?thesis
    using assms(1,2) c f by (simp add: stageAssets_def Let_def)
qed


lemma compile_all_missing:
  assumes "existsSync (fs st) (entryPointPathOf env options)"
    and "runBundler env (entryPointPathOf env options) (versionOf options) (logEntry env options st) = (Inr (), st2)"
    and "assetsArrayOf options = map Some xs" and "xs \<noteq> []"
    and "ensureDir (fs st2) (tempAssetsDirOf env) = Inr root1"
    and "\<forall>a\<in>set xs. \<not> existsSync root1 (path_resolve (cwd env) a)"
  shows "execCommands (trace (snd (compile env options st)))
     = execCommands (trace st)
       @ [pkgCommand (bundleFileOf env) (pkgTargets (platformOf env options) (versionOf options)) []
            (outFile options)]"
proof -
  from stageAssets_all_missing [OF assms(4,5,6)]
  obtain st3 where s: "stageAssets env (assetsArrayOf options) st2 = (Inr False, st3)"
    unfolding assms(3) by (cases "stageAssets env (map Some xs) st2") auto
  have c: "compile env options st
     = package env (platformOf env options) (versionOf options) (outFile options) False st3"
    using assms(1,2) s by (simp add: compile_def Let_def)
  have "execCommands (trace st3) = execCommands (trace st)"
    using assms(2) s by (auto dest!: execCommands_runBundler execCommands_stageAssets)
  then show ?thesis
    unfolding c by (simp add: execCommands_package writeReadme_def pkgAssetsOption_def)
qed

text \<open>
Claim C7. An asset path that is not on disk when its turn comes is skipped with a
  warning: the loop goes on with the remaining entries from the same file system and
  with the same flag, so the entry stages nothing and aborts nothing. A list of paths
  that are all missing therefore ends the loop normally, with the file system as it
  was and one warning for each entry; and a run of \<open>compile\<close> with such a list, once
  the bundler has succeeded and the assets directory could be made, goes on to call
  the packager (with no assets option).
\<close>

theorem missing_asset_is_skipped:
  "(\<not> existsSync (fs st) (path_resolve (cwd env) a) \<longrightarrow>
      copyAssets env dir (Some a # rest) h st
        = copyAssets env dir rest h
            (emit (ConsoleWarn (''Warning: Asset not found: '' @ path_string (path_resolve (cwd env) a)))
               (emit (ConsoleLog (''Copying asset: '' @ path_string (path_resolve (cwd env) a))) st)))
   \<and> ((\<forall>a\<in>set xs. \<not> existsSync (fs st) (path_resolve (cwd env) a)) \<longrightarrow>
      fst (copyAssets env dir (map Some xs) h st) = Inr h
      \<and> fs (snd (copyAssets env dir (map Some xs) h st)) = fs st
      \<and> filter (\<lambda>e. case e of ConsoleWarn m \<Rightarrow> True | _ \<Rightarrow> False)
           (trace (snd (copyAssets env dir (map Some xs) h st)))
        = filter (\<lambda>e. case e of ConsoleWarn m \<Rightarrow> True | _ \<Rightarrow> False) (trace st)
          @ map (\<lambda>a. ConsoleWarn (''Warning: Asset not found: '' @ path_string (path_resolve (cwd env) a))) xs)
   \<and> (existsSync (fs st0) (entryPointPathOf env options)
        \<and> runBundler env (entryPointPathOf env options) (versionOf options) (logEntry env options st0)
            = (Inr (), st2)
        \<and> assetsArrayOf options = map Some ys \<and> ys \<noteq> []
        \<and> ensureDir (fs st2) (tempAssetsDirOf env) = Inr root1
        \<and> (\<forall>a\<in>set ys. \<not> existsSync root1 (path_resolve (cwd env) a)) \<longrightarrow>
      execCommands (trace (snd (compile env options st0)))
        = execCommands (trace st0)
          @ [pkgCommand (bundleFileOf env) (pkgTargets (platformOf env options) (versionOf options)) []
               (outFile options)])"
  using copyAssets_missing [of st env a dir rest h] copyAssets_all_missing [of xs st env dir h]
    compile_all_missing [of st0 env options st2 ys root1]
  by blast

theorem missing_asset_is_skipped_witness:
  "\<not> existsSync (fs exampleState) (path_resolve (cwd exampleEnv) ''nothing'')
   \<and> copyAssets exampleEnv (tempAssetsDirOf exampleEnv) [Some ''nothing'', Some ''config.json''] False exampleState
       = copyAssets exampleEnv (tempAssetsDirOf exampleEnv) [Some ''config.json''] False
           (exampleState\<lparr>trace := [ConsoleLog ''Copying asset: /work/nothing'',
                                     ConsoleWarn ''Warning: Asset not found: /work/nothing'']\<rparr>)
   \<and> \<not> existsSync (fs exampleState) (path_resolve (cwd exampleEnv) ''none'')
   \<and> copyAssets exampleEnv (tempAssetsDirOf exampleEnv) (map Some [''nothing'', ''none'']) False exampleState
       = (Inr False,
          exampleState\<lparr>trace := [ConsoleLog ''Copying asset: /work/nothing'',
                                   ConsoleWarn ''Warning: Asset not found: /work/nothing'',
                                   ConsoleLog ''Copying asset: /work/none'',
                                   ConsoleWarn ''Warning: Asset not found: /work/none'']\<rparr>)
   \<and> fs (snd (copyAssets exampleEnv (tempAssetsDirOf exampleEnv) (map Some [''nothing'', ''none'']) False
                 exampleState)) = exampleRoot
   \<and> execCommands (trace (snd (compile exampleEnv missingOptions exampleState)))
       = [''npx pkg /work/.ts-compiler-bin-temp/bundle.js --targets node16-linux-x64  --output out'']"
proof -
  note t = missing_asset_is_skipped
  have r: "path_resolve (cwd exampleEnv) ''nothing'' = [''work'', ''nothing'']"
    "path_resolve (cwd exampleEnv) ''none'' = [''work'', ''none'']"
    by (simp_all add: exampleEnv_def path_resolve_def path_join_def applySegment_def)
  have m1: "\<not> existsSync (fs exampleState) (path_resolve (cwd exampleEnv) ''nothing'')"
    by (simp add: r exampleState_def exampleRoot_def existsSync_def)
  have m2: "\<forall>a\<in>set [''nothing'', ''none'']. \<not> existsSync (fs exampleState) (path_resolve (cwd exampleEnv) a)"
    by (simp add: r exampleState_def exampleRoot_def existsSync_def)
  have a: "copyAssets exampleEnv (tempAssetsDirOf exampleEnv) [Some ''nothing'', Some ''config.json''] False exampleState
       = copyAssets exampleEnv (tempAssetsDirOf exampleEnv) [Some ''config.json''] False
           (exampleState\<lparr>trace := [ConsoleLog ''Copying asset: /work/nothing'',
                                     ConsoleWarn ''Warning: Asset not found: /work/nothing'']\<rparr>)"
    using t [THEN conjunct1, rule_format, OF m1, of "tempAssetsDirOf exampleEnv" "[Some ''config.json'']" False]
    by (simp add: r path_string_def emit_def exampleState_def)
  have b: "copyAssets exampleEnv (tempAssetsDirOf exampleEnv) (map Some [''nothing'', ''none'']) False exampleState
       = (Inr False,
          exampleState\<lparr>trace := [ConsoleLog ''Copying asset: /work/nothing'',
                                   ConsoleWarn ''Warning: Asset not found: /work/nothing'',
                                   ConsoleLog ''Copying asset: /work/none'',
                                   ConsoleWarn ''Warning: Asset not found: /work/none'']\<rparr>)"
    by code_simp
  let ?root1 = "Dir [(''work'',
           Dir [(''main.ts'', File ''console.log(1)''),
                (''config.json'', File ''{}''),
                (''images'', Dir [(''a.png'', File ''PNG'')]),
                (''.ts-compiler-bin-temp'', Dir [(''bundle.js'', File ''main()''), (''assets'', Dir [])])])]"
  let ?b = "runBundler exampleEnv (entryPointPathOf exampleEnv missingOptions) (versionOf missingOptions)
              (logEntry exampleEnv missingOptions exampleState)"
  have h1: "existsSync (fs exampleState) (entryPointPathOf exampleEnv missingOptions)"
    by code_simp
  have "fst ?b = Inr ()" by code_simp
  then have h2: "?b = (Inr (), snd ?b)" by (cases ?b) simp
  have h3: "assetsArrayOf missingOptions = map Some [''nothing'', ''none'']"
    by (simp add: assetsArrayOf_def missingOptions_def)
  have h4: "ensureDir (fs (snd ?b)) (tempAssetsDirOf exampleEnv) = Inr ?root1"
    by code_simp
  have h5: "\<forall>a\<in>set [''nothing'', ''none'']. \<not> existsSync ?root1 (path_resolve (cwd exampleEnv) a)"
    by (simp add: r existsSync_def)
  have c: "execCommands (trace (snd (compile exampleEnv missingOptions exampleState)))
       = [''npx pkg /work/.ts-compiler-bin-temp/bundle.js --targets node16-linux-x64  --output out'']"
    using t [THEN conjunct2, THEN conjunct2, rule_format, of exampleState exampleEnv missingOptions "snd ?b"
               "[''nothing'', ''none'']" ?root1] h1 h2 h3 h4 h5
    by (simp add: exampleState_def pkgCommand_def pkgTargets_def platformOf_def versionOf_def
          missingOptions_def exampleOptions_def bundleFileOf_def tempDirOf_def exampleEnv_def
          path_string_def js_string_def)
  have b': "fs (snd (copyAssets exampleEnv (tempAssetsDirOf exampleEnv) (map Some [''nothing'', ''none'']) False
                 exampleState)) = exampleRoot"
    using m2 t [where xs = "[''nothing'', ''none'']" and st = exampleState and env = exampleEnv
                  and dir = "tempAssetsDirOf exampleEnv" and h = False, THEN conjunct2, THEN conjunct1]
    by (simp add: exampleState_def)
  have m3: "\<not> existsSync (fs exampleState) (path_resolve (cwd exampleEnv) ''none'')"
    using m2 by simp
  show ?thesis using m1 m3 a b b' c by blast
qed

section \<open>The lookup order of the injected helper\<close>

text \<open>
  Read as it stands, the claim fails outside the packaging runtime: the file under the
  snapshot path exists and comes before the one beside the bundle source, yet the
  helper returns the latter.
\<close>

theorem asset_lookup_counterexample:
  "firstExisting helperRoot (specCandidates helperRuntime ''f.txt'') ''f.txt'' = Inr ''from snapshot''
   \<and> fst (readAsset helperRuntime helperRoot ''f.txt'') = Inr ''from dev''
   \<and> fst (readAsset helperRuntime helperRoot ''f.txt'')
       \<noteq> firstExisting helperRoot (specCandidates helperRuntime ''f.txt'') ''f.txt''"
  by (simp add: firstExisting_def specCandidates_def helperRuntime_def helperRoot_def readAsset_def
        readAssetBody_def readUtf8_def readFileSync_def existsSync_def path_join_def
        applySegment_def Let_def)

text \<open>
  Claim C6, amended. For every requested file name the helper tries, in this order, the
  assets directory beside the running executable, the assets directory under the
  working directory, the snapshot path \<open>/snapshot/assets\<close> only when \<open>process.pkg\<close>
  is set, and the assets directory beside the bundle source. It reads the first
  candidate that exists: the result is the content of that file, or the read error
  when that candidate is a directory. When no candidate exists it fails with
  \<open>Asset file not found: <filename>\<close>. Every failure is logged with the file name
  and thrown again.
\<close>

theorem asset_lookup_order:
  "fst (readAsset rt root filename) = firstExisting root (assetCandidates rt filename) filename
   \<and> snd (readAsset rt root filename)
       = (case firstExisting root (assetCandidates rt filename) filename of
            Inl e \<Rightarrow> [ConsoleErrorWith (''Error reading asset file '' @ filename @ '':'') e]
          | Inr c \<Rightarrow> [])"
proof -
  have "readAssetBody rt root filename = firstExisting root (assetCandidates rt filename) filename"
    by (simp add: readAssetBody_def firstExisting_def assetCandidates_def Let_def)
  then show ?thesis
    by (simp add: readAsset_def split: sum.splits)
qed

theorem asset_lookup_order_witness:
  "fst (readAsset (helperRuntime\<lparr>rt_pkg := True\<rparr>) helperRoot ''f.txt'') = Inr ''from snapshot''
   \<and> fst (readAsset helperRuntime helperRoot ''f.txt'') = Inr ''from dev''
   \<and> readAsset helperRuntime helperRoot ''g.txt''
       = (Inl (Error ''Asset file not found: g.txt''),
          [ConsoleErrorWith ''Error reading asset file g.txt:'' (Error ''Asset file not found: g.txt'')])
   \<and> fst (readAsset helperRuntime helperRoot ''.'') = Inl (SystemError EISDIR [''src'', ''assets''])"
proof -
  have a: "firstExisting helperRoot (assetCandidates (helperRuntime\<lparr>rt_pkg := True\<rparr>) ''f.txt'') ''f.txt''
             = Inr ''from snapshot''"
    by (simp add: firstExisting_def assetCandidates_def helperRuntime_def helperRoot_def
        readUtf8_def readFileSync_def existsSync_def path_join_def applySegment_def)
  have b: "firstExisting helperRoot (assetCandidates helperRuntime ''f.txt'') ''f.txt'' = Inr ''from dev''"
    by (simp add: firstExisting_def assetCandidates_def helperRuntime_def helperRoot_def
        readUtf8_def readFileSync_def existsSync_def path_join_def applySegment_def)
  have c: "firstExisting helperRoot (assetCandidates helperRuntime ''g.txt'') ''g.txt''
             = Inl (Error ''Asset file not found: g.txt'')"
    by (simp add: firstExisting_def assetCandidates_def helperRuntime_def helperRoot_def
        readUtf8_def readFileSync_def existsSync_def path_join_def applySegment_def)
  have d: "firstExisting helperRoot (assetCandidates helperRuntime ''.'') ''.''
             = Inl (SystemError EISDIR [''src'', ''assets''])"
    by (simp add: firstExisting_def assetCandidates_def helperRuntime_def helperRoot_def
        readUtf8_def readFileSync_def existsSync_def path_join_def applySegment_def)
  show ?thesis
    using asset_lookup_order [of "helperRuntime\<lparr>rt_pkg := True\<rparr>" helperRoot "''f.txt''"]
      asset_lookup_order [of helperRuntime helperRoot "''f.txt''"]
      asset_lookup_order [of helperRuntime helperRoot "''g.txt''"]
      asset_lookup_order [of helperRuntime helperRoot "''.''"]
    by (simp add: a b c d prod_eq_iff)
qed

section \<open>Copying, path by path\<close>

lemma readdirSync_entries:
  assumes "readdirSync root p = Inr entries"
  shows "statAt root p = Some IsDir"
    and "distinct (map fst entries)"
    and "(n, True) \<in> set entries \<longleftrightarrow> statAt root (p @ [n]) = Some IsDir"
    and "(n, False) \<in> set entries \<longleftrightarrow> (\<exists>c. statAt root (p @ [n]) = Some (IsFile c))"
proof -
  from assms obtain es where l: "lookup root p = Some (Dir es)"
    and e: "entries = map (\<lambda>e. (fst e, isDirectory (snd e))) (AList.clearjunk es)"
    by (auto simp: readdirSync_def split: option.splits node.splits)
  show "statAt root p = Some IsDir"
    using l by (simp add: statAt_def)
  have fsts: "map fst entries = map fst (AList.clearjunk es)"
    by (simp add: e comp_def)
  show "distinct (map fst entries)"
    unfolding fsts by (rule AList.distinct_clearjunk)
  have mem: "(n, b) \<in> set entries \<longleftrightarrow> (\<exists>c. map_of es n = Some c \<and> b = isDirectory c)" for b
  proof -
    have "(n, b) \<in> set entries \<longleftrightarrow> (\<exists>c. (n, c) \<in> set (AList.clearjunk es) \<and> b = isDirectory c)"
      by (force simp: e image_iff)
    also have "\<dots> \<longleftrightarrow> (\<exists>c. map_of (AList.clearjunk es) n = Some c \<and> b = isDirectory c)"
      by (simp add: map_of_eq_Some_iff)
    finally show ?thesis
      by (simp add: AList.map_of_clearjunk)
  qed
  have st: "statAt root (p @ [n]) = map_option kindOf (map_of es n)"
    using l by (simp add: statAt_append statAt_Dir_Cons split: option.splits)
  show "(n, True) \<in> set entries \<longleftrightarrow> statAt root (p @ [n]) = Some IsDir"
    unfolding mem st
    by (cases "map_of es n") (auto elim: isDirectory.elims kindOf.elims)
  show "(n, False) \<in> set entries \<longleftrightarrow> (\<exists>c. statAt root (p @ [n]) = Some (IsFile c))"
    unfolding mem st
    by (cases "map_of es n") (auto elim: isDirectory.elims kindOf.elims)
qed

lemma readdirSync_succeeds:
  "statAt root p = Some IsDir \<Longrightarrow> \<exists>entries. readdirSync root p = Inr entries"
  by (auto simp: readdirSync_def statAt_def split: option.splits node.splits)

lemma copyFileSync_statAt:
  assumes "copyFileSync root src dst = (None, root')"
  shows "\<exists>c. statAt root src = Some (IsFile c)
             \<and> (\<forall>p. statAt root' p = (if p = dst then Some (IsFile c) else statAt root p))"
proof -
  from assms obtain c where r: "readFileSync root src = Inr c" and w: "writeFileSync root dst c = Inr root'"
    by (auto simp: copyFileSync_def split: sum.splits)
  from r have "statAt root src = Some (IsFile c)"
    by (auto simp: readFileSync_statAt split: option.splits kind.splits)
  with writeFileSync_statAt [OF w] show ?thesis by blast
qed

lemma copyFileSync_frame:
  assumes "copyFileSync root src dst = (res, root')" and "p \<noteq> dst"
  shows "statAt root' p = statAt root p"
proof (cases res)
  case None
  with assms copyFileSync_statAt [of root src dst root'] show ?thesis by auto
next
  case (Some e)
  with assms(1) have "root' = root"
    by (auto simp: copyFileSync_def split: sum.splits)
  then show ?thesis by simp
qed

lemma copyFileSync_succeeds:
  assumes "statAt root src = Some (IsFile c)" and "dst \<noteq> []"
    and "statAt root (butlast dst) = Some IsDir" and "statAt root dst \<noteq> Some IsDir"
  shows "\<exists>root'. copyFileSync root src dst = (None, root')"
proof -
  from assms(1) have "readFileSync root src = Inr c"
    by (simp add: readFileSync_statAt)
  moreover from writeFileSync_succeeds [OF assms(2,3,4)]
  obtain root' where "writeFileSync root dst c = Inr root'" by blast
  ultimately show ?thesis
    by (simp add: copyFileSync_def)
qed

lemma ensureDir_statAt:
  assumes "ensureDir root q = Inr root'"
  shows "statAt root' p = (if statAt root q = None \<and> prefix p q then Some IsDir else statAt root p)"
proof (cases "existsSync root q")
  case True
  with assms show ?thesis by (auto simp: ensureDir_def existsSync_statAt)
next
  case False
  with assms have "mkdirSync root q = Inr root'"
    by (auto simp: ensureDir_def split: sum.splits)
  from mkdirSync_statAt [OF this] False show ?thesis
    by (simp add: existsSync_statAt)
qed

lemma ensureDir_frame:
  assumes "ensureDir root q = Inr root'" and "\<not> prefix p q"
  shows "statAt root' p = statAt root p"
  using ensureDir_statAt [OF assms(1)] assms(2) by simp

lemma forEachEntry_preserves:
  assumes "forEachEntry body es root = (res, root')"
    and "\<And>e r res' r'. e \<in> set es \<Longrightarrow> body e r = (res', r') \<Longrightarrow> P r \<Longrightarrow> P r'"
    and "P root"
  shows "P root'"
  using assms
proof (induction es arbitrary: root)
  case Nil
  then show ?case by simp
next
  case (Cons e es)
  obtain res1 r1 where b: "body e root = (res1, r1)" by (cases "body e root")
  have p1: "P r1" using Cons.prems(2) [OF _ b Cons.prems(3)] by simp
  show ?case
  proof (cases res1)
    case None
    with b Cons.prems(1) have "forEachEntry body es r1 = (res, root')" by simp
    show ?thesis
    proof (rule Cons.IH [OF \<open>forEachEntry body es r1 = (res, root')\<close> _ p1])
      fix e' r res' r'
      assume "e' \<in> set es" and "body e' r = (res', r')" and "P r"
      then show "P r'" using Cons.prems(2) [of e' r res' r'] by simp
    qed
  next
    case (Some err)
    with b Cons.prems(1) have "root' = r1" by simp
    with p1 show ?thesis by simp
  qed
qed

lemma prefix_snoc_outside:
  assumes "\<not> prefix tgt p" and "\<not> prefix p tgt"
  shows "\<not> prefix (tgt @ [n]) p" and "\<not> prefix p (tgt @ [n])" and "p \<noteq> tgt @ [n]"
  using assms by (auto simp: prefix_def append_eq_append_conv2 Cons_eq_append_conv)

lemma copyDirectoryRecursive_frame:
  assumes "copyDirectoryRecursive d src tgt root = (res, root')"
    and "\<not> prefix tgt p" and "\<not> prefix p tgt"
  shows "statAt root' p = statAt root p"
  using assms
proof (induction d arbitrary: src tgt root res root')
  case 0
  then show ?case by simp
next
  case (Suc d)
  show ?case
  proof (cases "ensureDir root tgt")
    case (Inl e)
    with Suc.prems(1) show ?thesis by simp
  next
    case (Inr root1)
    have s1: "statAt root1 p = statAt root p"
      using ensureDir_frame [OF Inr Suc.prems(3)] .
    show ?thesis
    proof (cases "readdirSync root1 src")
      case (Inl e)
      with Inr Suc.prems(1) s1 show ?thesis by simp
    next
      case entries: (Inr entries)
      let ?body = "\<lambda>entry r.
                    if snd entry
                    then copyDirectoryRecursive d (src @ [fst entry]) (tgt @ [fst entry]) r
                    else copyFileSync r (src @ [fst entry]) (tgt @ [fst entry])"
      have loop: "forEachEntry ?body entries root1 = (res, root')"
        using Suc.prems(1) Inr entries by simp
      have "statAt root' p = statAt root p"
      proof (rule forEachEntry_preserves [OF loop, where P = "\<lambda>r. statAt r p = statAt root p"])
        fix e r res' r'
        assume b: "?body e r = (res', r')" and i: "statAt r p = statAt root p"
        show "statAt r' p = statAt root p"
        proof (cases "snd e")
          case True
          with b have "copyDirectoryRecursive d (src @ [fst e]) (tgt @ [fst e]) r = (res', r')" by simp
          from Suc.IH [OF this prefix_snoc_outside(1,2) [OF Suc.prems(2,3)]] i show ?thesis by simp
        next
          case False
          with b have "copyFileSync r (src @ [fst e]) (tgt @ [fst e]) = (res', r')" by simp
          from copyFileSync_frame [OF this prefix_snoc_outside(3) [OF Suc.prems(2,3)]] i show ?thesis by simp
        qed
      qed (rule s1)
      then show ?thesis .
    qed
  qed
qed

lemma copyDirectoryContents_eq: "copyDirectoryContents d = copyDirectoryRecursive d"
  by (cases d) (simp_all add: copyDirectoryContents_def fun_eq_iff)

section \<open>The helper in front of the bundle\<close>

lemma copyAssets_frame:
  assumes "copyAssets env dir xs h st = (res, st')" and "\<not> prefix dir p" and "\<not> prefix p dir"
  shows "statAt (fs st') p = statAt (fs st) p"
  using assms(1)
proof (induction xs arbitrary: h st)
  case Nil
  then show ?case by simp
next
  case (Cons x xs)
  show ?case
  proof (cases x)
    case None
    with Cons.prems show ?thesis by simp
  next
    case (Some a)
    let ?ap = "path_resolve (cwd env) a"
    let ?st1 = "emit (ConsoleLog (''Copying asset: '' @ path_string ?ap)) st"
    show ?thesis
    proof (cases "lookup (fs st) ?ap")
      case None
      with Some Cons.prems
      have "copyAssets env dir xs h
              (emit (ConsoleWarn (''Warning: Asset not found: '' @ path_string ?ap)) ?st1) = (res, st')"
        by (simp add: Let_def)
      from Cons.IH [OF this] show ?thesis by simp
    next
      case found: (Some n)
      show ?thesis
      proof (cases "isDirectory n")
        case True
        obtain r1 root1 where c: "copyDirectoryContents (stackLimit env) ?ap dir (fs st) = (r1, root1)"
          by (cases "copyDirectoryContents (stackLimit env) ?ap dir (fs st)")
        have f1: "statAt root1 p = statAt (fs st) p"
          using c assms(2,3) by (simp add: copyDirectoryContents_eq copyDirectoryRecursive_frame)
        show ?thesis
        proof (cases r1)
          case None
          with Some found True c Cons.prems
          have "copyAssets env dir xs True
                  (emit (ConsoleLog (''Directory contents copied: '' @ path_string ?ap
                                      @ '' -> '' @ path_string dir)) (?st1\<lparr>fs := root1\<rparr>)) = (res, st')"
            by (simp add: Let_def)
          from Cons.IH [OF this] f1 show ?thesis by simp
        next
          case (Some e)
          with \<open>x = Some a\<close> found True c Cons.prems have "fs st' = root1"
            by (auto simp: Let_def)
          with f1 show ?thesis by simp
        qed
      next
        case False
        let ?tf = "if ?ap = [] then dir else dir @ [path_basename ?ap]"
        obtain r1 root1 where c: "copyFileSync (fs st) ?ap ?tf = (r1, root1)"
          by (cases "copyFileSync (fs st) ?ap ?tf")
        have "p \<noteq> ?tf" using assms(2) by auto
        from copyFileSync_frame [OF c this] have f1: "statAt root1 p = statAt (fs st) p" .
        show ?thesis
        proof (cases r1)
          case None
          with Some found False c Cons.prems
          have "copyAssets env dir xs True
                  (emit (ConsoleLog (''File copied: '' @ path_string ?ap
                                      @ '' -> '' @ path_string ?tf)) (?st1\<lparr>fs := root1\<rparr>)) = (res, st')"
            by (simp add: Let_def)
          from Cons.IH [OF this] f1 show ?thesis by simp
        next
          case (Some e)
          with \<open>x = Some a\<close> found False c Cons.prems have "fs st' = root1"
            by (auto simp: Let_def)
          with f1 show ?thesis by simp
        qed
      qed
    qed
  qed
qed

lemma copyAssets_flag:
  assumes "copyAssets env dir xs h st = (Inr h', st')"
  shows "h' \<longleftrightarrow> h \<or> (\<exists>a. Some a \<in> set xs \<and> existsSync (fs st) (path_resolve (cwd env) a))"
  using assms
proof (induction xs arbitrary: h st)
  case Nil
  then show ?case by simp
next
  case (Cons x xs)
  show ?case
  proof (cases x)
    case None
    with Cons.prems show ?thesis by simp
  next
    case (Some a)
    let ?ap = "path_resolve (cwd env) a"
    show ?thesis
    proof (cases "lookup (fs st) ?ap")
      case None
      with Some Cons.prems
      have "copyAssets env dir xs h
              (emit (ConsoleWarn (''Warning: Asset not found: '' @ path_string ?ap))
                 (emit (ConsoleLog (''Copying asset: '' @ path_string ?ap)) st)) = (Inr h', st')"
        by (simp add: Let_def)
      from Cons.IH [OF this] None Some show ?thesis
        by (auto simp: existsSync_def)
    next
      case found: (Some n)
      from Cons.prems Some found obtain st1 where "copyAssets env dir xs True st1 = (Inr h', st')"
        by (auto simp: Let_def split: if_splits prod.splits option.splits)
      from Cons.IH [OF this] have h' by simp
      with Some found show ?thesis by (auto simp: existsSync_def)
    qed
  qed
qed

lemma injectHelper_prepends:
  assumes "injectHelper b st = (Inr u, st')"
  shows "\<exists>c. readFileSync (fs st) b = Inr c \<and> readFileSync (fs st') b = Inr (assetHelperCode @ c)"
proof -
  from assms obtain c root' where r: "readFileSync (fs st) b = Inr c"
    and w: "writeFileSync (fs st) b (assetHelperCode @ c) = Inr root'" and f: "fs st' = root'"
    by (auto simp: injectHelper_def Let_def split: sum.splits)
  from writeFileSync_statAt [OF w, of b] f have "readFileSync (fs st') b = Inr (assetHelperCode @ c)"
    by (simp add: readFileSync_statAt)
  with r show ?thesis by blast
qed

lemma bundle_outside_assets:
  "\<not> prefix (tempAssetsDirOf env) (bundleFileOf env)" "\<not> prefix (bundleFileOf env) (tempAssetsDirOf env)"
  by (simp_all add: tempAssetsDirOf_def bundleFileOf_def)

lemma stageAssets_bundle:
  assumes "stageAssets env xs st = (Inr hasAssets, st')"
  shows "(hasAssets \<longleftrightarrow>
            (\<exists>root1 a. ensureDir (fs st) (tempAssetsDirOf env) = Inr root1
                \<and> Some a \<in> set xs \<and> existsSync root1 (path_resolve (cwd env) a)))
         \<and> (hasAssets \<longrightarrow>
              (\<exists>c. readFileSync (fs st) (bundleFileOf env) = Inr c
                 \<and> readFileSync (fs st') (bundleFileOf env) = Inr (assetHelperCode @ c)))
         \<and> (\<not> hasAssets \<longrightarrow> statAt (fs st') (bundleFileOf env) = statAt (fs st) (bundleFileOf env))"
proof (cases "xs = []")
  case True
  with assms show ?thesis by (simp add: stageAssets_def)
next
  case False
  let ?A = "tempAssetsDirOf env" and ?b = "bundleFileOf env"
  let ?st1 = "emit (ConsoleLog ''Copying assets...'') st"
  from assms False obtain root1 st2 st3 u where e: "ensureDir (fs st) ?A = Inr root1"
    and c: "copyAssets env ?A xs False (?st1\<lparr>fs := root1\<rparr>) = (Inr hasAssets, st2)"
    and i: "(if hasAssets then injectHelper ?b st2 else (Inr (), st2)) = (Inr u, st3)"
    and f: "fs st' = fs st3"
    by (auto simp: stageAssets_def Let_def split: sum.splits prod.splits)
  have flag: "hasAssets \<longleftrightarrow> (\<exists>a. Some a \<in> set xs \<and> existsSync root1 (path_resolve (cwd env) a))"
    using copyAssets_flag [OF c] by simp
  have b1: "statAt root1 ?b = statAt (fs st) ?b"
    using ensureDir_frame [OF e bundle_outside_assets(2)] .
  have b2: "statAt (fs st2) ?b = statAt (fs st) ?b"
    using copyAssets_frame [OF c bundle_outside_assets] b1 by simp
  have r2: "readFileSync (fs st2) ?b = readFileSync (fs st) ?b"
    by (simp add: readFileSync_statAt b2)
  show ?thesis
  proof (cases hasAssets)
    case True
    with i have "injectHelper ?b st2 = (Inr u, st3)" by simp
    from injectHelper_prepends [OF this] r2 f True flag e show ?thesis by auto
  next
    case False
    with i have "st3 = st2" by simp
    with False flag e b2 f show ?thesis by auto
  qed
qed




section \<open>The README among the staged assets\<close>

lemma forEachEntry_success:
  assumes "forEachEntry body es root = (None, root')"
    and "I [] root"
    and "\<And>pre e post r r'. es = pre @ e # post \<Longrightarrow> I pre r \<Longrightarrow> body e r = (None, r') \<Longrightarrow> I (pre @ [e]) r'"
  shows "I es root'"
  using assms
proof (induction es arbitrary: root I)
  case Nil
  then show ?case by simp
next
  case (Cons e es)
  from Cons.prems(1) obtain r1 where b: "body e root = (None, r1)"
    and l: "forEachEntry body es r1 = (None, root')"
    by (auto split: prod.splits option.splits)
  have i1: "I [e] r1"
    using Cons.prems(3) [of "[]" e es root r1] Cons.prems(2) b by simp
  have "(\<lambda>pre. I (e # pre)) es root'"
  proof (rule Cons.IH [OF l])
    show "I [e] r1" by (rule i1)
  next
    fix pre e' post r r'
    assume "es = pre @ e' # post" and "I (e # pre) r" and "body e' r = (None, r')"
    then show "I (e # pre @ [e']) r'"
      using Cons.prems(3) [of "e # pre" e' post r r'] by simp
  qed
  then show ?case .
qed

lemma incomparable_append:
  assumes "\<not> prefix a b" and "\<not> prefix b a"
  shows "\<not> prefix (a @ x) (b @ y)"
proof
  assume "prefix (a @ x) (b @ y)"
  then have "prefix a (b @ y)" by (meson append_prefixD)
  moreover have "prefix b (b @ y)" by simp
  ultimately have "prefix a b \<or> prefix b a" by (rule prefix_same_cases)
  with assms show False by blast
qed

lemma writeReadme_statAt:
  assumes "writeReadme env True st = Inr st1"
  shows "statAt (fs st1) p = (if p = readmePathOf env then Some (IsFile readmeText) else statAt (fs st) p)"
    and "trace st1 = trace st"
proof -
  from assms obtain root' where w: "writeFileSync (fs st) (readmePathOf env) readmeText = Inr root'"
    and s: "st1 = st\<lparr>fs := root'\<rparr>"
    by (auto simp: writeReadme_def split: sum.splits)
  from writeFileSync_statAt [OF w] s
  show "statAt (fs st1) p = (if p = readmePathOf env then Some (IsFile readmeText) else statAt (fs st) p)"
    by simp
  from s show "trace st1 = trace st" by simp
qed

lemma writeReadme_succeeds:
  assumes "statAt (fs st) (tempAssetsDirOf env) = Some IsDir"
    and "statAt (fs st) (readmePathOf env) \<noteq> Some IsDir"
  shows "\<exists>st1. writeReadme env True st = Inr st1"
proof -
  have "butlast (readmePathOf env) = tempAssetsDirOf env"
    by (simp add: readmePathOf_def tempAssetsDirOf_def butlast_append)
  with assms writeFileSync_succeeds [of "readmePathOf env" "fs st" readmeText]
  obtain root' where "writeFileSync (fs st) (readmePathOf env) readmeText = Inr root'"
    by (auto simp: readmePathOf_def)
  then show ?thesis by (simp add: writeReadme_def)
qed

text \<open>Copying a directory that holds a file copies that file to the target.\<close>

lemma copyDirectoryRecursive_copies_file:
  assumes c: "copyDirectoryRecursive d src tgt root = (None, root')"
    and f: "statAt root (src @ [name]) = Some (IsFile text)"
    and o: "\<not> prefix src tgt" "\<not> prefix tgt src"
  shows "statAt root' (tgt @ [name]) = Some (IsFile text)"
proof (cases d)
  case 0
  with c show ?thesis by simp
next
  case (Suc d')
  let ?body = "\<lambda>entry r.
                 if snd entry
                 then copyDirectoryRecursive d' (src @ [fst entry]) (tgt @ [fst entry]) r
                 else copyFileSync r (src @ [fst entry]) (tgt @ [fst entry])"
  from c Suc obtain root1 entries where e: "ensureDir root tgt = Inr root1"
    and rd: "readdirSync root1 src = Inr entries"
    and loop: "forEachEntry ?body entries root1 = (None, root')"
    by (auto split: sum.splits)
  have src_out: "\<not> prefix (src @ x) tgt" for x
    using incomparable_append [OF o, of x "[]"] by simp
  have f1: "statAt root1 (src @ [name]) = Some (IsFile text)"
    using ensureDir_frame [OF e src_out] f by simp
  have listed: "(name, False) \<in> set entries"
    using readdirSync_entries(4) [OF rd] f1 by blast
  have not_dir: "(name, True) \<notin> set entries"
    using readdirSync_entries(3) [OF rd] f1 by simp
  let ?I = "\<lambda>pre r. statAt r (src @ [name]) = Some (IsFile text)
                 \<and> ((name, False) \<in> set pre \<longrightarrow> statAt r (tgt @ [name]) = Some (IsFile text))"
  have "?I entries root'"
  proof (rule forEachEntry_success [OF loop, where I = ?I])
    show "?I [] root1" using f1 by simp
  next
    fix pre e post r r'
    assume es: "entries = pre @ e # post" and i: "?I pre r" and b: "?body e r = (None, r')"
    obtain n k where e_def: "e = (n, k)" by (cases e)
    show "?I (pre @ [e]) r'"
    proof (cases "n = name")
      case True
      with es e_def not_dir have "\<not> k" by auto
      with b e_def True have cf: "copyFileSync r (src @ [name]) (tgt @ [name]) = (None, r')" by simp
      from copyFileSync_statAt [OF cf] i
      have "\<forall>p. statAt r' p = (if p = tgt @ [name] then Some (IsFile text) else statAt r p)"
        by auto
      with i show ?thesis by auto
    next
      case False
      have out1: "\<not> prefix (tgt @ [n]) (src @ [name])" "\<not> prefix (src @ [name]) (tgt @ [n])"
        using incomparable_append [OF o(2,1)] incomparable_append [OF o] by blast+
      have out2: "\<not> prefix (tgt @ [n]) (tgt @ [name])" "\<not> prefix (tgt @ [name]) (tgt @ [n])"
        using False by auto
      have same: "statAt r' p = statAt r p"
        if "\<not> prefix (tgt @ [n]) p" and "\<not> prefix p (tgt @ [n])" for p
      proof (cases k)
        case True
        with b e_def have "copyDirectoryRecursive d' (src @ [n]) (tgt @ [n]) r = (None, r')" by simp
        from copyDirectoryRecursive_frame [OF this that] show ?thesis .
      next
        case False
        with b e_def have "copyFileSync r (src @ [n]) (tgt @ [n]) = (None, r')" by simp
        from copyFileSync_frame [OF this] that show ?thesis by auto
      qed
      have "(name, False) \<in> set (pre @ [e]) \<longleftrightarrow> (name, False) \<in> set pre"
        using False e_def by auto
      with i same [OF out1] same [OF out2] show ?thesis by simp
    qed
  qed
  with listed show ?thesis by simp
qed


lemma package_copies_readme:
  assumes w: "writeReadme env True (emit (ConsoleLog ''Creating executable binary...'') st) = Inr st1"
    and x: "execAsync env (pkgCommand (bundleFileOf env) (pkgTargets p v)
                             (pkgAssetsOption (tempDirOf env) True) out) (fs st1) = (None, rootP)"
    and kept: "statAt rootP (readmePathOf env) = Some (IsFile readmeText)"
    and dir: "exeAssetsDirOf env out = Inr exeDir"
    and o: "\<not> prefix exeDir (tempDirOf env)" "\<not> prefix (tempDirOf env) exeDir"
    and ok: "fst (package env p v out True st) = Inr ()"
  shows "statAt (fs (snd (package env p v out True st))) (exeDir @ [''README.md'']) = Some (IsFile readmeText)"
proof -
  let ?cmd = "pkgCommand (bundleFileOf env) (pkgTargets p v) (pkgAssetsOption (tempDirOf env) True) out"
  let ?A = "tempAssetsDirOf env"
  obtain res st2 where rp: "runPackager env ?cmd out True st1 = (res, st2)"
    by (cases "runPackager env ?cmd out True st1")
  from ok w rp have res: "res = Inr ()"
    and final: "snd (package env p v out True st) = st2\<lparr>fs := rmSync (fs st2) (tempDirOf env)\<rparr>"
    by (auto simp: package_def Let_def split: sum.splits)
  from rp res x dir obtain root2 root3 where e: "ensureDir rootP exeDir = Inr root2"
    and c: "copyDirectoryContents (stackLimit env) ?A exeDir root2 = (None, root3)"
    and f: "fs st2 = root3"
    by (auto simp: runPackager_def Let_def split: sum.splits prod.splits option.splits)
  have readme: "readmePathOf env = ?A @ [''README.md'']"
    by (simp add: readmePathOf_def tempAssetsDirOf_def)
  have oa: "\<not> prefix ?A exeDir" "\<not> prefix exeDir ?A"
    using incomparable_append [OF o(2,1), of "[''assets'']" "[]"]
      incomparable_append [OF o, of "[]" "[''assets'']"]
    by (simp_all add: tempAssetsDirOf_def)
  have "\<not> prefix (readmePathOf env) exeDir"
    using incomparable_append [OF o(2,1), of "[''assets'', ''README.md'']" "[]"]
    by (simp add: readmePathOf_def)
  from ensureDir_frame [OF e this] kept
  have k2: "statAt root2 (?A @ [''README.md'']) = Some (IsFile readmeText)"
    by (simp add: readme)
  have "statAt root3 (exeDir @ [''README.md'']) = Some (IsFile readmeText)"
    using copyDirectoryRecursive_copies_file [OF _ k2 oa] c
    by (simp add: copyDirectoryContents_eq)
  moreover have "\<not> prefix (tempDirOf env) (exeDir @ [''README.md''])"
    using incomparable_append [OF o(2,1), of "[]" "[''README.md'']"] by simp
  ultimately show ?thesis
    unfolding final using f by (simp add: rmSync_statAt)
qed

lemma writeFileSync_directory:
  "q \<noteq> [] \<Longrightarrow> statAt root q = Some IsDir \<Longrightarrow> writeFileSync root q c = Inl EISDIR"
proof (induction root q c rule: writeFileSync.induct)
  case (4 es x xs c)
  from "4.prems"(2) obtain n where m: "map_of es x = Some n" and s: "statAt n xs = Some IsDir"
    by (auto simp: statAt_Dir_Cons split: option.splits)
  show ?case
  proof (cases xs)
    case Nil
    with s obtain ds where "n = Dir ds" by (cases n) auto
    with m Nil show ?thesis by simp
  next
    case (Cons y ys)
    with "4.IH" [OF m] s have "writeFileSync n xs c = Inl EISDIR" by simp
    with m show ?thesis by simp
  qed
qed simp_all

lemma package_readme_directory:
  assumes "statAt (fs st) (readmePathOf env) = Some IsDir"
  shows "package env p v out True st
           = (Inl (SystemError EISDIR (readmePathOf env)), emit (ConsoleLog ''Creating executable binary...'') st)"
proof -
  have "writeFileSync (fs st) (readmePathOf env) readmeText = Inl EISDIR"
    using assms by (intro writeFileSync_directory) (simp_all add: readmePathOf_def)
  then show ?thesis
    by (simp add: package_def Let_def writeReadme_def)
qed

text \<open>
  Read as it stands, the claim fails when what is staged under the name is a
  directory: the contents of \<open>docs\<close> are copied, the write of \<open>README.md\<close> then fails
  with \<open>EISDIR\<close>, \<open>compile\<close> rejects, the packager is never called, and the staged
  \<open>README.md\<close> is still the directory.
\<close>

theorem readme_directory_counterexample:
  "fst (compile exampleEnv docsOptions readmeDirState)
     = Inl (SystemError EISDIR [''work'', ''.ts-compiler-bin-temp'', ''assets'', ''README.md''])
   \<and> ConsoleLog ''Directory contents copied: /work/docs -> /work/.ts-compiler-bin-temp/assets''
       \<in> set (trace (snd (compile exampleEnv docsOptions readmeDirState)))
   \<and> execCommands (trace (snd (compile exampleEnv docsOptions readmeDirState))) = []
   \<and> statAt (fs (snd (compile exampleEnv docsOptions readmeDirState)))
         [''work'', ''.ts-compiler-bin-temp'', ''assets'', ''README.md'']
       = Some IsDir"
  by code_simp

text \<open>
  Claim C9, amended. Take a run of \<open>compile\<close> in which the entry point is there, the
  bundler succeeds, a listed asset exists and the staging completes. Then the flag
  \<open>hasAssets\<close> is set, and:

  \<^item> when a directory is staged under the name \<open>README.md\<close>, the write fails with
    \<open>EISDIR\<close>, \<open>compile\<close> rejects with this error and the packager is handed no
    command;

  \<^item> when the staged assets directory is a directory and what is staged under the name
    is a file or nothing, the file \<open>README.md\<close> is written there, replacing the staged
    file and changing nothing else; then \<open>compile\<close> hands the packager its one command,
    with the staged assets as the asset set, and the packager is run on the file system
    that holds this README: an error it answers with is the error of \<open>compile\<close>, and
    when it succeeds and leaves the staged README alone, the output's assets directory
    and the staging directory do not lie inside one another, and \<open>compile\<close> succeeds,
    the \<open>assets\<close> directory beside the output binary holds this \<open>README.md\<close>.
\<close>

theorem readme_written_with_assets:
  "existsSync (fs st) (entryPointPathOf env options)
   \<and> runBundler env (entryPointPathOf env options) (versionOf options) (logEntry env options st) = (Inr (), st2)
   \<and> ensureDir (fs st2) (tempAssetsDirOf env) = Inr made
   \<and> Some a \<in> set (assetsArrayOf options) \<and> existsSync made (path_resolve (cwd env) a)
   \<and> stageAssets env (assetsArrayOf options) st2 = (Inr hasAssets, st3) \<longrightarrow>
   hasAssets
   \<and> (statAt (fs st3) (readmePathOf env) = Some IsDir \<longrightarrow>
        compile env options st
          = (Inl (SystemError EISDIR (readmePathOf env)),
             emit (ConsoleLog ''Creating executable binary...'') st3)
        \<and> execCommands (trace (snd (compile env options st))) = execCommands (trace st))
   \<and> (statAt (fs st3) (tempAssetsDirOf env) = Some IsDir
        \<and> statAt (fs st3) (readmePathOf env) \<noteq> Some IsDir \<longrightarrow>
        (\<exists>st4. writeReadme env hasAssets (emit (ConsoleLog ''Creating executable binary...'') st3) = Inr st4
           \<and> (\<forall>q. statAt (fs st4) q
                    = (if q = readmePathOf env then Some (IsFile readmeText) else statAt (fs st3) q))
           \<and> execCommands (trace (snd (compile env options st)))
               = execCommands (trace st)
                 @ [pkgCommand (bundleFileOf env) (pkgTargets (platformOf env options) (versionOf options))
                      (''--assets '' @ dquote @ path_string (tempDirOf env) @ ''/assets/**/*'' @ dquote)
                      (outFile options)]
           \<and> (\<forall>e rootP.
                 execAsync env
                   (pkgCommand (bundleFileOf env) (pkgTargets (platformOf env options) (versionOf options))
                      (''--assets '' @ dquote @ path_string (tempDirOf env) @ ''/assets/**/*'' @ dquote)
                      (outFile options))
                   (fs st4) = (Some e, rootP) \<longrightarrow>
                 fst (compile env options st) = Inl e
                 \<and> fs (snd (compile env options st)) = rmSync rootP (tempDirOf env))
           \<and> (\<forall>rootP exeDir.
                 execAsync env
                   (pkgCommand (bundleFileOf env) (pkgTargets (platformOf env options) (versionOf options))
                      (''--assets '' @ dquote @ path_string (tempDirOf env) @ ''/assets/**/*'' @ dquote)
                      (outFile options))
                   (fs st4) = (None, rootP)
                 \<and> statAt rootP (readmePathOf env) = Some (IsFile readmeText)
                 \<and> exeAssetsDirOf env (outFile options) = Inr exeDir
                 \<and> \<not> prefix exeDir (tempDirOf env) \<and> \<not> prefix (tempDirOf env) exeDir
                 \<and> fst (compile env options st) = Inr () \<longrightarrow>
                 statAt (fs (snd (compile env options st))) (exeDir @ [''README.md''])
                   = Some (IsFile readmeText))))"
proof (intro impI)
  assume hyp: "existsSync (fs st) (entryPointPathOf env options)
   \<and> runBundler env (entryPointPathOf env options) (versionOf options) (logEntry env options st) = (Inr (), st2)
   \<and> ensureDir (fs st2) (tempAssetsDirOf env) = Inr made
   \<and> Some a \<in> set (assetsArrayOf options) \<and> existsSync made (path_resolve (cwd env) a)
   \<and> stageAssets env (assetsArrayOf options) st2 = (Inr hasAssets, st3)"
  then have e: "existsSync (fs st) (entryPointPathOf env options)"
    and b: "runBundler env (entryPointPathOf env options) (versionOf options) (logEntry env options st) = (Inr (), st2)"
    and m: "ensureDir (fs st2) (tempAssetsDirOf env) = Inr made"
    and a: "Some a \<in> set (assetsArrayOf options)" "existsSync made (path_resolve (cwd env) a)"
    and s: "stageAssets env (assetsArrayOf options) st2 = (Inr hasAssets, st3)"
    by blast+
  let ?st0 = "emit (ConsoleLog ''Creating executable binary...'') st3"
  let ?cmd = "pkgCommand (bundleFileOf env) (pkgTargets (platformOf env options) (versionOf options))
                (pkgAssetsOption (tempDirOf env) True) (outFile options)"
  have opt: "pkgAssetsOption (tempDirOf env) True
               = ''--assets '' @ dquote @ path_string (tempDirOf env) @ ''/assets/**/*'' @ dquote"
    by (simp add: pkgAssetsOption_def)
  have h: hasAssets
    using stageAssets_bundle [OF s, THEN conjunct1] m a by blast
  then have s': "stageAssets env (assetsArrayOf options) st2 = (Inr True, st3)"
    using s by simp
  note c = compile_packaged [OF e b s']
  have isdir: "compile env options st = (Inl (SystemError EISDIR (readmePathOf env)), ?st0)
        \<and> execCommands (trace (snd (compile env options st))) = execCommands (trace st)"
    if "statAt (fs st3) (readmePathOf env) = Some IsDir"
    unfolding c(1) package_readme_directory [OF that] using c(2) by simp
  have written: "\<exists>st4. writeReadme env hasAssets ?st0 = Inr st4
           \<and> (\<forall>q. statAt (fs st4) q
                    = (if q = readmePathOf env then Some (IsFile readmeText) else statAt (fs st3) q))
           \<and> execCommands (trace (snd (compile env options st))) = execCommands (trace st) @ [?cmd]
           \<and> (\<forall>e rootP. execAsync env ?cmd (fs st4) = (Some e, rootP) \<longrightarrow>
                 fst (compile env options st) = Inl e
                 \<and> fs (snd (compile env options st)) = rmSync rootP (tempDirOf env))
           \<and> (\<forall>rootP exeDir.
                 execAsync env ?cmd (fs st4) = (None, rootP)
                 \<and> statAt rootP (readmePathOf env) = Some (IsFile readmeText)
                 \<and> exeAssetsDirOf env (outFile options) = Inr exeDir
                 \<and> \<not> prefix exeDir (tempDirOf env) \<and> \<not> prefix (tempDirOf env) exeDir
                 \<and> fst (compile env options st) = Inr () \<longrightarrow>
                 statAt (fs (snd (compile env options st))) (exeDir @ [''README.md''])
                   = Some (IsFile readmeText))"
    if d: "statAt (fs st3) (tempAssetsDirOf env) = Some IsDir
        \<and> statAt (fs st3) (readmePathOf env) \<noteq> Some IsDir"
  proof -
    from d writeReadme_succeeds [of ?st0 env]
    obtain st4 where w: "writeReadme env True ?st0 = Inr st4" by auto
    have 1: "\<forall>q. statAt (fs st4) q
                = (if q = readmePathOf env then Some (IsFile readmeText) else statAt (fs st3) q)"
      using writeReadme_statAt(1) [OF w] by simp
    note k = compile_hands_command [OF e b s' w]
    have 3: "\<forall>e rootP. execAsync env ?cmd (fs st4) = (Some e, rootP) \<longrightarrow>
                 fst (compile env options st) = Inl e
                 \<and> fs (snd (compile env options st)) = rmSync rootP (tempDirOf env)"
      using k(2) by blast
    have 4: "\<forall>rootP exeDir.
                 execAsync env ?cmd (fs st4) = (None, rootP)
                 \<and> statAt rootP (readmePathOf env) = Some (IsFile readmeText)
                 \<and> exeAssetsDirOf env (outFile options) = Inr exeDir
                 \<and> \<not> prefix exeDir (tempDirOf env) \<and> \<not> prefix (tempDirOf env) exeDir
                 \<and> fst (compile env options st) = Inr () \<longrightarrow>
                 statAt (fs (snd (compile env options st))) (exeDir @ [''README.md''])
                   = Some (IsFile readmeText)"
      unfolding c(1) using package_copies_readme [OF w] by blast
    have w': "writeReadme env hasAssets ?st0 = Inr st4"
      using w h by simp
    from w' 1 k(1) 3 4 show ?thesis by blast
  qed
  show "hasAssets
   \<and> (statAt (fs st3) (readmePathOf env) = Some IsDir \<longrightarrow>
        compile env options st
          = (Inl (SystemError EISDIR (readmePathOf env)),
             emit (ConsoleLog ''Creating executable binary...'') st3)
        \<and> execCommands (trace (snd (compile env options st))) = execCommands (trace st))
   \<and> (statAt (fs st3) (tempAssetsDirOf env) = Some IsDir
        \<and> statAt (fs st3) (readmePathOf env) \<noteq> Some IsDir \<longrightarrow>
        (\<exists>st4. writeReadme env hasAssets (emit (ConsoleLog ''Creating executable binary...'') st3) = Inr st4
           \<and> (\<forall>q. statAt (fs st4) q
                    = (if q = readmePathOf env then Some (IsFile readmeText) else statAt (fs st3) q))
           \<and> execCommands (trace (snd (compile env options st)))
               = execCommands (trace st)
                 @ [pkgCommand (bundleFileOf env) (pkgTargets (platformOf env options) (versionOf options))
                      (''--assets '' @ dquote @ path_string (tempDirOf env) @ ''/assets/**/*'' @ dquote)
                      (outFile options)]
           \<and> (\<forall>e rootP.
                 execAsync env
                   (pkgCommand (bundleFileOf env) (pkgTargets (platformOf env options) (versionOf options))
                      (''--assets '' @ dquote @ path_string (tempDirOf env) @ ''/assets/**/*'' @ dquote)
                      (outFile options))
                   (fs st4) = (Some e, rootP) \<longrightarrow>
                 fst (compile env options st) = Inl e
                 \<and> fs (snd (compile env options st)) = rmSync rootP (tempDirOf env))
           \<and> (\<forall>rootP exeDir.
                 execAsync env
                   (pkgCommand (bundleFileOf env) (pkgTargets (platformOf env options) (versionOf options))
                      (''--assets '' @ dquote @ path_string (tempDirOf env) @ ''/assets/**/*'' @ dquote)
                      (outFile options))
                   (fs st4) = (None, rootP)
                 \<and> statAt rootP (readmePathOf env) = Some (IsFile readmeText)
                 \<and> exeAssetsDirOf env (outFile options) = Inr exeDir
                 \<and> \<not> prefix exeDir (tempDirOf env) \<and> \<not> prefix (tempDirOf env) exeDir
                 \<and> fst (compile env options st) = Inr () \<longrightarrow>
                 statAt (fs (snd (compile env options st))) (exeDir @ [''README.md''])
                   = Some (IsFile readmeText))))"
    using h isdir written unfolding opt [symmetric] by blast
qed


theorem readme_written_with_assets_witness:
  "execCommands (trace (snd (compile exampleEnv docsOptions docsState)))
     = [''npx pkg /work/.ts-compiler-bin-temp/bundle.js --targets node16-linux-x64 --assets ''
          @ dquote @ ''/work/.ts-compiler-bin-temp/assets/**/*'' @ dquote @ '' --output out'']
   \<and> statAt (fs docsState) [''work'', ''docs'', ''README.md''] = Some (IsFile ''my own notes'')
   \<and> statAt (fs (snd (compile exampleEnv docsOptions docsState))) [''work'', ''assets'', ''README.md'']
       = Some (IsFile ''This directory contains assets for the application.'')
   \<and> fst (compile failingEnv docsOptions docsState) = Inl (Error ''pkg failed'')
   \<and> fst (compile exampleEnv docsOptions readmeDirState)
       = Inl (SystemError EISDIR (readmePathOf exampleEnv))
   \<and> execCommands (trace (snd (compile exampleEnv docsOptions readmeDirState))) = []"
proof -
  let ?o = docsOptions
  let ?A = "tempAssetsDirOf exampleEnv"
  let ?b = "runBundler exampleEnv (entryPointPathOf exampleEnv ?o) (versionOf ?o)
              (logEntry exampleEnv ?o docsState)"
  let ?s = "stageAssets exampleEnv (assetsArrayOf ?o) (snd ?b)"
  let ?bf = "runBundler failingEnv (entryPointPathOf failingEnv ?o) (versionOf ?o)
              (logEntry failingEnv ?o docsState)"
  let ?sf = "stageAssets failingEnv (assetsArrayOf ?o) (snd ?bf)"
  let ?bd = "runBundler exampleEnv (entryPointPathOf exampleEnv ?o) (versionOf ?o)
              (logEntry exampleEnv ?o readmeDirState)"
  let ?sd = "stageAssets exampleEnv (assetsArrayOf ?o) (snd ?bd)"
  let ?made = "\<lambda>docs. Dir [(''work'',
                 Dir [(''main.ts'', File ''console.log(1)''),
                      (''docs'', Dir [(''guide.txt'', File ''read me''), (''README.md'', docs)]),
                      (''.ts-compiler-bin-temp'',
                       Dir [(''bundle.js'', File ''main()''), (''assets'', Dir [])])])]"
  let ?cmd = "pkgCommand (bundleFileOf exampleEnv) (pkgTargets (platformOf exampleEnv ?o) (versionOf ?o))
                (''--assets '' @ dquote @ path_string (tempDirOf exampleEnv) @ ''/assets/**/*'' @ dquote)
                (outFile ?o)"
  have a: "Some ''docs'' \<in> set (assetsArrayOf ?o)"
    by (simp add: assetsArrayOf_def docsOptions_def)
  have cw: "cwd exampleEnv = [''work'']" "cwd failingEnv = [''work'']"
    by (simp_all add: exampleEnv_def failingEnv_def)

  have e: "existsSync (fs docsState) (entryPointPathOf exampleEnv ?o)" by code_simp
  have "fst ?b = Inr ()" by code_simp
  then have b: "?b = (Inr (), snd ?b)" by (simp add: prod_eq_iff)
  have m: "ensureDir (fs (snd ?b)) ?A = Inr (?made (File ''my own notes''))" by code_simp
  have x: "existsSync (?made (File ''my own notes'')) (path_resolve (cwd exampleEnv) ''docs'')"
    by code_simp
  have "fst ?s = Inr True" by code_simp
  then have s: "?s = (Inr True, snd ?s)" by (simp add: prod_eq_iff)
  have d: "statAt (fs (snd ?s)) ?A = Some IsDir \<and> statAt (fs (snd ?s)) (readmePathOf exampleEnv) \<noteq> Some IsDir"
    by code_simp
  note t = readme_written_with_assets [where env = exampleEnv and options = ?o and st = docsState
      and ?st2.0 = "snd ?b" and made = "?made (File ''my own notes'')" and a = "''docs''"
      and hasAssets = True and ?st3.0 = "snd ?s", rule_format,
      OF conjI [OF e conjI [OF b conjI [OF m conjI [OF a conjI [OF x s]]]]]]
  note w = t [THEN conjunct2, THEN conjunct2, rule_format, OF d]
  have dir: "exeAssetsDirOf exampleEnv (outFile ?o) = Inr [''work'', ''assets'']" by code_simp
  have o: "\<not> prefix [''work'', ''assets''] (tempDirOf exampleEnv)"
    "\<not> prefix (tempDirOf exampleEnv) [''work'', ''assets'']"
    by (simp_all add: tempDirOf_def exampleEnv_def)
  have ok: "fst (compile exampleEnv ?o docsState) = Inr ()" by code_simp
  have r12: "statAt (fs (snd (compile exampleEnv ?o docsState))) ([''work'', ''assets''] @ [''README.md''])
              = Some (IsFile readmeText)
     \<and> execCommands (trace (snd (compile exampleEnv ?o docsState))) = execCommands (trace docsState) @ [?cmd]"
  proof (rule exE [OF w], goal_cases)
    case (1 st4)
    note k = 1 [THEN conjunct2, THEN conjunct1]
    note c = 1 [THEN conjunct2, THEN conjunct2, THEN conjunct1]
    note copied = 1 [THEN conjunct2, THEN conjunct2, THEN conjunct2, THEN conjunct2]
    have p: "execAsync exampleEnv ?cmd (fs st4) = (None, fs st4)"
      by (simp add: exampleEnv_def)
    have k1: "statAt (fs st4) (readmePathOf exampleEnv) = Some (IsFile readmeText)"
      using k by simp
    from copied [rule_format, OF conjI [OF p conjI [OF k1 conjI [OF dir conjI [OF o(1) conjI [OF o(2) ok]]]]]] c
    show ?case by (rule conjI)
  qed
  note r1 = r12 [THEN conjunct1]
  have r2: "execCommands (trace (snd (compile exampleEnv ?o docsState)))
     = [''npx pkg /work/.ts-compiler-bin-temp/bundle.js --targets node16-linux-x64 --assets ''
          @ dquote @ ''/work/.ts-compiler-bin-temp/assets/**/*'' @ dquote @ '' --output out'']"
    unfolding r12 [THEN conjunct2]
    by (simp add: pkgCommand_def pkgTargets_def platformOf_def versionOf_def docsOptions_def
          exampleOptions_def bundleFileOf_def tempDirOf_def exampleEnv_def path_string_def
          js_string_def docsState_def)
  have r3: "statAt (fs docsState) [''work'', ''docs'', ''README.md''] = Some (IsFile ''my own notes'')"
    by code_simp

  have ef: "existsSync (fs docsState) (entryPointPathOf failingEnv ?o)" by code_simp
  have "fst ?bf = Inr ()" by code_simp
  then have bf: "?bf = (Inr (), snd ?bf)" by (simp add: prod_eq_iff)
  have mf: "ensureDir (fs (snd ?bf)) (tempAssetsDirOf failingEnv) = Inr (?made (File ''my own notes''))"
    by code_simp
  have xf: "existsSync (?made (File ''my own notes'')) (path_resolve (cwd failingEnv) ''docs'')"
    by code_simp
  have "fst ?sf = Inr True" by code_simp
  then have sf: "?sf = (Inr True, snd ?sf)" by (simp add: prod_eq_iff)
  have df: "statAt (fs (snd ?sf)) (tempAssetsDirOf failingEnv) = Some IsDir
            \<and> statAt (fs (snd ?sf)) (readmePathOf failingEnv) \<noteq> Some IsDir"
    by code_simp
  note tf = readme_written_with_assets [where env = failingEnv and options = ?o and st = docsState
      and ?st2.0 = "snd ?bf" and made = "?made (File ''my own notes'')" and a = "''docs''"
      and hasAssets = True and ?st3.0 = "snd ?sf", rule_format,
      OF conjI [OF ef conjI [OF bf conjI [OF mf conjI [OF a conjI [OF xf sf]]]]]]
  have pf: "execAsync failingEnv command r = (Some (Error ''pkg failed''), r)" for command r
    by (simp add: failingEnv_def)
  have r4: "fst (compile failingEnv ?o docsState) = Inl (Error ''pkg failed'')"
  proof (rule exE [OF tf [THEN conjunct2, THEN conjunct2, rule_format, OF df]], goal_cases)
    case (1 st4)
    from 1 [THEN conjunct2, THEN conjunct2, THEN conjunct2, THEN conjunct1, rule_format, OF pf]
    show ?case by (rule conjunct1)
  qed

  have ed: "existsSync (fs readmeDirState) (entryPointPathOf exampleEnv ?o)" by code_simp
  have "fst ?bd = Inr ()" by code_simp
  then have bd: "?bd = (Inr (), snd ?bd)" by (simp add: prod_eq_iff)
  have md: "ensureDir (fs (snd ?bd)) ?A = Inr (?made (Dir []))" by code_simp
  have xd: "existsSync (?made (Dir [])) (path_resolve (cwd exampleEnv) ''docs'')"
    by code_simp
  have "fst ?sd = Inr True" by code_simp
  then have sd: "?sd = (Inr True, snd ?sd)" by (simp add: prod_eq_iff)
  have dd: "statAt (fs (snd ?sd)) (readmePathOf exampleEnv) = Some IsDir"
    by code_simp
  note td = readme_written_with_assets [where env = exampleEnv and options = ?o and st = readmeDirState
      and ?st2.0 = "snd ?bd" and made = "?made (Dir [])" and a = "''docs''"
      and hasAssets = True and ?st3.0 = "snd ?sd", rule_format,
      OF conjI [OF ed conjI [OF bd conjI [OF md conjI [OF a conjI [OF xd sd]]]]]]
  note z = td [THEN conjunct2, THEN conjunct1, rule_format, OF dd]
  have t0: "execCommands (trace readmeDirState) = []"
    by (simp add: readmeDirState_def)
  have r5: "fst (compile exampleEnv ?o readmeDirState) = Inl (SystemError EISDIR (readmePathOf exampleEnv))"
    using z [THEN conjunct1] by simp
  have r6: "execCommands (trace (snd (compile exampleEnv ?o readmeDirState))) = []"
    using z [THEN conjunct2] unfolding t0 .
  from r1 r2 r3 r4 r5 r6 show ?thesis
    by (simp add: readmeText_def)
qed

section \<open>The recursive copy as an overlay\<close>

lemma forEachEntry_total:
  assumes "I [] root"
    and "\<And>pre e post r. es = pre @ e # post \<Longrightarrow> I pre r \<Longrightarrow> \<exists>r'. body e r = (None, r') \<and> I (pre @ [e]) r'"
  shows "\<exists>root'. forEachEntry body es root = (None, root') \<and> I es root'"
  using assms
proof (induction es arbitrary: root I)
  case Nil
  then show ?case by simp
next
  case (Cons e es)
  from Cons.prems(2) [of "[]" e es root] Cons.prems(1)
  obtain r1 where b: "body e root = (None, r1)" and i1: "I [e] r1" by auto
  have "\<exists>root'. forEachEntry body es r1 = (None, root') \<and> (\<lambda>pre. I (e # pre)) es root'"
  proof (rule Cons.IH)
    show "I [e] r1" by (rule i1)
  next
    fix pre e' post r
    assume "es = pre @ e' # post" and "I (e # pre) r"
    then show "\<exists>r'. body e' r = (None, r') \<and> I (e # pre @ [e']) r'"
      using Cons.prems(2) [of "e # pre" e' post r] by simp
  qed
  with b show ?case by simp
qed

lemma ensureDir_makes:
  assumes "statAt root tgt = Some IsDir
           \<or> (statAt root tgt = None \<and> tgt \<noteq> [] \<and> statAt root (butlast tgt) = Some IsDir)"
  shows "\<exists>root1. ensureDir root tgt = Inr root1
            \<and> (\<forall>p. statAt root1 p = (if p = tgt then Some IsDir else statAt root p))"
proof (cases "statAt root tgt")
  case (Some k)
  with assms have "statAt root tgt = Some IsDir" by auto
  then show ?thesis by (auto simp: ensureDir_def existsSync_statAt)
next
  case None
  with assms have t: "tgt \<noteq> []" and par: "statAt root (butlast tgt) = Some IsDir" by auto
  have anc: "statAt root p = Some IsDir" if "prefix p tgt" and "p \<noteq> tgt" for p
  proof -
    from that obtain z where z: "tgt = p @ z" and "z \<noteq> []" by (auto simp: prefix_def)
    then have "butlast tgt = p @ butlast z" by (simp add: butlast_append)
    with par show ?thesis
      by (cases "butlast z = []") (auto intro: statAt_prefix_dir [of root p "butlast z"])
  qed
  have "\<forall>p c. prefix p tgt \<longrightarrow> statAt root p \<noteq> Some (IsFile c)"
    using anc None by (metis kind.distinct(1) option.distinct(1) option.inject)
  from mkdirSync_succeeds [OF this] obtain root1 where m: "mkdirSync root tgt = Inr root1" by blast
  have "statAt root1 p = (if p = tgt then Some IsDir else statAt root p)" for p
    using mkdirSync_statAt [OF m, of p] anc [of p] by auto
  with m None show ?thesis
    by (auto simp: ensureDir_def existsSync_statAt)
qed


lemma readdirSync_lists:
  assumes "readdirSync root p = Inr entries"
  shows "n \<in> fst ` set entries \<longleftrightarrow> statAt root (p @ [n]) \<noteq> None"
proof -
  have "n \<in> fst ` set entries \<longleftrightarrow> (\<exists>b. (n, b) \<in> set entries)"
    by force
  also have "\<dots> \<longleftrightarrow> (n, True) \<in> set entries \<or> (n, False) \<in> set entries"
    by (metis (full_types))
  also have "\<dots> \<longleftrightarrow> statAt root (p @ [n]) \<noteq> None"
    unfolding readdirSync_entries(3,4) [OF assms]
    by (cases "statAt root (p @ [n])") (auto intro: kind.exhaust)
  finally show ?thesis .
qed

lemma copyDirectoryRecursive_overlay:
  assumes o: "\<not> prefix src tgt" "\<not> prefix tgt src"
    and sd: "statAt root src = Some IsDir"
    and td: "statAt root tgt = Some IsDir
             \<or> (statAt root tgt = None \<and> tgt \<noteq> [] \<and> statAt root (butlast tgt) = Some IsDir)"
    and cd: "\<And>q. q \<noteq> [] \<Longrightarrow> statAt root (src @ q) = Some IsDir
                \<Longrightarrow> statAt root (tgt @ q) = None \<or> statAt root (tgt @ q) = Some IsDir"
    and cf: "\<And>q c. q \<noteq> [] \<Longrightarrow> statAt root (src @ q) = Some (IsFile c)
                \<Longrightarrow> statAt root (tgt @ q) \<noteq> Some IsDir"
    and depth: "\<And>q. statAt root (src @ q) \<noteq> None \<Longrightarrow> length q < d"
  shows "\<exists>root'. copyDirectoryRecursive d src tgt root = (None, root')
           \<and> (\<forall>q. statAt root' (tgt @ q)
                     = (case statAt root (src @ q) of Some k \<Rightarrow> Some k | None \<Rightarrow> statAt root (tgt @ q)))
           \<and> (\<forall>p. \<not> prefix tgt p \<longrightarrow> statAt root' p = statAt root p)"
  using assms
proof (induction d arbitrary: src tgt root)
  case 0
  from "0.prems"(7) [of "[]"] "0.prems"(3) show ?case by simp
next
  case (Suc d)
  note o = Suc.prems(1,2) and sd = Suc.prems(3) and td = Suc.prems(4)
    and cd = Suc.prems(5) and cf = Suc.prems(6) and depth = Suc.prems(7)
  let ?S = "statAt root"
  let ?over = "\<lambda>p q. case ?S (src @ q) of Some k \<Rightarrow> Some k | None \<Rightarrow> ?S p"
  have src_out: "\<not> prefix tgt (src @ x)" for x
    using incomparable_append [OF o(2,1), of "[]" x] by simp
  from ensureDir_makes [OF td] obtain root1 where e: "ensureDir root tgt = Inr root1"
    and s1: "\<And>p. statAt root1 p = (if p = tgt then Some IsDir else ?S p)" by blast
  have s1_src: "statAt root1 (src @ x) = ?S (src @ x)" for x
    using s1 [of "src @ x"] src_out [of x] by auto
  from s1_src [of "[]"] sd have "statAt root1 src = Some IsDir" by simp
  from readdirSync_succeeds [OF this] obtain entries where rd: "readdirSync root1 src = Inr entries"
    by blast
  note ent = readdirSync_entries [OF rd] and listed = readdirSync_lists [OF rd]
  let ?body = "\<lambda>entry r.
                 if snd entry
                 then copyDirectoryRecursive d (src @ [fst entry]) (tgt @ [fst entry]) r
                 else copyFileSync r (src @ [fst entry]) (tgt @ [fst entry])"
  let ?I = "\<lambda>pre r. statAt r tgt = Some IsDir
              \<and> (\<forall>p. \<not> prefix tgt p \<longrightarrow> statAt r p = ?S p)
              \<and> (\<forall>n q. statAt r (tgt @ n # q)
                        = (if n \<in> fst ` set pre then ?over (tgt @ n # q) (n # q) else ?S (tgt @ n # q)))"
  have "\<exists>root'. forEachEntry ?body entries root1 = (None, root') \<and> ?I entries root'"
  proof (rule forEachEntry_total [where I = ?I])
    show "?I [] root1"
      using s1 by auto
  next
    fix pre e post r
    assume es: "entries = pre @ e # post" and inv: "?I pre r"
    obtain n b where e_def: "e = (n, b)" by (cases e)
    from ent(2) es e_def have fresh: "n \<notin> fst ` set pre" by auto
    have mem: "(n, b) \<in> set entries" using es e_def by simp
    from inv have r_tgt: "statAt r tgt = Some IsDir"
      and r_out: "\<And>p. \<not> prefix tgt p \<Longrightarrow> statAt r p = ?S p"
      and r_in: "\<And>m q. statAt r (tgt @ m # q)
                        = (if m \<in> fst ` set pre then ?over (tgt @ m # q) (m # q) else ?S (tgt @ m # q))"
      by blast+
    have r_src: "statAt r (src @ x) = ?S (src @ x)" for x
      using r_out [OF src_out] .
    have r_new: "statAt r (tgt @ n # q) = ?S (tgt @ n # q)" for q
      using r_in [of n q] fresh by simp
    show "\<exists>r'. ?body e r = (None, r') \<and> ?I (pre @ [e]) r'"
    proof (cases b)
      case False
      with mem ent(4) [of n] s1_src [of "[n]"] obtain c where c: "?S (src @ [n]) = Some (IsFile c)"
        by auto
      have "statAt r (tgt @ [n]) \<noteq> Some IsDir"
        using cf [OF _ c] r_new [of "[]"] by simp
      with copyFileSync_succeeds [of r "src @ [n]" c "tgt @ [n]"] r_src [of "[n]"] c r_tgt
      obtain r' where cp: "copyFileSync r (src @ [n]) (tgt @ [n]) = (None, r')" by auto
      from copyFileSync_statAt [OF cp] r_src [of "[n]"] c
      have r': "\<And>p. statAt r' p = (if p = tgt @ [n] then Some (IsFile c) else statAt r p)"
        by auto
      have below: "?S (src @ n # q) = None" if "q \<noteq> []" for q
        using statAt_below [of root "src @ [n]" q] c that by simp
      have "?I (pre @ [e]) r'"
      proof (intro conjI allI impI)
        show "statAt r' tgt = Some IsDir" using r' [of tgt] r_tgt by simp
      next
        fix p assume "\<not> prefix tgt p"
        then show "statAt r' p = ?S p" using r' [of p] r_out [of p] by auto
      next
        fix m q
        show "statAt r' (tgt @ m # q)
                = (if m \<in> fst ` set (pre @ [e]) then ?over (tgt @ m # q) (m # q) else ?S (tgt @ m # q))"
        proof (cases "m = n")
          case True
          show ?thesis
          proof (cases "q = []")
            case True
            with \<open>m = n\<close> r' [of "tgt @ [n]"] c e_def show ?thesis by simp
          next
            case False
            with \<open>m = n\<close> r' [of "tgt @ n # q"] r_new [of q] below [OF False] e_def
            show ?thesis by simp
          qed
        next
          case False
          with r' [of "tgt @ m # q"] r_in [of m q] e_def show ?thesis by simp
        qed
      qed
      with cp False e_def show ?thesis by simp
    next
      case True
      with mem ent(3) [of n] s1_src [of "[n]"] have dn: "?S (src @ [n]) = Some IsDir" by simp
      have "\<exists>r'. copyDirectoryRecursive d (src @ [n]) (tgt @ [n]) r = (None, r')
              \<and> (\<forall>q. statAt r' ((tgt @ [n]) @ q)
                        = (case statAt r ((src @ [n]) @ q) of Some k \<Rightarrow> Some k
                           | None \<Rightarrow> statAt r ((tgt @ [n]) @ q)))
              \<and> (\<forall>p. \<not> prefix (tgt @ [n]) p \<longrightarrow> statAt r' p = statAt r p)"
      proof (rule Suc.IH)
        show "\<not> prefix (src @ [n]) (tgt @ [n])" "\<not> prefix (tgt @ [n]) (src @ [n])"
          using incomparable_append [OF o] incomparable_append [OF o(2,1)] by blast+
        show "statAt r (src @ [n]) = Some IsDir" using r_src [of "[n]"] dn by simp
        show "statAt r (tgt @ [n]) = Some IsDir
                \<or> (statAt r (tgt @ [n]) = None \<and> tgt @ [n] \<noteq> []
                     \<and> statAt r (butlast (tgt @ [n])) = Some IsDir)"
          using cd [of "[n]"] dn r_new [of "[]"] r_tgt by auto
      next
        fix q :: path assume "q \<noteq> []" and "statAt r ((src @ [n]) @ q) = Some IsDir"
        then show "statAt r ((tgt @ [n]) @ q) = None \<or> statAt r ((tgt @ [n]) @ q) = Some IsDir"
          using cd [of "n # q"] r_src [of "n # q"] r_new [of q] by simp
      next
        fix q :: path and c assume "q \<noteq> []" and "statAt r ((src @ [n]) @ q) = Some (IsFile c)"
        then show "statAt r ((tgt @ [n]) @ q) \<noteq> Some IsDir"
          using cf [of "n # q" c] r_src [of "n # q"] r_new [of q] by simp
      next
        fix q :: path assume "statAt r ((src @ [n]) @ q) \<noteq> None"
        then have "length (n # q) < Suc d"
          using depth [of "n # q"] r_src [of "n # q"] by simp
        then show "length q < d" by simp
      qed
      then have "\<exists>r'. copyDirectoryRecursive d (src @ [n]) (tgt @ [n]) r = (None, r')
              \<and> (\<forall>q. statAt r' (tgt @ n # q)
                        = (case statAt r (src @ n # q) of Some k \<Rightarrow> Some k
                           | None \<Rightarrow> statAt r (tgt @ n # q)))
              \<and> (\<forall>p. \<not> prefix (tgt @ [n]) p \<longrightarrow> statAt r' p = statAt r p)"
        unfolding append_assoc append_Cons append_Nil .
      then obtain r' where cp: "copyDirectoryRecursive d (src @ [n]) (tgt @ [n]) r = (None, r')"
        and in': "\<And>q. statAt r' (tgt @ n # q)
                        = (case statAt r (src @ n # q) of Some k \<Rightarrow> Some k | None \<Rightarrow> statAt r (tgt @ n # q))"
        and out': "\<And>p. \<not> prefix (tgt @ [n]) p \<Longrightarrow> statAt r' p = statAt r p"
        by auto
      have "?I (pre @ [e]) r'"
      proof (intro conjI allI impI)
        show "statAt r' tgt = Some IsDir" using out' [of tgt] r_tgt by simp
      next
        fix p assume p: "\<not> prefix tgt p"
        then have "\<not> prefix (tgt @ [n]) p" by (meson append_prefixD)
        with out' [of p] r_out [OF p] show "statAt r' p = ?S p" by simp
      next
        fix m q
        show "statAt r' (tgt @ m # q)
                = (if m \<in> fst ` set (pre @ [e]) then ?over (tgt @ m # q) (m # q) else ?S (tgt @ m # q))"
        proof (cases "m = n")
          case True
          with in' [of q] r_src [of "n # q"] r_new [of q] e_def show ?thesis
            by (simp split: option.splits)
        next
          case False
          then have "\<not> prefix (tgt @ [n]) (tgt @ m # q)" by simp
          with out' [of "tgt @ m # q"] r_in [of m q] False e_def show ?thesis by simp
        qed
      qed
      with cp True e_def show ?thesis by simp
    qed
  qed
  then obtain root' where loop: "forEachEntry ?body entries root1 = (None, root')"
    and fin: "?I entries root'" by blast
  have run: "copyDirectoryRecursive (Suc d) src tgt root = (None, root')"
    using e rd loop by simp
  have inside: "statAt root' (tgt @ q) = ?over (tgt @ q) q" for q
  proof (cases q)
    case Nil
    with fin sd show ?thesis by simp
  next
    case (Cons n q')
    show ?thesis
    proof (cases "n \<in> fst ` set entries")
      case True
      with fin Cons show ?thesis by (simp split: option.splits)
    next
      case False
      with listed [of n] s1_src [of "[n]"] have "?S (src @ [n]) = None" by simp
      then have "?S (src @ n # q') = None"
        using statAt_below [of root "src @ [n]" q'] by (cases "q' = []") simp_all
      with fin Cons False show ?thesis by (simp split: option.splits)
    qed
  qed
  from run inside fin show ?case by blast
qed

section \<open>One file and one directory, staged flat\<close>

lemma statAt_IsFile_lookup: "statAt root p = Some (IsFile c) \<longleftrightarrow> lookup root p = Some (File c)"
  by (cases "lookup root p") (auto simp: statAt_def elim: kindOf.elims)

lemma statAt_IsDir_lookup: "statAt root p = Some IsDir \<longleftrightarrow> (\<exists>es. lookup root p = Some (Dir es))"
  by (cases "lookup root p") (auto simp: statAt_def elim: kindOf.elims)

lemma file_is_not_root:
  assumes "statAt root dir = Some IsDir" and "statAt root pf = Some (IsFile c)"
  shows "pf \<noteq> []"
proof
  assume "pf = []"
  with assms(2) obtain c' where "root = File c'" by (cases root) auto
  with assms(1) show False by (cases dir) auto
qed

lemma copyAssets_file_step:
  assumes "statAt (fs st) (path_resolve (cwd env) f) = Some (IsFile c)"
    and "copyFileSync (fs st) (path_resolve (cwd env) f)
           (if path_resolve (cwd env) f = [] then dir else dir @ [path_basename (path_resolve (cwd env) f)])
         = (None, root')"
  shows "\<exists>st1. fs st1 = root'
           \<and> copyAssets env dir (Some f # rest) h st = copyAssets env dir rest True st1"
proof -
  let ?ap = "path_resolve (cwd env) f"
  let ?tf = "if ?ap = [] then dir else dir @ [path_basename ?ap]"
  let ?st1 = "emit (ConsoleLog (''File copied: '' @ path_string ?ap @ '' -> '' @ path_string ?tf))
                ((emit (ConsoleLog (''Copying asset: '' @ path_string ?ap)) st)\<lparr>fs := root'\<rparr>)"
  have "copyAssets env dir (Some f # rest) h st = copyAssets env dir rest True ?st1"
    using assms by (simp add: statAt_IsFile_lookup Let_def)
  moreover have "fs ?st1 = root'" by simp
  ultimately show ?thesis by blast
qed

lemma copyAssets_dir_step:
  assumes "statAt (fs st) (path_resolve (cwd env) dname) = Some IsDir"
    and "copyDirectoryContents (stackLimit env) (path_resolve (cwd env) dname) dir (fs st) = (None, root')"
  shows "\<exists>st1. fs st1 = root'
           \<and> copyAssets env dir (Some dname # rest) h st = copyAssets env dir rest True st1"
proof -
  let ?ap = "path_resolve (cwd env) dname"
  let ?st1 = "emit (ConsoleLog (''Directory contents copied: '' @ path_string ?ap @ '' -> '' @ path_string dir))
                ((emit (ConsoleLog (''Copying asset: '' @ path_string ?ap)) st)\<lparr>fs := root'\<rparr>)"
  from assms(1) obtain es where "lookup (fs st) ?ap = Some (Dir es)"
    by (auto simp: statAt_IsDir_lookup)
  then have "copyAssets env dir (Some dname # rest) h st = copyAssets env dir rest True ?st1"
    using assms(2) by (simp add: Let_def)
  moreover have "fs ?st1 = root'" by simp
  ultimately show ?thesis by blast
qed

lemma file_first_then_directory:
  assumes empty: "statAt (fs st) dir = Some IsDir" "\<And>q. q \<noteq> [] \<Longrightarrow> statAt (fs st) (dir @ q) = None"
    and isfile: "statAt (fs st) pf = Some (IsFile c)"
    and isdir: "statAt (fs st) pd = Some IsDir"
    and apart: "\<not> prefix pd dir" "\<not> prefix dir pd"
    and depth: "\<And>q. statAt (fs st) (pd @ q) \<noteq> None \<Longrightarrow> length q < stackLimit env"
    and nocoll: "statAt (fs st) (pd @ [path_basename pf]) \<noteq> Some IsDir"
    and pf: "pf = path_resolve (cwd env) f" and pd: "pd = path_resolve (cwd env) dname"
  shows "\<exists>st'. copyAssets env dir [Some f, Some dname] False st = (Inr True, st')
           \<and> (\<forall>q. q \<noteq> [] \<longrightarrow> statAt (fs st') (dir @ q)
                  = (case statAt (fs st) (pd @ q) of
                       Some k \<Rightarrow> Some k
                     | None \<Rightarrow> if q = [path_basename pf] then Some (IsFile c) else None))
           \<and> (\<forall>p. \<not> prefix dir p \<longrightarrow> statAt (fs st') p = statAt (fs st) p)"
proof -
  let ?b = "path_basename pf"
  let ?S = "statAt (fs st)"
  have pf_ne: "pf \<noteq> []"
    using file_is_not_root [OF empty(1) isfile] .
  then have tf: "(if pf = [] then dir else dir @ [?b]) = dir @ [?b]" by simp
  have "statAt (fs st) (dir @ [?b]) \<noteq> Some IsDir" using empty(2) [of "[?b]"] by simp
  with copyFileSync_succeeds [of "fs st" pf c "dir @ [?b]"] isfile empty(1)
  obtain root1 where c1: "copyFileSync (fs st) pf (dir @ [?b]) = (None, root1)" by auto
  from copyFileSync_statAt [OF c1] isfile
  have s1: "\<And>p. statAt root1 p = (if p = dir @ [?b] then Some (IsFile c) else ?S p)" by auto
  from copyAssets_file_step [of st env f c dir root1 "[Some dname]" False] isfile c1 tf
  obtain st1 where f1: "fs st1 = root1"
    and step1: "copyAssets env dir [Some f, Some dname] False st = copyAssets env dir [Some dname] True st1"
    unfolding pf by auto
  have pd_out: "pd @ x \<noteq> dir @ y" for x y
    using incomparable_append [OF apart, of x y] by auto
  have s1_pd: "statAt root1 (pd @ x) = ?S (pd @ x)" for x
    using s1 [of "pd @ x"] pd_out [of x "[?b]"] by simp
  have s1_in: "statAt root1 (dir @ q) = (if q = [?b] then Some (IsFile c) else None)" if "q \<noteq> []" for q
    using s1 [of "dir @ q"] empty(2) [OF that] by simp
  have "\<exists>root2. copyDirectoryRecursive (stackLimit env) pd dir root1 = (None, root2)
          \<and> (\<forall>q. statAt root2 (dir @ q)
                    = (case statAt root1 (pd @ q) of Some k \<Rightarrow> Some k | None \<Rightarrow> statAt root1 (dir @ q)))
          \<and> (\<forall>p. \<not> prefix dir p \<longrightarrow> statAt root2 p = statAt root1 p)"
  proof (rule copyDirectoryRecursive_overlay [OF apart])
    show "statAt root1 pd = Some IsDir" using s1_pd [of "[]"] isdir by simp
    show "statAt root1 dir = Some IsDir
            \<or> (statAt root1 dir = None \<and> dir \<noteq> [] \<and> statAt root1 (butlast dir) = Some IsDir)"
      using s1 [of dir] empty(1) by simp
  next
    fix q :: path assume q: "q \<noteq> []" and d: "statAt root1 (pd @ q) = Some IsDir"
    show "statAt root1 (dir @ q) = None \<or> statAt root1 (dir @ q) = Some IsDir"
      using s1_in [OF q] d s1_pd [of q] nocoll by auto
  next
    fix q :: path and c' assume "q \<noteq> []" and "statAt root1 (pd @ q) = Some (IsFile c')"
    then show "statAt root1 (dir @ q) \<noteq> Some IsDir"
      using s1_in [of q] by simp
  next
    fix q :: path assume "statAt root1 (pd @ q) \<noteq> None"
    then show "length q < stackLimit env"
      using depth [of q] s1_pd [of q] by simp
  qed
  then obtain root2 where c2: "copyDirectoryContents (stackLimit env) pd dir root1 = (None, root2)"
    and in2: "\<And>q. statAt root2 (dir @ q)
                    = (case statAt root1 (pd @ q) of Some k \<Rightarrow> Some k | None \<Rightarrow> statAt root1 (dir @ q))"
    and out2: "\<And>p. \<not> prefix dir p \<Longrightarrow> statAt root2 p = statAt root1 p"
    by (auto simp: copyDirectoryContents_eq)
  have "statAt (fs st1) (path_resolve (cwd env) dname) = Some IsDir"
    using s1_pd [of "[]"] isdir f1 pd by simp
  from copyAssets_dir_step [OF this, of dir root2 "[]" True] c2 f1 pd
  obtain st2 where f2: "fs st2 = root2"
    and step2: "copyAssets env dir [Some dname] True st1 = (Inr True, st2)"
    by auto
  have "statAt (fs st2) (dir @ q)
          = (case ?S (pd @ q) of Some k \<Rightarrow> Some k
             | None \<Rightarrow> if q = [?b] then Some (IsFile c) else None)" if "q \<noteq> []" for q
    unfolding f2 in2 [of q] s1_pd [of q] s1_in [OF that] by (rule refl)
  moreover have "statAt (fs st2) p = ?S p" if "\<not> prefix dir p" for p
    using out2 [OF that] s1 [of p] that f2 by auto
  ultimately show ?thesis
    using step1 step2 by auto
qed


lemma directory_first_then_file:
  assumes empty: "statAt (fs st) dir = Some IsDir" "\<And>q. q \<noteq> [] \<Longrightarrow> statAt (fs st) (dir @ q) = None"
    and isfile: "statAt (fs st) pf = Some (IsFile c)"
    and isdir: "statAt (fs st) pd = Some IsDir"
    and apart: "\<not> prefix pd dir" "\<not> prefix dir pd"
    and depth: "\<And>q. statAt (fs st) (pd @ q) \<noteq> None \<Longrightarrow> length q < stackLimit env"
    and nocoll: "statAt (fs st) (pd @ [path_basename pf]) \<noteq> Some IsDir"
    and pf: "pf = path_resolve (cwd env) f" and pd: "pd = path_resolve (cwd env) dname"
  shows "\<exists>st'. copyAssets env dir [Some dname, Some f] False st = (Inr True, st')
           \<and> (\<forall>q. q \<noteq> [] \<longrightarrow> statAt (fs st') (dir @ q)
                  = (if q = [path_basename pf] then Some (IsFile c) else statAt (fs st) (pd @ q)))
           \<and> (\<forall>p. \<not> prefix dir p \<longrightarrow> statAt (fs st') p = statAt (fs st) p)"
proof -
  let ?b = "path_basename pf"
  let ?S = "statAt (fs st)"
  have pf_out: "\<not> prefix dir pf"
  proof
    assume "prefix dir pf"
    then obtain q where q: "pf = dir @ q" by (auto simp: prefix_def)
    with isfile empty(1) empty(2) [of q] show False by (cases "q = []") auto
  qed
  have "pf \<noteq> []" using file_is_not_root [OF empty(1) isfile] .
  then have tf: "(if pf = [] then dir else dir @ [?b]) = dir @ [?b]" by simp
  have "\<exists>root1. copyDirectoryRecursive (stackLimit env) pd dir (fs st) = (None, root1)
          \<and> (\<forall>q. statAt root1 (dir @ q)
                    = (case ?S (pd @ q) of Some k \<Rightarrow> Some k | None \<Rightarrow> ?S (dir @ q)))
          \<and> (\<forall>p. \<not> prefix dir p \<longrightarrow> statAt root1 p = ?S p)"
  proof (rule copyDirectoryRecursive_overlay [OF apart isdir])
    show "?S dir = Some IsDir \<or> (?S dir = None \<and> dir \<noteq> [] \<and> ?S (butlast dir) = Some IsDir)"
      using empty(1) by simp
  next
    fix q :: path assume "q \<noteq> []"
    then show "?S (dir @ q) = None \<or> ?S (dir @ q) = Some IsDir" using empty(2) by simp
  next
    fix q :: path and c' assume "q \<noteq> []"
    then show "?S (dir @ q) \<noteq> Some IsDir" using empty(2) by simp
  next
    fix q :: path assume "?S (pd @ q) \<noteq> None"
    then show "length q < stackLimit env" by (rule depth)
  qed
  then obtain root1 where c1: "copyDirectoryContents (stackLimit env) pd dir (fs st) = (None, root1)"
    and in1: "\<And>q. statAt root1 (dir @ q)
                    = (case ?S (pd @ q) of Some k \<Rightarrow> Some k | None \<Rightarrow> ?S (dir @ q))"
    and out1: "\<And>p. \<not> prefix dir p \<Longrightarrow> statAt root1 p = ?S p"
    by (auto simp: copyDirectoryContents_eq)
  have in1': "statAt root1 (dir @ q) = ?S (pd @ q)" if "q \<noteq> []" for q
    using in1 [of q] empty(2) [OF that] by (simp split: option.splits)
  from copyAssets_dir_step [of st env dname dir root1 "[Some f]" False] isdir c1 pd
  obtain st1 where f1: "fs st1 = root1"
    and step1: "copyAssets env dir [Some dname, Some f] False st = copyAssets env dir [Some f] True st1"
    by auto
  have file1: "statAt root1 pf = Some (IsFile c)"
    using out1 [OF pf_out] isfile by simp
  have "statAt root1 dir = Some IsDir"
    using in1 [of "[]"] isdir by simp
  moreover have "statAt root1 (dir @ [?b]) \<noteq> Some IsDir"
    using in1' [of "[?b]"] nocoll by simp
  ultimately obtain root2 where c2: "copyFileSync root1 pf (dir @ [?b]) = (None, root2)"
    using copyFileSync_succeeds [of root1 pf c "dir @ [?b]"] file1 by auto
  from copyFileSync_statAt [OF c2] file1
  have s2: "\<And>p. statAt root2 p = (if p = dir @ [?b] then Some (IsFile c) else statAt root1 p)"
    by auto
  have "statAt (fs st1) (path_resolve (cwd env) f) = Some (IsFile c)"
    using file1 f1 pf by simp
  from copyAssets_file_step [OF this, of dir root2 "[]" True] c2 tf f1 pf
  obtain st2 where f2: "fs st2 = root2"
    and step2: "copyAssets env dir [Some f] True st1 = (Inr True, st2)"
    by auto
  have "statAt (fs st2) (dir @ q) = (if q = [?b] then Some (IsFile c) else ?S (pd @ q))"
    if "q \<noteq> []" for q
    using s2 [of "dir @ q"] in1' [OF that] f2 by simp
  moreover have "statAt (fs st2) p = ?S p" if "\<not> prefix dir p" for p
    using s2 [of p] out1 [OF that] that f2 by auto
  ultimately show ?thesis
    using step1 step2 by auto
qed


lemma fresh_assets_dir:
  assumes "statAt (fs st) (tempDirOf env) = Some IsDir" and "statAt (fs st) (tempAssetsDirOf env) = None"
  shows "\<exists>root1. ensureDir (fs st) (tempAssetsDirOf env) = Inr root1
           \<and> (\<forall>p. statAt root1 p = (if p = tempAssetsDirOf env then Some IsDir else statAt (fs st) p))"
proof (rule ensureDir_makes)
  have "butlast (tempAssetsDirOf env) = tempDirOf env"
    by (simp add: tempAssetsDirOf_def butlast_append)
  with assms show "statAt (fs st) (tempAssetsDirOf env) = Some IsDir
      \<or> (statAt (fs st) (tempAssetsDirOf env) = None \<and> tempAssetsDirOf env \<noteq> []
           \<and> statAt (fs st) (butlast (tempAssetsDirOf env)) = Some IsDir)"
    by (simp add: tempAssetsDirOf_def)
qed

lemma stageAssets_after_loop:
  assumes xs: "xs \<noteq> []"
    and e: "ensureDir (fs st) (tempAssetsDirOf env) = Inr root1"
    and loop: "copyAssets env (tempAssetsDirOf env) xs False
                 ((emit (ConsoleLog ''Copying assets...'') st)\<lparr>fs := root1\<rparr>) = (Inr True, st2)"
    and bfile: "statAt (fs st2) (bundleFileOf env) = Some (IsFile bc)"
    and temp: "statAt (fs st2) (tempDirOf env) = Some IsDir"
  shows "\<exists>st'. stageAssets env xs st = (Inr True, st')
           \<and> (\<forall>p. statAt (fs st') p
                  = (if p = bundleFileOf env then Some (IsFile (assetHelperCode @ bc)) else statAt (fs st2) p))"
proof -
  let ?b = "bundleFileOf env"
  have "butlast ?b = tempDirOf env" by (simp add: bundleFileOf_def butlast_append)
  with writeFileSync_succeeds [of ?b "fs st2" "assetHelperCode @ bc"] bfile temp
  obtain root3 where w: "writeFileSync (fs st2) ?b (assetHelperCode @ bc) = Inr root3"
    by (auto simp: bundleFileOf_def)
  have r: "readFileSync (fs st2) ?b = Inr bc"
    using bfile by (simp add: readFileSync_statAt)
  let ?st3 = "emit (ConsoleLog ''Asset helper code added to bundle'')
                ((emit (ConsoleLog ''Adding asset helper code to bundle...'') st2)\<lparr>fs := root3\<rparr>)"
  have i: "injectHelper ?b st2 = (Inr (), ?st3)"
    using r w by (simp add: injectHelper_def Let_def)
  have "stageAssets env xs st = (Inr True, emit (ConsoleLog ''Assets copying complete'') ?st3)"
    using xs e loop i by (simp add: stageAssets_def Let_def)
  moreover have "statAt (fs (emit (ConsoleLog ''Assets copying complete'') ?st3)) p
       = (if p = ?b then Some (IsFile (assetHelperCode @ bc)) else statAt (fs st2) p)" for p
    using writeFileSync_statAt [OF w, of p] by simp
  ultimately show ?thesis by blast
qed


lemma assets_staged_flat_both_orders:
  assumes fresh: "statAt (fs st) (tempDirOf env) = Some IsDir" "statAt (fs st) (tempAssetsDirOf env) = None"
    and bfile: "statAt (fs st) (bundleFileOf env) = Some (IsFile bc)"
    and isfile: "statAt (fs st) (path_resolve (cwd env) f) = Some (IsFile c)"
    and isdir: "statAt (fs st) (path_resolve (cwd env) dname) = Some IsDir"
    and outside: "\<not> prefix (path_resolve (cwd env) dname) (tempAssetsDirOf env)"
    and depth: "\<forall>q. statAt (fs st) (path_resolve (cwd env) dname @ q) \<noteq> None \<longrightarrow> length q < stackLimit env"
    and nocoll: "statAt (fs st) (path_resolve (cwd env) dname @ [path_basename (path_resolve (cwd env) f)])
                   \<noteq> Some IsDir"
  shows "fst (stageAssets env [Some f, Some dname] st) = Inr True"
    and "\<forall>q. q \<noteq> [] \<longrightarrow>
           statAt (fs (snd (stageAssets env [Some f, Some dname] st))) (tempAssetsDirOf env @ q)
             = (case statAt (fs st) (path_resolve (cwd env) dname @ q) of
                  Some k \<Rightarrow> Some k
                | None \<Rightarrow> if q = [path_basename (path_resolve (cwd env) f)] then Some (IsFile c) else None)"
    and "fst (stageAssets env [Some dname, Some f] st) = Inr True"
    and "\<forall>q. q \<noteq> [] \<longrightarrow>
           statAt (fs (snd (stageAssets env [Some dname, Some f] st))) (tempAssetsDirOf env @ q)
             = (if q = [path_basename (path_resolve (cwd env) f)] then Some (IsFile c)
                else statAt (fs st) (path_resolve (cwd env) dname @ q))"
proof -
  let ?A = "tempAssetsDirOf env" and ?T = "tempDirOf env" and ?B = "bundleFileOf env"
  let ?pf = "path_resolve (cwd env) f" and ?pd = "path_resolve (cwd env) dname"
  let ?S = "statAt (fs st)"
  from fresh_assets_dir [OF fresh] obtain root1 where e: "ensureDir (fs st) ?A = Inr root1"
    and s1: "\<And>p. statAt root1 p = (if p = ?A then Some IsDir else ?S p)" by blast
  let ?st1 = "(emit (ConsoleLog ''Copying assets...'') st)\<lparr>fs := root1\<rparr>"
  have below: "?S (?A @ q) = None" for q
    using statAt_below [of "fs st" ?A q] fresh(2) by (cases "q = []") simp_all
  have pd_not: "?pd @ x \<noteq> ?A" for x
    using outside by (metis prefixI)
  have s1_pd: "statAt root1 (?pd @ x) = ?S (?pd @ x)" for x
    using s1 [of "?pd @ x"] pd_not [of x] by simp
  have empty1: "statAt (fs ?st1) ?A = Some IsDir" "\<And>q. q \<noteq> [] \<Longrightarrow> statAt (fs ?st1) (?A @ q) = None"
    using s1 below by simp_all
  have file1: "statAt (fs ?st1) ?pf = Some (IsFile c)"
    using s1 [of ?pf] isfile fresh(2) by auto
  have dir1: "statAt (fs ?st1) ?pd = Some IsDir"
    using s1_pd [of "[]"] isdir by simp
  have apart: "\<not> prefix ?pd ?A" "\<not> prefix ?A ?pd"
  proof -
    show "\<not> prefix ?pd ?A" by (rule outside)
    show "\<not> prefix ?A ?pd"
    proof
      assume "prefix ?A ?pd"
      then obtain q where "?pd = ?A @ q" by (auto simp: prefix_def)
      with below [of q] isdir show False by simp
    qed
  qed
  have depth1: "\<And>q. statAt (fs ?st1) (?pd @ q) \<noteq> None \<Longrightarrow> length q < stackLimit env"
    using depth s1_pd by simp
  have nocoll1: "statAt (fs ?st1) (?pd @ [path_basename ?pf]) \<noteq> Some IsDir"
    using nocoll s1_pd [of "[path_basename ?pf]"] by simp
  have cwd1: "cwd env = cwd env" ..
  have out_B: "\<not> prefix ?A ?B" and out_T: "\<not> prefix ?A ?T"
    by (simp_all add: tempAssetsDirOf_def bundleFileOf_def)
  have lift: "fst (stageAssets env xs st) = Inr True
              \<and> (\<forall>q. q \<noteq> [] \<longrightarrow> statAt (fs (snd (stageAssets env xs st))) (?A @ q) = F q)"
    if xs: "xs \<noteq> []"
      and loop: "copyAssets env ?A xs False ?st1 = (Inr True, st2)"
      and inner: "\<forall>q. q \<noteq> [] \<longrightarrow> statAt (fs st2) (?A @ q) = F q"
      and outer: "\<forall>p. \<not> prefix ?A p \<longrightarrow> statAt (fs st2) p = statAt (fs ?st1) p"
    for xs st2 F
  proof -
    have b2: "statAt (fs st2) ?B = Some (IsFile bc)"
      using outer out_B s1 [of ?B] bfile fresh(2) by auto
    have t2: "statAt (fs st2) ?T = Some IsDir"
      using outer out_T s1 [of ?T] fresh by auto
    from stageAssets_after_loop [OF xs e loop b2 t2]
    obtain st' where r: "stageAssets env xs st = (Inr True, st')"
      and s': "\<And>p. statAt (fs st') p
                  = (if p = ?B then Some (IsFile (assetHelperCode @ bc)) else statAt (fs st2) p)"
      by blast
    have "?A @ q \<noteq> ?B" for q using out_B by (metis prefixI)
    with r s' inner show ?thesis by simp
  qed
  from file_first_then_directory [OF empty1 file1 dir1 apart depth1 nocoll1 refl refl]
  obtain sa where la: "copyAssets env ?A [Some f, Some dname] False ?st1 = (Inr True, sa)"
    and ia: "\<forall>q. q \<noteq> [] \<longrightarrow> statAt (fs sa) (?A @ q)
                  = (case statAt (fs ?st1) (?pd @ q) of
                       Some k \<Rightarrow> Some k
                     | None \<Rightarrow> if q = [path_basename ?pf] then Some (IsFile c) else None)"
    and oa: "\<forall>p. \<not> prefix ?A p \<longrightarrow> statAt (fs sa) p = statAt (fs ?st1) p"
    by blast
  have ia': "\<forall>q. q \<noteq> [] \<longrightarrow> statAt (fs sa) (?A @ q)
                  = (case ?S (?pd @ q) of
                       Some k \<Rightarrow> Some k
                     | None \<Rightarrow> if q = [path_basename ?pf] then Some (IsFile c) else None)"
    using ia s1_pd by simp
  from lift [OF _ la ia' oa]
  show "fst (stageAssets env [Some f, Some dname] st) = Inr True"
    and "\<forall>q. q \<noteq> [] \<longrightarrow>
           statAt (fs (snd (stageAssets env [Some f, Some dname] st))) (?A @ q)
             = (case ?S (?pd @ q) of
                  Some k \<Rightarrow> Some k
                | None \<Rightarrow> if q = [path_basename ?pf] then Some (IsFile c) else None)"
    by simp_all
  from directory_first_then_file [OF empty1 file1 dir1 apart depth1 nocoll1 refl refl]
  obtain sb where lb: "copyAssets env ?A [Some dname, Some f] False ?st1 = (Inr True, sb)"
    and ib: "\<forall>q. q \<noteq> [] \<longrightarrow> statAt (fs sb) (?A @ q)
                  = (if q = [path_basename ?pf] then Some (IsFile c) else statAt (fs ?st1) (?pd @ q))"
    and ob: "\<forall>p. \<not> prefix ?A p \<longrightarrow> statAt (fs sb) p = statAt (fs ?st1) p"
    by blast
  have ib': "\<forall>q. q \<noteq> [] \<longrightarrow> statAt (fs sb) (?A @ q)
                  = (if q = [path_basename ?pf] then Some (IsFile c) else ?S (?pd @ q))"
    using ib s1_pd by simp
  from lift [OF _ lb ib' ob]
  show "fst (stageAssets env [Some dname, Some f] st) = Inr True"
    and "\<forall>q. q \<noteq> [] \<longrightarrow>
           statAt (fs (snd (stageAssets env [Some dname, Some f] st))) (?A @ q)
             = (if q = [path_basename ?pf] then Some (IsFile c) else ?S (?pd @ q))"
    by simp_all
qed


text \<open>
  Read as it stands, the claim promises that the later of two entries of one name is
  the one found. Here the file \<open>data\<close> is staged first and the directory \<open>d\<close>, which
  holds an empty directory \<open>data\<close>, second: staging succeeds, and \<open>assets/data\<close> is
  still the file, not the directory that came last.
\<close>

theorem last_writer_counterexample:
  "fst (stageAssets exampleEnv [Some ''data'', Some ''d''] collisionState) = Inr True
   \<and> statAt (fs collisionState) [''work'', ''data''] = Some (IsFile ''A'')
   \<and> statAt (fs collisionState) [''work'', ''d'', ''data''] = Some IsDir
   \<and> statAt (fs (snd (stageAssets exampleEnv [Some ''data'', Some ''d''] collisionState)))
         (tempAssetsDirOf exampleEnv @ [''data''])
       = Some (IsFile ''A'')"
  by code_simp

text \<open>
Claim C3, amended. Take one asset that is a file and one that is a directory, in
  either order, staged into a staging directory that has no \<open>assets\<close> directory yet
  and holds the bundle; let the directory not contain the staging assets directory, be
  less deep than the call stack allows, and have no sub-directory that bears the file's
  base name. Then staging succeeds, and below \<open>assets/\<close> there is exactly this: at
  every path of the source directory the node that the source has there (a file with
  the same content, or a directory), and at the file's base name the file. Where the
  directory holds a file of that base name, the one staged last is found. The
  directory is not wrapped: \<open>assets/<directory name>\<close> exists only when an entry of that
  name is itself staged.
\<close>

theorem assets_staged_flat:
  assumes "statAt (fs st) (tempDirOf env) = Some IsDir"
    and "statAt (fs st) (tempAssetsDirOf env) = None"
    and "statAt (fs st) (bundleFileOf env) = Some (IsFile bc)"
    and "statAt (fs st) (path_resolve (cwd env) f) = Some (IsFile c)"
    and "statAt (fs st) (path_resolve (cwd env) dname) = Some IsDir"
    and "\<not> prefix (path_resolve (cwd env) dname) (tempAssetsDirOf env)"
    and "\<forall>q. statAt (fs st) (path_resolve (cwd env) dname @ q) \<noteq> None \<longrightarrow> length q < stackLimit env"
    and "statAt (fs st) (path_resolve (cwd env) dname @ [path_basename (path_resolve (cwd env) f)])
           \<noteq> Some IsDir"
  shows "fst (stageAssets env [Some f, Some dname] st) = Inr True
    \<and> (\<forall>q. q \<noteq> [] \<longrightarrow>
           statAt (fs (snd (stageAssets env [Some f, Some dname] st))) (tempAssetsDirOf env @ q)
             = (case statAt (fs st) (path_resolve (cwd env) dname @ q) of
                  Some k \<Rightarrow> Some k
                | None \<Rightarrow> if q = [path_basename (path_resolve (cwd env) f)] then Some (IsFile c) else None))
    \<and> fst (stageAssets env [Some dname, Some f] st) = Inr True
    \<and> (\<forall>q. q \<noteq> [] \<longrightarrow>
           statAt (fs (snd (stageAssets env [Some dname, Some f] st))) (tempAssetsDirOf env @ q)
             = (if q = [path_basename (path_resolve (cwd env) f)] then Some (IsFile c)
                else statAt (fs st) (path_resolve (cwd env) dname @ q)))"
  using assets_staged_flat_both_orders [OF assms] by blast

theorem assets_staged_flat_witness:
  "statAt (fs bundledState) (path_resolve (cwd exampleEnv) ''config.json'') = Some (IsFile ''{}'')
   \<and> statAt (fs bundledState) (path_resolve (cwd exampleEnv) ''images'') = Some IsDir
   \<and> fst (stageAssets exampleEnv [Some ''config.json'', Some ''images''] bundledState) = Inr True
   \<and> statAt (fs (snd (stageAssets exampleEnv [Some ''config.json'', Some ''images''] bundledState)))
        (tempAssetsDirOf exampleEnv @ [''config.json'']) = Some (IsFile ''{}'')
   \<and> statAt (fs (snd (stageAssets exampleEnv [Some ''config.json'', Some ''images''] bundledState)))
        (tempAssetsDirOf exampleEnv @ [''a.png'']) = Some (IsFile ''PNG'')
   \<and> statAt (fs (snd (stageAssets exampleEnv [Some ''config.json'', Some ''images''] bundledState)))
        (tempAssetsDirOf exampleEnv @ [''images'']) = None
   \<and> statAt (fs (snd (stageAssets exampleEnv [Some ''config.json'', Some ''images''] bundledState)))
        (tempAssetsDirOf exampleEnv @ [''images'', ''a.png'']) = None
   \<and> statAt (fs (snd (stageAssets exampleEnv [Some ''images'', Some ''config.json''] bundledState)))
        (tempAssetsDirOf exampleEnv @ [''a.png'']) = Some (IsFile ''PNG'')"
proof -
  have pf: "path_resolve (cwd exampleEnv) ''config.json'' = [''work'', ''config.json'']"
    and pd: "path_resolve (cwd exampleEnv) ''images'' = [''work'', ''images'']"
    by (simp_all add: exampleEnv_def path_resolve_def path_join_def applySegment_def)
  have h1: "statAt (fs bundledState) (tempDirOf exampleEnv) = Some IsDir" by code_simp
  have h2: "statAt (fs bundledState) (tempAssetsDirOf exampleEnv) = None" by code_simp
  have h3: "statAt (fs bundledState) (bundleFileOf exampleEnv) = Some (IsFile ''main()'')" by code_simp
  have h4: "statAt (fs bundledState) (path_resolve (cwd exampleEnv) ''config.json'') = Some (IsFile ''{}'')"
    by code_simp
  have h5: "statAt (fs bundledState) (path_resolve (cwd exampleEnv) ''images'') = Some IsDir"
    by code_simp
  have h6: "\<not> prefix (path_resolve (cwd exampleEnv) ''images'') (tempAssetsDirOf exampleEnv)"
    unfolding pd by (simp add: tempAssetsDirOf_def tempDirOf_def exampleEnv_def)
  have inside: "statAt (fs bundledState) ([''work'', ''images''] @ q)
                  = (if q = [] then Some IsDir else if q = [''a.png''] then Some (IsFile ''PNG'') else None)"
    for q
  proof (cases q)
    case Nil
    then show ?thesis by (simp add: bundledState_def statAt_Dir_Cons)
  next
    case (Cons a q')
    then show ?thesis
      by (cases q') (simp_all add: bundledState_def statAt_Dir_Cons)
  qed
  have h7: "\<forall>q. statAt (fs bundledState) (path_resolve (cwd exampleEnv) ''images'' @ q) \<noteq> None
               \<longrightarrow> length q < stackLimit exampleEnv"
    unfolding pd inside by (auto simp: exampleEnv_def split: if_splits)
  have h8: "statAt (fs bundledState)
              (path_resolve (cwd exampleEnv) ''images'' @ [path_basename (path_resolve (cwd exampleEnv) ''config.json'')])
            \<noteq> Some IsDir"
    unfolding pd pf inside by (simp add: path_basename_def)
  note t = assets_staged_flat [OF h1 h2 h3 h4 h5 h6 h7 h8]
  have b: "path_basename (path_resolve (cwd exampleEnv) ''config.json'') = ''config.json''"
    by (simp add: pf path_basename_def)
  from t have ok: "fst (stageAssets exampleEnv [Some ''config.json'', Some ''images''] bundledState) = Inr True"
    by blast
  from t have first: "q \<noteq> [] \<Longrightarrow>
       statAt (fs (snd (stageAssets exampleEnv [Some ''config.json'', Some ''images''] bundledState)))
         (tempAssetsDirOf exampleEnv @ q)
       = (case statAt (fs bundledState) ([''work'', ''images''] @ q) of
            Some k \<Rightarrow> Some k
          | None \<Rightarrow> if q = [''config.json''] then Some (IsFile ''{}'') else None)" for q
    unfolding pd b by blast
  from t have second: "q \<noteq> [] \<Longrightarrow>
       statAt (fs (snd (stageAssets exampleEnv [Some ''images'', Some ''config.json''] bundledState)))
         (tempAssetsDirOf exampleEnv @ q)
       = (if q = [''config.json''] then Some (IsFile ''{}'')
          else statAt (fs bundledState) ([''work'', ''images''] @ q))" for q
    unfolding pd b by blast
  have vals: "statAt (fs bundledState) [''work'', ''images'', ''config.json''] = None"
    "statAt (fs bundledState) [''work'', ''images'', ''a.png''] = Some (IsFile ''PNG'')"
    "statAt (fs bundledState) [''work'', ''images'', ''images''] = None"
    "statAt (fs bundledState) [''work'', ''images'', ''images'', ''a.png''] = None"
    by code_simp+
  show ?thesis
    using h4 h5 ok first [of "[''config.json'']"] first [of "[''a.png'']"] first [of "[''images'']"]
      first [of "[''images'', ''a.png'']"] second [of "[''a.png'']"]
    by (simp add: vals)
qed

end
